(* ===== verification/Prelude.thy ===== *)
theory Prelude
  imports Main "HOL-Library.Word"
begin

text \<open>
  Shared vocabulary of the development: Go's machine integers and byte slices, its
  error values and panics, the string functions of package \<open>strings\<close> that the sources
  call, and the proof collections of the component theories.

  \<^item> A Go \<open>string\<close> is a byte string, so it is HOL's \<open>string\<close> (a list of 8-bit \<open>char\<close>);
    a \<open>[]byte\<close> is a list of \<open>8 word\<close>, and the two conversions are total and inverse.
  \<^item> \<open>int64\<close> is \<open>64 word\<close> read with \<open>sint\<close>; \<open>uint64\<close> is \<open>64 word\<close> read with \<open>unat\<close>;
    a \<open>float64\<close> is kept as its 64-bit pattern, since no code of the repository computes
    with floats.
  \<^item> A Go function with results \<open>(T, error)\<close> returns a pair, since several functions of
    the repository return a non-nil value together with a non-nil error. A nil slice
    that the code tells apart from an empty one is \<open>None\<close>.
  \<^item> A function that can panic returns \<open>'a go\<close>.
\<close>

section \<open>Machine types\<close>

type_synonym byte = "8 word"
type_synonym bytes = "8 word list"
type_synonym int64 = "64 word"
type_synonym uint64 = "64 word"
type_synonym float64 = "64 word"

definition bytes_of_string :: "string \<Rightarrow> bytes" where
  "bytes_of_string s = map (\<lambda>c. of_char c) s"

definition string_of_bytes :: "bytes \<Rightarrow> string" where
  "string_of_bytes bs = map (\<lambda>b. char_of (unat b)) bs"

section \<open>Errors and panics\<close>

text \<open>
  The error values the sources compare by identity (\<open>err == raft.ErrNotLeader\<close>) are
  constructors of their own; every other error is its message.
\<close>

datatype goerr =
    ErrNotLeader          \<comment> \<open>consensus.ErrNotLeader\<close>
  | ErrJoinSelf           \<comment> \<open>consensus.ErrJoinSelf\<close>
  | RaftErrNotLeader      \<comment> \<open>raft.ErrNotLeader\<close>
  | ErrBadJson            \<comment> \<open>service.ErrBadJson\<close>
  | ErrEmpty              \<comment> \<open>service.ErrEmpty\<close>
  | ErrTxDone             \<comment> \<open>sql.ErrTxDone\<close>
  | ErrDBClosed           \<comment> \<open>database/sql's "sql: database is closed"\<close>
  | ErrNotExist string    \<comment> \<open>an error for which os.IsNotExist holds\<close>
  | ErrMsg string         \<comment> \<open>any other error, by its message\<close>

fun err_text :: "goerr \<Rightarrow> string" where
  "err_text ErrNotLeader = ''not raft leader''"
| "err_text ErrJoinSelf = ''trying to join self''"
| "err_text RaftErrNotLeader = ''node is not the leader''"
| "err_text ErrBadJson = ''bad json couldn't be parsed properly''"
| "err_text ErrEmpty = ''no statements were provided''"
| "err_text ErrTxDone = ''sql: transaction has already been committed or rolled back''"
| "err_text ErrDBClosed = ''sql: database is closed''"
| "err_text (ErrNotExist s) = s"
| "err_text (ErrMsg s) = s"

datatype 'a go = Ret 'a | Panic string

fun go_bind :: "'a go \<Rightarrow> ('a \<Rightarrow> 'b go) \<Rightarrow> 'b go" where
  "go_bind (Ret x) f = f x"
| "go_bind (Panic s) f = Panic s"

text \<open>Indexing a slice: out of range panics.\<close>

definition go_index :: "'a list \<Rightarrow> nat \<Rightarrow> 'a go" where
  "go_index xs i =
     (if i < length xs then Ret (xs ! i) else Panic ''runtime error: index out of range'')"

section \<open>Package strings\<close>

definition HasPrefix :: "string \<Rightarrow> string \<Rightarrow> bool" where
  "HasPrefix s p \<longleftrightarrow> take (length p) s = p"

definition ascii_lower :: "char \<Rightarrow> char" where
  "ascii_lower c =
     (let n = (of_char c :: nat) in if 65 \<le> n \<and> n \<le> 90 then char_of (n + 32) else c)"

definition ToLower :: "string \<Rightarrow> string" where
  "ToLower s = map ascii_lower s"

section \<open>Collections for the component proofs\<close>

named_theorems engine_defs \<open>the operations of package engine\<close>
named_theorems consensus_defs \<open>the operations of package consensus\<close>
named_theorems service_defs \<open>the handlers of package service\<close>

section \<open>Generic lemmas\<close>

lemma of_char_byte_unat: "unat (of_char c :: byte) = (of_char c :: nat)"
proof -
  have "(of_char c :: byte) = word_of_nat (of_char c)"
    by (simp add: of_nat_of_char)
  then show ?thesis
    by (simp add: unat_of_nat)
qed

lemma bytes_of_string_of_bytes [simp]: "bytes_of_string (string_of_bytes bs) = bs"
proof -
  have "(of_char (char_of (unat b) :: char) :: byte) = b" for b :: byte
  proof -
    have "(of_char (char_of (unat b) :: char) :: byte) = word_of_nat (of_char (char_of (unat b) :: char))"
      by (simp only: of_nat_of_char)
    also have "\<dots> = word_of_nat (unat b mod 256)" by simp
    also have "\<dots> = b"
    proof -
      have "unat b < 2 ^ LENGTH(8)" by (rule unsigned_less)
      then show ?thesis by simp
    qed
    finally show ?thesis .
  qed
  then show ?thesis
    by (simp add: string_of_bytes_def bytes_of_string_def o_def)
qed

lemma string_of_bytes_of_string [simp]: "string_of_bytes (bytes_of_string s) = s"
  by (simp add: string_of_bytes_def bytes_of_string_def o_def of_char_byte_unat)

lemma go_bind_Ret_iff [simp]:
  "go_bind m f = Ret y \<longleftrightarrow> (\<exists>x. m = Ret x \<and> f x = Ret y)"
  by (cases m) auto

lemma go_bind_RetE:
  assumes "go_bind m f = Ret y"
  obtains x where "m = Ret x" and "f x = Ret y"
  using assms by auto

text \<open>An error that is passed on, and work on the value otherwise.\<close>

lemma case_sum_Ret_Inr_iff [simp]:
  "(case r of Inl e \<Rightarrow> Ret (Inl e) | Inr x \<Rightarrow> f x) = Ret (Inr y) \<longleftrightarrow>
     (\<exists>x. r = Inr x \<and> f x = Ret (Inr y))"
  by (auto split: sum.splits)

lemma go_index_Ret_iff [simp]: "go_index xs i = Ret x \<longleftrightarrow> i < length xs \<and> xs ! i = x"
  by (auto simp: go_index_def)

lemma HasPrefix_append [simp]: "HasPrefix (p @ s) p"
  by (simp add: HasPrefix_def)

lemma HasPrefix_iff: "HasPrefix s p \<longleftrightarrow> (\<exists>r. s = p @ r)"
  by (metis HasPrefix_append HasPrefix_def append_take_drop_id)

end
