(* ===== verification/Pb.thy ===== *)
theory Pb
  imports Prelude
begin

text \<open>
  The messages of \<^verbatim>\<open>pb/store.pb.go\<close> (generated from \<^verbatim>\<open>pb/store.proto\<close>) that the program
  passes between its components, and the nil-safe getters it calls on them.

  A pointer that the code may find nil (\<open>*Parameter\<close> in a row, \<open>*Values\<close>, the \<open>Request\<close>
  of a \<open>QueryReq\<close>) is an \<open>option\<close>. The \<open>oneof\<close> of \<open>Parameter\<close> is a datatype with the
  generated wrapper types as constructors. The protobuf bookkeeping fields
  (\<open>state\<close>, \<open>sizeCache\<close>, \<open>unknownFields\<close>) carry no program data and are left out.
\<close>

section \<open>Messages\<close>

datatype Parameter_Value =
    Parameter_I int64
  | Parameter_D float64
  | Parameter_B bool
  | Parameter_Y bytes
  | Parameter_S string

record Parameter =
  param_Value :: "Parameter_Value option"
  param_Name :: string

record Statement =
  stmt_Sql :: string
  stmt_Params :: "Parameter option list"

record Request =
  req_Transaction :: bool
  req_Statements :: "Statement list"

record QueryReq =
  qreq_Request :: "Request option"
  qreq_StrongConsistency :: bool

record Values =
  vals_Params :: "Parameter option list option"

record QueryRes =
  qres_Columns :: "string list"
  qres_Types :: "string list"
  qres_Values :: "Values option list"
  qres_Error :: string

record ExecRes =
  eres_LastInsertId :: int64
  eres_RowsAffected :: int64
  eres_Error :: string

record Server =
  srv_Id :: string
  srv_RpcAddr :: string
  srv_IsLeader :: bool

text \<open>The enum is an open \<open>int32\<close>: an unmarshalled action may carry any number.\<close>

type_synonym Action_Type = "32 word"

definition Action_ACTION_QUERY :: Action_Type where "Action_ACTION_QUERY = 0"
definition Action_ACTION_EXECUTE :: Action_Type where "Action_ACTION_EXECUTE = 1"
definition Action_ACTION_NO :: Action_Type where "Action_ACTION_NO = 2"

record Action =
  act_Type :: Action_Type
  act_Body :: bytes

section \<open>Zero values\<close>

definition new_ExecRes :: ExecRes where
  "new_ExecRes = \<lparr>eres_LastInsertId = 0, eres_RowsAffected = 0, eres_Error = ''''\<rparr>"

definition new_QueryRes :: QueryRes where
  "new_QueryRes = \<lparr>qres_Columns = [], qres_Types = [], qres_Values = [], qres_Error = ''''\<rparr>"

section \<open>Getters\<close>

definition GetValue :: "Parameter option \<Rightarrow> Parameter_Value option" where
  "GetValue m = (case m of Some p \<Rightarrow> param_Value p | None \<Rightarrow> None)"

definition GetName :: "Parameter option \<Rightarrow> string" where
  "GetName x = (case x of Some p \<Rightarrow> param_Name p | None \<Rightarrow> '''')"

definition GetI :: "Parameter option \<Rightarrow> int64" where
  "GetI x = (case GetValue x of Some (Parameter_I i) \<Rightarrow> i | _ \<Rightarrow> 0)"

definition GetParams :: "Values option \<Rightarrow> Parameter option list option" where
  "GetParams x = (case x of Some v \<Rightarrow> vals_Params v | None \<Rightarrow> None)"

lemma getters_nil [simp]:
  "GetValue None = None" "GetName None = ''''" "GetI None = 0" "GetParams None = None"
  by (simp_all add: GetValue_def GetName_def GetI_def GetParams_def)

lemma getters_Some [simp]:
  "GetValue (Some p) = param_Value p" "GetName (Some p) = param_Name p"
  "GetParams (Some v) = vals_Params v"
  by (simp_all add: GetValue_def GetName_def GetParams_def)

lemma action_types_distinct [simp]:
  "Action_ACTION_QUERY \<noteq> Action_ACTION_EXECUTE" "Action_ACTION_EXECUTE \<noteq> Action_ACTION_QUERY"
  "Action_ACTION_QUERY \<noteq> Action_ACTION_NO" "Action_ACTION_NO \<noteq> Action_ACTION_QUERY"
  "Action_ACTION_EXECUTE \<noteq> Action_ACTION_NO" "Action_ACTION_NO \<noteq> Action_ACTION_EXECUTE"
  by (simp_all add: Action_ACTION_QUERY_def Action_ACTION_EXECUTE_def Action_ACTION_NO_def)

end
