(* ===== verification/Host.thy ===== *)
theory Host
  imports Pb
begin

text \<open>
  What the sources use of the host: the file system calls of package \<open>os\<close> and the
  handles of \<open>database/sql\<close>.

  The SQLite driver (\<^verbatim>\<open>github.com/mattn/go-sqlite3\<close>) is not part of the repository. It is
  the parameter \<open>'c driver\<close>, a record of the calls \<open>database/sql\<close> makes on it, each an
  arbitrary function of the whole world (files and the driver's own connection state
  \<open>'c\<close>). The parts of \<open>database/sql\<close> the engine relies on are definitions: a closed
  \<open>sql.DB\<close> hands out no connection, and a \<open>sql.Tx\<close> is done after its first \<open>Commit\<close> or
  \<open>Rollback\<close> and answers every later call with \<open>ErrTxDone\<close>.

  What SQLite documents about transactions is \<open>sqlite_tx_laws\<close>, and what it documents
  about read-only statements is \<open>sqlite_read_laws\<close>; theorems that need one of them name it as a
  hypothesis.
\<close>

section \<open>Files\<close>

datatype fnode = FFile bytes | FDir

record 'c world =
  files :: "string \<rightharpoonup> fnode"
  conns :: 'c

text \<open>
  Beside what the file tree decides, a call can fail for any reason of the operating
  system (permissions, a missing parent, a full disk): \<open>'c fault\<close> says when.
\<close>

type_synonym 'c fault = "string \<Rightarrow> string \<Rightarrow> 'c world \<Rightarrow> goerr option"

definition os_Remove :: "'c fault \<Rightarrow> string \<Rightarrow> 'c world \<Rightarrow> goerr option \<times> 'c world" where
  "os_Remove flt p w =
     (case flt ''remove'' p w of
        Some e \<Rightarrow> (Some e, w)
      | None \<Rightarrow>
          if p = '''' \<or> files w p = None
          then (Some (ErrNotExist (''remove '' @ p @ '': no such file or directory'')), w)
          else (None, w\<lparr>files := (files w)(p := None)\<rparr>))"

definition os_WriteFile ::
  "'c fault \<Rightarrow> string \<Rightarrow> bytes \<Rightarrow> 'c world \<Rightarrow> goerr option \<times> 'c world" where
  "os_WriteFile flt p b w =
     (case flt ''open'' p w of
        Some e \<Rightarrow> (Some e, w)
      | None \<Rightarrow>
          if p = '''' then (Some (ErrNotExist ''open : no such file or directory''), w)
          else if files w p = Some FDir then (Some (ErrMsg (''open '' @ p @ '': is a directory'')), w)
          else (None, w\<lparr>files := (files w)(p \<mapsto> FFile b)\<rparr>))"

definition os_ReadFile :: "'c fault \<Rightarrow> string \<Rightarrow> 'c world \<Rightarrow> bytes option \<times> goerr option" where
  "os_ReadFile flt p w =
     (case flt ''open'' p w of
        Some e \<Rightarrow> (None, Some e)
      | None \<Rightarrow>
          if p = '''' then (None, Some (ErrNotExist ''open : no such file or directory''))
          else (case files w p of
            None \<Rightarrow> (None, Some (ErrNotExist (''open '' @ p @ '': no such file or directory'')))
          | Some FDir \<Rightarrow> (None, Some (ErrMsg (''read '' @ p @ '': is a directory'')))
          | Some (FFile b) \<Rightarrow> (Some b, None)))"

definition os_Stat_size ::
  "'c fault \<Rightarrow> (string \<Rightarrow> int64) \<Rightarrow> string \<Rightarrow> 'c world \<Rightarrow> goerr + int64" where
  "os_Stat_size flt dirsize p w =
     (case flt ''stat'' p w of
        Some e \<Rightarrow> Inl e
      | None \<Rightarrow>
          if p = '''' then Inl (ErrNotExist ''stat : no such file or directory'')
          else (case files w p of
            None \<Rightarrow> Inl (ErrNotExist (''stat '' @ p @ '': no such file or directory''))
          | Some FDir \<Rightarrow> Inr (dirsize p)
          | Some (FFile b) \<Rightarrow> Inr (of_nat (length b))))"

definition os_Mkdir :: "'c fault \<Rightarrow> string \<Rightarrow> 'c world \<Rightarrow> goerr option \<times> 'c world" where
  "os_Mkdir flt p w =
     (case flt ''mkdir'' p w of
        Some e \<Rightarrow> (Some e, w)
      | None \<Rightarrow>
          if files w p \<noteq> None then (Some (ErrMsg (''mkdir '' @ p @ '': file exists'')), w)
          else (None, w\<lparr>files := (files w)(p \<mapsto> FDir)\<rparr>))"

definition os_MkdirAll :: "'c fault \<Rightarrow> string \<Rightarrow> 'c world \<Rightarrow> goerr option \<times> 'c world" where
  "os_MkdirAll flt p w =
     (case flt ''mkdir'' p w of
        Some e \<Rightarrow> (Some e, w)
      | None \<Rightarrow>
          (case files w p of
            Some FDir \<Rightarrow> (None, w)
          | Some (FFile _) \<Rightarrow> (Some (ErrMsg (''mkdir '' @ p @ '': not a directory'')), w)
          | None \<Rightarrow> (None, w\<lparr>files := (files w)(p \<mapsto> FDir)\<rparr>)))"

fun os_IsNotExist :: "goerr \<Rightarrow> bool" where
  "os_IsNotExist (ErrNotExist _) = True"
| "os_IsNotExist _ = False"

section \<open>The driver\<close>

text \<open>A value of a scanned column: the dynamic type of the \<open>any\<close> it is stored in.\<close>

datatype gval =
    GInt int64
  | GInt64 int64
  | GFloat64 float64
  | GBool bool
  | GString string
  | GBytes bytes
  | GTime "goerr + string"    \<comment> \<open>a \<open>time.Time\<close>, by the result of its \<open>MarshalText\<close>\<close>
  | GNil
  | GOther string string      \<comment> \<open>any other type, by its \<open>%T\<close> and \<open>%v\<close>\<close>

record NamedArg =
  arg_Name :: string
  arg_Value :: Parameter_Value

record sqlResult =
  res_RowsAffected :: "int64 \<times> goerr option"
  res_LastInsertId :: "int64 \<times> goerr option"

text \<open>
  The rows of a query: what \<open>ColumnTypes\<close> (by \<open>DatabaseTypeName\<close>) and \<open>Columns\<close>
  return, what \<open>Scan\<close> returns at each successful \<open>Next\<close>, and \<open>Err\<close> after the last.
\<close>

record sqlRows =
  rows_ColumnTypes :: "goerr + string list"
  rows_Columns :: "goerr + string list"
  rows_Scan :: "(goerr + gval list) list"
  rows_Err :: "goerr option"

record 'c driver =
  drv_Open :: "string \<Rightarrow> goerr option"
  drv_Connect :: "string \<Rightarrow> 'c world \<Rightarrow> goerr option \<times> 'c world"
  drv_Close :: "string \<Rightarrow> 'c world \<Rightarrow> goerr option \<times> 'c world"
  drv_Begin :: "string \<Rightarrow> 'c world \<Rightarrow> goerr option \<times> 'c world"
  drv_Commit :: "string \<Rightarrow> 'c world \<Rightarrow> goerr option \<times> 'c world"
  drv_Rollback :: "string \<Rightarrow> 'c world \<Rightarrow> goerr option \<times> 'c world"
  drv_Exec :: "string \<Rightarrow> 'c world \<Rightarrow> string \<Rightarrow> NamedArg list \<Rightarrow> (goerr + sqlResult) \<times> 'c world"
  drv_Readonly :: "string \<Rightarrow> 'c world \<Rightarrow> string \<Rightarrow> goerr + bool"
  drv_Query :: "string \<Rightarrow> 'c world \<Rightarrow> string \<Rightarrow> NamedArg list \<Rightarrow> (goerr + sqlRows) \<times> 'c world"
  drv_Backup :: "string \<Rightarrow> string \<Rightarrow> 'c world \<Rightarrow> goerr option \<times> 'c world"
  drv_BackupStep :: "string \<Rightarrow> string \<Rightarrow> 'c world \<Rightarrow> (goerr + bool) \<times> 'c world"
  drv_BackupFinish :: "string \<Rightarrow> string \<Rightarrow> 'c world \<Rightarrow> goerr option \<times> 'c world"

section \<open>database/sql\<close>

record sqlDB =
  db_dsn :: string
  db_closed :: bool

record sqlTx =
  tx_done :: bool

definition DB_Conn :: "'c driver \<Rightarrow> sqlDB \<Rightarrow> 'c world \<Rightarrow> goerr option \<times> 'c world" where
  "DB_Conn drv db w =
     (if db_closed db then (Some ErrDBClosed, w) else drv_Connect drv (db_dsn db) w)"

definition DB_Close :: "'c driver \<Rightarrow> sqlDB \<Rightarrow> 'c world \<Rightarrow> goerr option \<times> sqlDB \<times> 'c world" where
  "DB_Close drv db w =
     (if db_closed db then (None, db, w)
      else (case drv_Close drv (db_dsn db) w of
        (e, w') \<Rightarrow> (e, db\<lparr>db_closed := True\<rparr>, w')))"

definition Tx_Rollback ::
  "'c driver \<Rightarrow> string \<Rightarrow> sqlTx \<Rightarrow> 'c world \<Rightarrow> goerr option \<times> sqlTx \<times> 'c world" where
  "Tx_Rollback drv dsn tx w =
     (if tx_done tx then (Some ErrTxDone, tx, w)
      else (case drv_Rollback drv dsn w of (e, w') \<Rightarrow> (e, tx\<lparr>tx_done := True\<rparr>, w')))"

definition Tx_Commit ::
  "'c driver \<Rightarrow> string \<Rightarrow> sqlTx \<Rightarrow> 'c world \<Rightarrow> goerr option \<times> sqlTx \<times> 'c world" where
  "Tx_Commit drv dsn tx w =
     (if tx_done tx then (Some ErrTxDone, tx, w)
      else (case drv_Commit drv dsn w of (e, w') \<Rightarrow> (e, tx\<lparr>tx_done := True\<rparr>, w')))"

text \<open>
  The engine's \<open>Runner\<close>: the transaction when there is one, otherwise the connection.
\<close>

definition runner_Exec ::
  "'c driver \<Rightarrow> string \<Rightarrow> sqlTx option \<Rightarrow> 'c world \<Rightarrow> string \<Rightarrow> NamedArg list \<Rightarrow>
     (goerr + sqlResult) \<times> 'c world" where
  "runner_Exec drv dsn tx w sql args =
     (case tx of
        Some t \<Rightarrow> if tx_done t then (Inl ErrTxDone, w) else drv_Exec drv dsn w sql args
      | None \<Rightarrow> drv_Exec drv dsn w sql args)"

definition runner_Query ::
  "'c driver \<Rightarrow> string \<Rightarrow> sqlTx option \<Rightarrow> 'c world \<Rightarrow> string \<Rightarrow> NamedArg list \<Rightarrow>
     (goerr + sqlRows) \<times> 'c world" where
  "runner_Query drv dsn tx w sql args =
     (case tx of
        Some t \<Rightarrow> if tx_done t then (Inl ErrTxDone, w) else drv_Query drv dsn w sql args
      | None \<Rightarrow> drv_Query drv dsn w sql args)"

section \<open>What SQLite documents\<close>

text \<open>
  A reading of the world as a database: \<open>sp_base\<close> is the committed content, \<open>sp_view\<close> what
  the writing connection sees, \<open>sp_intx\<close> whether it has a transaction open, \<open>sp_sem\<close> the
  effect of a statement that succeeds. \<open>sp_plain\<close> holds of a text that is one SQL
  statement and no transaction control (\<open>BEGIN\<close>, \<open>COMMIT\<close>, \<open>ROLLBACK\<close>, \<open>SAVEPOINT\<close>): the
  laws say nothing about other texts.
\<close>

record ('c, 'v) sqlspec =
  sp_base :: "'c world \<Rightarrow> 'v"
  sp_view :: "'c world \<Rightarrow> 'v"
  sp_intx :: "'c world \<Rightarrow> bool"
  sp_plain :: "string \<Rightarrow> bool"
  sp_sem :: "'v \<Rightarrow> string \<Rightarrow> NamedArg list \<Rightarrow> sqlResult \<times> 'v"

definition law_Connect :: "'c driver \<Rightarrow> string \<Rightarrow> ('c, 'v) sqlspec \<Rightarrow> bool" where
  "law_Connect drv dsn sp \<longleftrightarrow>
     (\<forall>w e w'. drv_Connect drv dsn w = (e, w') \<longrightarrow> \<not> sp_intx sp w \<longrightarrow>
        sp_base sp w' = sp_base sp w \<and> \<not> sp_intx sp w')"

definition law_Begin :: "'c driver \<Rightarrow> string \<Rightarrow> ('c, 'v) sqlspec \<Rightarrow> bool" where
  "law_Begin drv dsn sp \<longleftrightarrow>
     (\<forall>w e w'. drv_Begin drv dsn w = (e, w') \<longrightarrow> \<not> sp_intx sp w \<longrightarrow>
        sp_base sp w' = sp_base sp w \<and>
        (if e = None then sp_intx sp w' \<and> sp_view sp w' = sp_base sp w else \<not> sp_intx sp w'))"

definition law_Exec_in :: "'c driver \<Rightarrow> string \<Rightarrow> ('c, 'v) sqlspec \<Rightarrow> bool" where
  "law_Exec_in drv dsn sp \<longleftrightarrow>
     (\<forall>w sql args r w'. drv_Exec drv dsn w sql args = (r, w') \<longrightarrow> sp_plain sp sql \<longrightarrow> sp_intx sp w \<longrightarrow>
        sp_base sp w' = sp_base sp w \<and>
        (\<forall>x. r = Inr x \<longrightarrow> sp_intx sp w' \<and> sp_sem sp (sp_view sp w) sql args = (x, sp_view sp w')))"

definition law_Exec_out :: "'c driver \<Rightarrow> string \<Rightarrow> ('c, 'v) sqlspec \<Rightarrow> bool" where
  "law_Exec_out drv dsn sp \<longleftrightarrow>
     (\<forall>w sql args r w'. drv_Exec drv dsn w sql args = (r, w') \<longrightarrow> sp_plain sp sql \<longrightarrow> \<not> sp_intx sp w \<longrightarrow>
        \<not> sp_intx sp w' \<and>
        (case r of Inl _ \<Rightarrow> sp_base sp w' = sp_base sp w
         | Inr x \<Rightarrow> sp_sem sp (sp_base sp w) sql args = (x, sp_base sp w')))"

definition law_Commit :: "'c driver \<Rightarrow> string \<Rightarrow> ('c, 'v) sqlspec \<Rightarrow> bool" where
  "law_Commit drv dsn sp \<longleftrightarrow>
     (\<forall>w e w'. drv_Commit drv dsn w = (e, w') \<longrightarrow> sp_intx sp w \<longrightarrow>
        \<not> sp_intx sp w' \<and> sp_base sp w' = (if e = None then sp_view sp w else sp_base sp w))"

definition law_Rollback :: "'c driver \<Rightarrow> string \<Rightarrow> ('c, 'v) sqlspec \<Rightarrow> bool" where
  "law_Rollback drv dsn sp \<longleftrightarrow>
     (\<forall>w e w'. drv_Rollback drv dsn w = (e, w') \<longrightarrow>
        \<not> sp_intx sp w' \<and> sp_base sp w' = sp_base sp w)"

definition sqlite_tx_laws :: "'c driver \<Rightarrow> string \<Rightarrow> ('c, 'v) sqlspec \<Rightarrow> bool" where
  "sqlite_tx_laws drv dsn sp \<longleftrightarrow>
     law_Connect drv dsn sp \<and> law_Begin drv dsn sp \<and> law_Exec_in drv dsn sp \<and>
     law_Exec_out drv dsn sp \<and> law_Commit drv dsn sp \<and> law_Rollback drv dsn sp"

text \<open>
  A statement that SQLite reports read-only (\<open>sqlite3_stmt_readonly\<close>) does not change the
  content, and neither does opening or ending a transaction that wrote nothing.
\<close>

definition sqlite_read_laws :: "'c driver \<Rightarrow> string \<Rightarrow> ('c world \<Rightarrow> 'v) \<Rightarrow> bool" where
  "sqlite_read_laws drv dsn content \<longleftrightarrow>
     (\<forall>w. content (snd (drv_Connect drv dsn w)) = content w) \<and>
     (\<forall>w. content (snd (drv_Begin drv dsn w)) = content w) \<and>
     (\<forall>w sql args. drv_Readonly drv dsn w sql = Inr True \<longrightarrow>
        content (snd (drv_Query drv dsn w sql args)) = content w) \<and>
     (\<forall>w. content (snd (drv_Commit drv dsn w)) = content w) \<and>
     (\<forall>w. content (snd (drv_Rollback drv dsn w)) = content w)"

section \<open>Lemmas\<close>

lemma DB_Conn_closed [simp]: "db_closed db \<Longrightarrow> DB_Conn drv db w = (Some ErrDBClosed, w)"
  by (simp add: DB_Conn_def)

lemma Tx_Rollback_done [simp]: "tx_done tx \<Longrightarrow> Tx_Rollback drv dsn tx w = (Some ErrTxDone, tx, w)"
  by (simp add: Tx_Rollback_def)

lemma Tx_Commit_done:
  assumes "Tx_Commit drv dsn tx w = (e, tx', w')"
  shows "tx_done tx'"
  using assms by (auto simp: Tx_Commit_def split: if_splits prod.splits)

lemma runner_Exec_fresh [simp]:
  "runner_Exec drv dsn (Some \<lparr>tx_done = False\<rparr>) w sql args = drv_Exec drv dsn w sql args"
  "runner_Exec drv dsn None w sql args = drv_Exec drv dsn w sql args"
  by (simp_all add: runner_Exec_def)

lemma tx_laws_Connect:
  assumes "sqlite_tx_laws drv dsn sp" "\<not> sp_intx sp w" "drv_Connect drv dsn w = (e, w')"
  shows "sp_base sp w' = sp_base sp w \<and> \<not> sp_intx sp w'"
  using assms by (auto simp: sqlite_tx_laws_def law_Connect_def)

lemma tx_laws_Begin:
  assumes "sqlite_tx_laws drv dsn sp" "\<not> sp_intx sp w" "drv_Begin drv dsn w = (e, w')"
  shows "sp_base sp w' = sp_base sp w \<and>
    (e = None \<longrightarrow> sp_intx sp w' \<and> sp_view sp w' = sp_base sp w) \<and> (e \<noteq> None \<longrightarrow> \<not> sp_intx sp w')"
  using assms by (auto simp: sqlite_tx_laws_def law_Begin_def)

lemma tx_laws_Exec_in:
  assumes "sqlite_tx_laws drv dsn sp" "sp_plain sp sql" "sp_intx sp w"
    "drv_Exec drv dsn w sql args = (r, w')"
  shows "sp_base sp w' = sp_base sp w \<and>
    (\<forall>x. r = Inr x \<longrightarrow> sp_intx sp w' \<and> sp_sem sp (sp_view sp w) sql args = (x, sp_view sp w'))"
  using assms by (auto simp: sqlite_tx_laws_def law_Exec_in_def)

lemma tx_laws_Exec_out:
  assumes "sqlite_tx_laws drv dsn sp" "sp_plain sp sql" "\<not> sp_intx sp w"
    "drv_Exec drv dsn w sql args = (r, w')"
  shows "\<not> sp_intx sp w' \<and>
    (case r of Inl _ \<Rightarrow> sp_base sp w' = sp_base sp w
     | Inr x \<Rightarrow> sp_sem sp (sp_base sp w) sql args = (x, sp_base sp w'))"
  using assms by (auto simp: sqlite_tx_laws_def law_Exec_out_def)

lemma tx_laws_Commit:
  assumes "sqlite_tx_laws drv dsn sp" "sp_intx sp w" "drv_Commit drv dsn w = (e, w')"
  shows "\<not> sp_intx sp w' \<and> sp_base sp w' = (if e = None then sp_view sp w else sp_base sp w)"
  using assms by (auto simp: sqlite_tx_laws_def law_Commit_def)

lemma tx_laws_Rollback:
  assumes "sqlite_tx_laws drv dsn sp" "drv_Rollback drv dsn w = (e, w')"
  shows "\<not> sp_intx sp w' \<and> sp_base sp w' = sp_base sp w"
  using assms by (auto simp: sqlite_tx_laws_def law_Rollback_def)

lemmas tx_laws = tx_laws_Connect tx_laws_Begin tx_laws_Exec_in tx_laws_Exec_out
  tx_laws_Commit tx_laws_Rollback

end
