(* ===== verification/Sample_Driver.thy ===== *)
theory Sample_Driver
  imports Host
begin

text \<open>
  A concrete SQLite driver, small enough to evaluate: the database is the list of the
  statements it has applied, the text \<open>FAIL\<close> is refused, a text that starts with \<open>SELECT\<close>
  or \<open>PRAGMA\<close> is read-only. It satisfies \<open>sqlite_tx_laws\<close> and \<open>sqlite_read_laws\<close>, and
  the examples of the other theories put it for the driver parameter.
\<close>

record sample =
  sm_base :: "string list"
  sm_view :: "string list"
  sm_tx :: bool

definition sample_world :: "string list \<Rightarrow> sample world" where
  "sample_world v =
     \<lparr>files = Map.empty, conns = \<lparr>sm_base = v, sm_view = v, sm_tx = False\<rparr>\<rparr>"

definition sample_result :: "string list \<Rightarrow> sqlResult" where
  "sample_result v =
     \<lparr>res_RowsAffected = (1, None), res_LastInsertId = (of_nat (Suc (length v)), None)\<rparr>"

definition sample_exec ::
  "string \<Rightarrow> sample world \<Rightarrow> string \<Rightarrow> NamedArg list \<Rightarrow> (goerr + sqlResult) \<times> sample world" where
  "sample_exec dsn w sql args =
     (let c = conns w in
      if sql = ''FAIL'' then (Inl (ErrMsg ''refused''), w)
      else if sm_tx c then
        (Inr (sample_result (sm_view c)), w\<lparr>conns := c\<lparr>sm_view := sm_view c @ [sql]\<rparr>\<rparr>)
      else
        (Inr (sample_result (sm_base c)), w\<lparr>conns := c\<lparr>sm_base := sm_base c @ [sql]\<rparr>\<rparr>))"

definition sample_rows :: "string list \<Rightarrow> sqlRows" where
  "sample_rows v =
     \<lparr>rows_ColumnTypes = Inr [''TEXT''], rows_Columns = Inr [''stmt''],
      rows_Scan = map (\<lambda>s. Inr [GString s]) v, rows_Err = None\<rparr>"

definition sample_driver :: "sample driver" where
  "sample_driver =
     \<lparr>drv_Open = (\<lambda>_. None),
      drv_Connect = (\<lambda>_ w. (None, w)),
      drv_Close = (\<lambda>_ w. (None, w)),
      drv_Begin = (\<lambda>_ w. (None, w\<lparr>conns := (conns w)\<lparr>sm_view := sm_base (conns w), sm_tx := True\<rparr>\<rparr>)),
      drv_Commit = (\<lambda>_ w. (None, w\<lparr>conns := (conns w)\<lparr>sm_base := sm_view (conns w), sm_tx := False\<rparr>\<rparr>)),
      drv_Rollback = (\<lambda>_ w. (None, w\<lparr>conns := (conns w)\<lparr>sm_tx := False\<rparr>\<rparr>)),
      drv_Exec = sample_exec,
      drv_Readonly = (\<lambda>_ w sql. Inr (HasPrefix sql ''SELECT'' \<or> HasPrefix sql ''PRAGMA'')),
      drv_Query = (\<lambda>_ w sql args. (Inr (sample_rows (sm_base (conns w))), w)),
      drv_Backup = (\<lambda>_ _ w. (None, w)),
      drv_BackupStep = (\<lambda>_ _ w. (Inr True, w)),
      drv_BackupFinish = (\<lambda>_ _ w. (None, w))\<rparr>"

definition sample_spec :: "(sample, string list) sqlspec" where
  "sample_spec =
     \<lparr>sp_base = (\<lambda>w. sm_base (conns w)), sp_view = (\<lambda>w. sm_view (conns w)),
      sp_intx = (\<lambda>w. sm_tx (conns w)), sp_plain = (\<lambda>sql. True),
      sp_sem = (\<lambda>v sql args. (sample_result v, v @ [sql]))\<rparr>"

text \<open>The same driver with the commit of a transaction that wrote nothing as a no-op.\<close>

definition sample_reader :: "sample driver" where
  "sample_reader =
     sample_driver\<lparr>drv_Commit := (\<lambda>_ w. (None, w\<lparr>conns := (conns w)\<lparr>sm_tx := False\<rparr>\<rparr>))\<rparr>"

lemma sample_tx_laws: "sqlite_tx_laws sample_driver dsn sample_spec"
  by (auto simp: sqlite_tx_laws_def law_Connect_def law_Begin_def law_Exec_in_def law_Exec_out_def
      law_Commit_def law_Rollback_def sample_driver_def sample_spec_def sample_exec_def Let_def
      split: if_splits)

lemma sample_read_laws: "sqlite_read_laws sample_reader dsn (\<lambda>w. sm_base (conns w))"
  by (simp add: sqlite_read_laws_def sample_reader_def sample_driver_def)

end
