(* ===== verification/Engine.thy ===== *)
theory Engine
  imports Host Sample_Driver
begin

text \<open>
  Package \<open>engine\<close> (\<^verbatim>\<open>engine/engine.go\<close>): the SQLite store of one node. \<open>Open\<close> keeps a
  writing and a read-only handle; \<open>Exec\<close> runs the statements of a request on the first,
  \<open>Query\<close> on the second; the conversions between protobuf parameters and SQL values,
  the backup loop and the size queries follow.

  Shown here: a request that asks for a transaction is applied in full or not at all; a
  request without one applies its statements one by one and reports each; \<open>Query\<close>
  leaves the database as it was; every statement that is not empty gets exactly one
  result, in order; the conversions keep names, order and values, and where they panic.
\<close>

section \<open>The engine\<close>

record Engine =
  eng_readDB :: sqlDB
  eng_writeDB :: sqlDB
  eng_readOnly :: bool
  eng_isMem :: bool
  eng_path :: string

definition sql_Open :: "'c driver \<Rightarrow> string \<Rightarrow> goerr + sqlDB" where
  "sql_Open drv dsn =
     (case drv_Open drv dsn of Some e \<Rightarrow> Inl e | None \<Rightarrow> Inr \<lparr>db_dsn = dsn, db_closed = False\<rparr>)"

definition Open :: "'c driver \<Rightarrow> string \<Rightarrow> 'c world \<Rightarrow> (goerr + Engine) \<times> 'c world" where
  "Open drv path w =
     (case sql_Open drv (''file:'' @ path) of
        Inl err \<Rightarrow> (Inl err, w)
      | Inr writeDB \<Rightarrow>
     (case sql_Open drv (''file:'' @ path @ ''?mode=ro'') of
        Inl err \<Rightarrow> (Inl err, w)
      | Inr readDB \<Rightarrow>
     (case DB_Conn drv writeDB w of
        (Some err, w') \<Rightarrow> (Inl (ErrMsg (''failed database ping: '' @ err_text err)), w')
      | (None, w') \<Rightarrow>
          (Inr \<lparr>eng_readDB = readDB, eng_writeDB = writeDB, eng_readOnly = False,
                eng_isMem = False, eng_path = path\<rparr>, w'))))"

definition genRandomChars :: string where
  "genRandomChars = ''abcdedfghijklmnopqrstABCDEFGHIJKLMNOP''"

text \<open>\<open>rand.Intn(n)\<close> at call \<open>i\<close> is \<open>rnd i mod n\<close>, for any source \<open>rnd\<close>.\<close>

definition genRandomString :: "(nat \<Rightarrow> nat) \<Rightarrow> string" where
  "genRandomString rnd =
     map (\<lambda>i. genRandomChars ! (rnd i mod length genRandomChars)) [0..<20]"

definition OpenMemory ::
  "'c driver \<Rightarrow> (nat \<Rightarrow> nat) \<Rightarrow> 'c world \<Rightarrow> (goerr + Engine) \<times> 'c world" where
  "OpenMemory drv rnd w =
     (let memPath = ''file:/'' @ genRandomString rnd in
      case sql_Open drv (memPath @ ''?mode=rw&vfs=memdb&_txlock=immediate'') of
        Inl err \<Rightarrow> (Inl err, w)
      | Inr rwDB \<Rightarrow>
     (case sql_Open drv (memPath @ ''?mode=ro&vfs=memdb&_txlock=deferred'') of
        Inl err \<Rightarrow> (Inl err, w)
      | Inr roDB \<Rightarrow>
     (case DB_Conn drv rwDB w of
        (Some err, w') \<Rightarrow> (Inl (ErrMsg (''failed to ping in-memory database: '' @ err_text err)), w')
      | (None, w') \<Rightarrow>
          (Inr \<lparr>eng_readDB = roDB, eng_writeDB = rwDB, eng_readOnly = False,
                eng_isMem = True, eng_path = '':memory:''\<rparr>, w'))))"

definition Path :: "Engine \<Rightarrow> string" where
  "Path eng = eng_path eng"

definition IsMem :: "Engine \<Rightarrow> bool" where
  "IsMem eng \<longleftrightarrow> eng_isMem eng"

definition IsReadOnly :: "Engine \<Rightarrow> bool" where
  "IsReadOnly eng \<longleftrightarrow> eng_readOnly eng"

definition Engine_Close ::
  "'c driver \<Rightarrow> Engine \<Rightarrow> 'c world \<Rightarrow> goerr option \<times> Engine \<times> 'c world" where
  "Engine_Close drv eng w =
     (case DB_Close drv (eng_readDB eng) w of
        (Some err, rdb, w1) \<Rightarrow> (Some err, eng\<lparr>eng_readDB := rdb\<rparr>, w1)
      | (None, rdb, w1) \<Rightarrow>
          (case DB_Close drv (eng_writeDB eng) w1 of
            (e, wdb, w2) \<Rightarrow> (e, eng\<lparr>eng_readDB := rdb, eng_writeDB := wdb\<rparr>, w2)))"

section \<open>Parameters into SQL\<close>

fun convertParamsToSQL :: "Parameter option list \<Rightarrow> goerr + NamedArg list" where
  "convertParamsToSQL [] = Inr []"
| "convertParamsToSQL (p # ps) =
     (case GetValue p of
        None \<Rightarrow> Inl (ErrMsg ''unsupported type: <nil>'')
      | Some v \<Rightarrow>
          (case convertParamsToSQL ps of
            Inl e \<Rightarrow> Inl e
          | Inr vs \<Rightarrow> Inr (\<lparr>arg_Name = GetName p, arg_Value = v\<rparr> # vs)))"

section \<open>Exec\<close>

text \<open>
  One statement of \<open>Exec\<close>'s loop: the result as far as it is filled, and the error the
  loop hands to \<open>errorHandler\<close>.
\<close>

definition exec_stmt ::
  "'c driver \<Rightarrow> string \<Rightarrow> sqlTx option \<Rightarrow> 'c world \<Rightarrow> Statement \<Rightarrow>
     (ExecRes \<times> goerr option) \<times> 'c world" where
  "exec_stmt drv dsn runner w stmt =
     (case convertParamsToSQL (stmt_Params stmt) of
        Inl err \<Rightarrow> ((new_ExecRes, Some err), w)
      | Inr sqlParams \<Rightarrow>
     (case runner_Exec drv dsn runner w (stmt_Sql stmt) sqlParams of
        (Inl err, w') \<Rightarrow> ((new_ExecRes, Some err), w')
      | (Inr sqlRes, w') \<Rightarrow>
     (case res_RowsAffected sqlRes of
        (n, Some err) \<Rightarrow> ((new_ExecRes\<lparr>eres_RowsAffected := n\<rparr>, Some err), w')
      | (n, None) \<Rightarrow>
     (case res_LastInsertId sqlRes of
        (i, err) \<Rightarrow>
          ((new_ExecRes\<lparr>eres_RowsAffected := n, eres_LastInsertId := i\<rparr>, err), w')))))"

text \<open>
  The loop over \<open>req.Statements\<close>. \<open>errorHandler\<close> records the error; with a transaction it
  rolls back, sets \<open>transaction\<close> to nil and the loop breaks, without one it goes on.
\<close>

fun exec_loop ::
  "'c driver \<Rightarrow> string \<Rightarrow> sqlTx option \<Rightarrow> 'c world \<Rightarrow> Statement list \<Rightarrow> ExecRes list \<Rightarrow>
     sqlTx option \<times> 'c world \<times> ExecRes list" where
  "exec_loop drv dsn tx w [] results = (tx, w, results)"
| "exec_loop drv dsn tx w (stmt # stmts) results =
     (if stmt_Sql stmt = '''' then exec_loop drv dsn tx w stmts results
      else (case exec_stmt drv dsn tx w stmt of
        ((res, None), w') \<Rightarrow> exec_loop drv dsn tx w' stmts (results @ [res])
      | ((res, Some err), w') \<Rightarrow>
          (let results' = results @ [res\<lparr>eres_Error := err_text err\<rparr>] in
           case tx of
             Some t \<Rightarrow> (case Tx_Rollback drv dsn t w' of (_, _, w'') \<Rightarrow> (None, w'', results'))
           | None \<Rightarrow> exec_loop drv dsn None w' stmts results')))"

text \<open>
  After the loop a transaction that is still set is committed; the deferred \<open>Rollback\<close>
  then finds it done.
\<close>

definition exec_finish ::
  "'c driver \<Rightarrow> string \<Rightarrow> sqlTx option \<times> 'c world \<times> ExecRes list \<Rightarrow>
     (ExecRes list option \<times> goerr option) \<times> 'c world" where
  "exec_finish drv dsn r =
     (case r of
        (None, w, results) \<Rightarrow> ((Some results, None), w)
      | (Some t, w, results) \<Rightarrow>
          (case Tx_Commit drv dsn t w of
            (err, t', w') \<Rightarrow>
              (case Tx_Rollback drv dsn t' w' of (_, _, w'') \<Rightarrow> ((Some results, err), w''))))"

definition Engine_Exec ::
  "'c driver \<Rightarrow> Engine \<Rightarrow> Request \<Rightarrow> 'c world \<Rightarrow>
     (ExecRes list option \<times> goerr option) \<times> 'c world" where
  "Engine_Exec drv eng req w =
     (case DB_Conn drv (eng_writeDB eng) w of
        (Some err, w1) \<Rightarrow> ((None, Some err), w1)
      | (None, w1) \<Rightarrow>
          (let dsn = db_dsn (eng_writeDB eng) in
           if req_Transaction req then
             (case drv_Begin drv dsn w1 of
                (Some err, w2) \<Rightarrow> ((None, Some err), w2)
              | (None, w2) \<Rightarrow>
                  exec_finish drv dsn
                    (exec_loop drv dsn (Some \<lparr>tx_done = False\<rparr>) w2 (req_Statements req) []))
           else exec_finish drv dsn (exec_loop drv dsn None w1 (req_Statements req) [])))"

definition ExecString ::
  "'c driver \<Rightarrow> Engine \<Rightarrow> string \<Rightarrow> 'c world \<Rightarrow>
     (ExecRes list option \<times> goerr option) \<times> 'c world" where
  "ExecString drv eng str w =
     Engine_Exec drv eng
       \<lparr>req_Transaction = False, req_Statements = [\<lparr>stmt_Sql = str, stmt_Params = []\<rparr>]\<rparr> w"

section \<open>SQL values into parameters\<close>

definition isStringType :: "string \<Rightarrow> bool" where
  "isStringType t \<longleftrightarrow>
     t = ''text'' \<or> t = ''json'' \<or> t = '''' \<or>
     HasPrefix t ''varchar'' \<or> HasPrefix t ''varying character'' \<or>
     HasPrefix t ''nchar'' \<or> HasPrefix t ''native character'' \<or>
     HasPrefix t ''nvarchar'' \<or> HasPrefix t ''clob''"

definition new_Parameter :: "Parameter_Value \<Rightarrow> Parameter" where
  "new_Parameter v = \<lparr>param_Value = Some v, param_Name = ''''\<rparr>"

text \<open>\<open>values[i] = p\<close>\<close>

definition set_index :: "'a list \<Rightarrow> nat \<Rightarrow> 'a \<Rightarrow> 'a list go" where
  "set_index xs i x =
     (if i < length xs then Ret (xs[i := x]) else Panic ''runtime error: index out of range'')"

text \<open>
  One step of \<open>convertToProto\<close>'s loop. A \<open>[]byte\<close> in a column of a string type is stored
  through \<open>values[i].Value\<close>, which dereferences the nil pointer \<open>values[i]\<close>.
\<close>

definition convert_cell ::
  "string list \<Rightarrow> nat \<Rightarrow> gval \<Rightarrow> Parameter option list \<Rightarrow> (goerr + Parameter option list) go" where
  "convert_cell types i v values =
     (let put = (\<lambda>p. go_bind (set_index values i (Some (new_Parameter p))) (\<lambda>vs. Ret (Inr vs))) in
      case v of
        GInt _ \<Rightarrow> Ret (Inr values)
      | GInt64 n \<Rightarrow> put (Parameter_I n)
      | GFloat64 d \<Rightarrow> put (Parameter_D d)
      | GBool b \<Rightarrow> put (Parameter_B b)
      | GString s \<Rightarrow> put (Parameter_S s)
      | GBytes b \<Rightarrow>
          go_bind (go_index types i) (\<lambda>t.
            if isStringType t then
              go_bind (go_index values i) (\<lambda>p.
                case p of
                  None \<Rightarrow> Panic ''invalid memory address or nil pointer dereference''
                | Some q \<Rightarrow>
                    go_bind
                      (set_index values i
                        (Some (q\<lparr>param_Value := Some (Parameter_S (string_of_bytes b))\<rparr>)))
                      (\<lambda>vs. Ret (Inr vs)))
            else put (Parameter_Y b))
      | GTime m \<Rightarrow>
          (case m of
            Inl err \<Rightarrow> Ret (Inl err)
          | Inr rfc3339 \<Rightarrow> put (Parameter_S rfc3339))
      | GNil \<Rightarrow> Ret (Inr values)
      | GOther ty txt \<Rightarrow> Ret (Inl (ErrMsg (''unhandled column type: '' @ ty @ '' '' @ txt))))"

fun convert_loop ::
  "string list \<Rightarrow> nat \<Rightarrow> gval list \<Rightarrow> Parameter option list \<Rightarrow>
     (goerr + Parameter option list) go" where
  "convert_loop types i [] values = Ret (Inr values)"
| "convert_loop types i (v # row) values =
     go_bind (convert_cell types i v values) (\<lambda>r.
       case r of
         Inl err \<Rightarrow> Ret (Inl err)
       | Inr values' \<Rightarrow> convert_loop types (Suc i) row values')"

definition convertToProto ::
  "string list \<Rightarrow> gval list \<Rightarrow> (goerr + Parameter option list) go" where
  "convertToProto types row = convert_loop types 0 row (replicate (length types) None)"

section \<open>Query\<close>

text \<open>The loop \<open>for r.Next()\<close>: an error of \<open>Scan\<close> or of the conversion leaves \<open>Query\<close>.\<close>

fun scan_rows ::
  "string list \<Rightarrow> (goerr + gval list) list \<Rightarrow> Values option list \<Rightarrow>
     (goerr + Values option list) go" where
  "scan_rows types [] vals = Ret (Inr vals)"
| "scan_rows types (Inl err # rows) vals = Ret (Inl err)"
| "scan_rows types (Inr dest # rows) vals =
     go_bind (convertToProto types dest) (\<lambda>r.
       case r of
         Inl err \<Rightarrow> Ret (Inl err)
       | Inr prs \<Rightarrow> scan_rows types rows (vals @ [Some \<lparr>vals_Params = Some prs\<rparr>]))"

text \<open>What one statement of \<open>Query\<close>'s loop does: a result, a return with an error, a panic.\<close>

datatype qstep = QResult QueryRes | QReturn goerr | QPanic string

definition query_rows :: "sqlRows \<Rightarrow> qstep" where
  "query_rows r =
     (case rows_ColumnTypes r of
        Inl err \<Rightarrow> QResult (new_QueryRes\<lparr>qres_Error := err_text err\<rparr>)
      | Inr types \<Rightarrow>
     (let formattedTypes = map ToLower types in
      case rows_Columns r of
        Inl err \<Rightarrow> QResult (new_QueryRes\<lparr>qres_Error := err_text err\<rparr>)
      | Inr cols \<Rightarrow>
     (case scan_rows formattedTypes (rows_Scan r) [] of
        Panic s \<Rightarrow> QPanic s
      | Ret (Inl err) \<Rightarrow> QReturn err
      | Ret (Inr vals) \<Rightarrow>
     (case rows_Err r of
        Some err \<Rightarrow> QResult (new_QueryRes\<lparr>qres_Values := vals, qres_Error := err_text err\<rparr>)
      | None \<Rightarrow>
          QResult (new_QueryRes\<lparr>qres_Values := vals, qres_Columns := cols,
                                qres_Types := formattedTypes\<rparr>)))))"

definition query_stmt ::
  "'c driver \<Rightarrow> string \<Rightarrow> sqlTx option \<Rightarrow> 'c world \<Rightarrow> Statement \<Rightarrow> qstep \<times> 'c world" where
  "query_stmt drv dsn runner w q =
     (case drv_Readonly drv dsn w (stmt_Sql q) of
        Inl err \<Rightarrow> (QResult (new_QueryRes\<lparr>qres_Error := err_text err\<rparr>), w)
      | Inr readOnly \<Rightarrow>
          if \<not> readOnly then
            (QResult (new_QueryRes\<lparr>qres_Error := ''tried to change the database in a query operation''\<rparr>), w)
          else (case convertParamsToSQL (stmt_Params q) of
            Inl err \<Rightarrow> (QResult (new_QueryRes\<lparr>qres_Error := err_text err\<rparr>), w)
          | Inr params \<Rightarrow>
              (case runner_Query drv dsn runner w (stmt_Sql q) params of
                (Inl err, w') \<Rightarrow> (QResult (new_QueryRes\<lparr>qres_Error := err_text err\<rparr>), w')
              | (Inr r, w') \<Rightarrow> (query_rows r, w'))))"

fun query_loop ::
  "'c driver \<Rightarrow> string \<Rightarrow> sqlTx option \<Rightarrow> 'c world \<Rightarrow> Statement list \<Rightarrow> QueryRes list \<Rightarrow>
     (goerr + QueryRes list) go \<times> 'c world" where
  "query_loop drv dsn tx w [] results = (Ret (Inr results), w)"
| "query_loop drv dsn tx w (q # qs) results =
     (if stmt_Sql q = '''' then query_loop drv dsn tx w qs results
      else (case query_stmt drv dsn tx w q of
        (QResult res, w') \<Rightarrow> query_loop drv dsn tx w' qs (results @ [res])
      | (QReturn err, w') \<Rightarrow> (Ret (Inl err), w')
      | (QPanic s, w') \<Rightarrow> (Panic s, w')))"

text \<open>
  \<open>defer transaction.Rollback()\<close> runs on every way out of \<open>Query\<close>: a return, an early
  return and a panic.
\<close>

definition query_finish ::
  "'c driver \<Rightarrow> string \<Rightarrow> sqlTx option \<Rightarrow> (goerr + QueryRes list) go \<times> 'c world \<Rightarrow>
     (QueryRes list option \<times> goerr option) go \<times> 'c world" where
  "query_finish drv dsn tx r =
     (case tx of
        None \<Rightarrow>
          (case r of
            (Panic s, w) \<Rightarrow> (Panic s, w)
          | (Ret (Inl err), w) \<Rightarrow> (Ret (None, Some err), w)
          | (Ret (Inr results), w) \<Rightarrow> (Ret (Some results, None), w))
      | Some t \<Rightarrow>
          (case r of
            (Panic s, w) \<Rightarrow> (Panic s, snd (snd (Tx_Rollback drv dsn t w)))
          | (Ret (Inl err), w) \<Rightarrow> (Ret (None, Some err), snd (snd (Tx_Rollback drv dsn t w)))
          | (Ret (Inr results), w) \<Rightarrow>
              (case Tx_Commit drv dsn t w of
                (err, t', w') \<Rightarrow>
                  (Ret (Some results, err), snd (snd (Tx_Rollback drv dsn t' w'))))))"

definition Engine_Query ::
  "'c driver \<Rightarrow> Engine \<Rightarrow> Request \<Rightarrow> 'c world \<Rightarrow>
     (QueryRes list option \<times> goerr option) go \<times> 'c world" where
  "Engine_Query drv eng req w =
     (case DB_Conn drv (eng_readDB eng) w of
        (Some err, w1) \<Rightarrow> (Ret (None, Some err), w1)
      | (None, w1) \<Rightarrow>
          (let dsn = db_dsn (eng_readDB eng) in
           if req_Transaction req then
             (case drv_Begin drv dsn w1 of
                (Some err, w2) \<Rightarrow> (Ret (None, Some err), w2)
              | (None, w2) \<Rightarrow>
                  (let tx = Some \<lparr>tx_done = False\<rparr> in
                   query_finish drv dsn tx (query_loop drv dsn tx w2 (req_Statements req) [])))
           else query_finish drv dsn None (query_loop drv dsn None w1 (req_Statements req) [])))"

definition QueryString ::
  "'c driver \<Rightarrow> Engine \<Rightarrow> string \<Rightarrow> 'c world \<Rightarrow>
     (QueryRes list option \<times> goerr option) go \<times> 'c world" where
  "QueryString drv eng query w =
     Engine_Query drv eng
       \<lparr>req_Transaction = False, req_Statements = [\<lparr>stmt_Sql = query, stmt_Params = []\<rparr>]\<rparr> w"


section \<open>Sizes, metrics, serialization, backup\<close>

definition FileSize ::
  "'c fault \<Rightarrow> (string \<Rightarrow> int64) \<Rightarrow> Engine \<Rightarrow> 'c world \<Rightarrow> int64 \<times> goerr option" where
  "FileSize flt dirsize eng w =
     (if eng_isMem eng then (0, None)
      else (case os_Stat_size flt dirsize (eng_path eng) w of
        Inl err \<Rightarrow> (0, Some err)
      | Inr n \<Rightarrow> (n, None)))"

text \<open>\<open>rows[0].Values[0].Params[0].GetI()\<close>\<close>

definition first_int :: "QueryRes list option \<Rightarrow> int64 go" where
  "first_int rows =
     go_bind (go_index (case rows of None \<Rightarrow> [] | Some rs \<Rightarrow> rs) 0) (\<lambda>row.
     go_bind (go_index (qres_Values row) 0) (\<lambda>vals.
     case vals of
       None \<Rightarrow> Panic ''invalid memory address or nil pointer dereference''
     | Some v \<Rightarrow>
         go_bind (go_index (case vals_Params v of None \<Rightarrow> [] | Some ps \<Rightarrow> ps) 0) (\<lambda>p.
         Ret (GetI p))))"

definition size_query :: string where
  "size_query = ''SELECT page_count * page_size as size FROM pragma_page_count(), pragma_page_size()''"

definition Size ::
  "'c driver \<Rightarrow> Engine \<Rightarrow> 'c world \<Rightarrow> (int64 \<times> goerr option) go \<times> 'c world" where
  "Size drv eng w =
     (case QueryString drv eng size_query w of
        (Panic s, w') \<Rightarrow> (Panic s, w')
      | (Ret (_, Some err), w') \<Rightarrow> (Ret (0, Some err), w')
      | (Ret (rows, None), w') \<Rightarrow> (go_bind (first_int rows) (\<lambda>n. Ret (n, None)), w'))"

definition Serialize :: "'c fault \<Rightarrow> Engine \<Rightarrow> 'c world \<Rightarrow> bytes option \<times> goerr option" where
  "Serialize flt eng w =
     (if eng_isMem eng then (None, Some (ErrMsg ''in-memory database cannot be serialized''))
      else os_ReadFile flt (eng_path eng) w)"

text \<open>
  The backup loop: \<open>Step(-1)\<close> until it is done, sleeping between attempts; not
  returning is \<open>None\<close>.
\<close>

partial_function (option) copy_steps ::
  "'c driver \<Rightarrow> string \<Rightarrow> string \<Rightarrow> 'c world \<Rightarrow> (goerr option \<times> 'c world) option" where
  "copy_steps drv dst src w =
     (case drv_BackupStep drv dst src w of
        (Inl err, w1) \<Rightarrow>
          (case drv_BackupFinish drv dst src w1 of
            (Some err2, w2) \<Rightarrow> Some (Some err2, w2)
          | (None, w2) \<Rightarrow> Some (Some err, w2))
      | (Inr finished, w1) \<Rightarrow>
          if finished then Some (drv_BackupFinish drv dst src w1)
          else copy_steps drv dst src w1)"

definition copyConnection ::
  "'c driver \<Rightarrow> string \<Rightarrow> string \<Rightarrow> 'c world \<Rightarrow> (goerr option \<times> 'c world) option" where
  "copyConnection drv dst src w =
     (case drv_Backup drv dst src w of
        (Some err, w1) \<Rightarrow> Some (Some err, w1)
      | (None, w1) \<Rightarrow> copy_steps drv dst src w1)"

definition copyEngine ::
  "'c driver \<Rightarrow> Engine \<Rightarrow> Engine \<Rightarrow> 'c world \<Rightarrow> (goerr option \<times> 'c world) option" where
  "copyEngine drv dst src w =
     (case DB_Conn drv (eng_writeDB dst) w of
        (Some err, w1) \<Rightarrow> Some (Some err, w1)
      | (None, w1) \<Rightarrow>
     (case DB_Conn drv (eng_writeDB src) w1 of
        (Some err, w2) \<Rightarrow> Some (Some err, w2)
      | (None, w2) \<Rightarrow>
          copyConnection drv (db_dsn (eng_writeDB dst)) (db_dsn (eng_writeDB src)) w2))"

definition Engine_Copy ::
  "'c driver \<Rightarrow> Engine \<Rightarrow> Engine \<Rightarrow> 'c world \<Rightarrow> (goerr option \<times> 'c world) option" where
  "Engine_Copy drv eng dst w = copyEngine drv dst eng w"

definition Backup ::
  "'c driver \<Rightarrow> Engine \<Rightarrow> string \<Rightarrow> 'c world \<Rightarrow> (goerr option \<times> 'c world) option" where
  "Backup drv eng path w =
     (case Open drv path w of
        (Inl err, w1) \<Rightarrow> Some (Some err, w1)
      | (Inr dstDB, w1) \<Rightarrow>
          map_option
            (\<lambda>(e, w2). (if e = None then None else Some (ErrMsg ''copying database failed''), w2))
            (copyEngine drv dstDB eng w1))"

definition metric_pragmas :: "string list" where
  "metric_pragmas =
     [''max_page_count'', ''page_count'', ''page_size'', ''hard_heap_limit'',
      ''soft_heap_limit'', ''cache_size'', ''freelist_count'']"

fun metric_loop ::
  "'c driver \<Rightarrow> Engine \<Rightarrow> string list \<Rightarrow> (string \<rightharpoonup> int64) \<Rightarrow> 'c world \<Rightarrow>
     (goerr + (string \<rightharpoonup> int64)) go \<times> 'c world" where
  "metric_loop drv eng [] ms w = (Ret (Inr ms), w)"
| "metric_loop drv eng (p # ps) ms w =
     (case QueryString drv eng (''PRAGMA '' @ p) w of
        (Panic s, w') \<Rightarrow> (Panic s, w')
      | (Ret (_, Some err), w') \<Rightarrow> (Ret (Inl err), w')
      | (Ret (res, None), w') \<Rightarrow>
          (case first_int res of
            Panic s \<Rightarrow> (Panic s, w')
          | Ret n \<Rightarrow> metric_loop drv eng ps (ms(p \<mapsto> n)) w'))"

record EngineMetric =
  em_memory_stats :: "string \<rightharpoonup> int64"
  em_size :: int64

definition Metric ::
  "'c driver \<Rightarrow> Engine \<Rightarrow> 'c world \<Rightarrow> (goerr + EngineMetric) go \<times> 'c world" where
  "Metric drv eng w =
     (case metric_loop drv eng metric_pragmas Map.empty w of
        (Panic s, w1) \<Rightarrow> (Panic s, w1)
      | (Ret (Inl err), w1) \<Rightarrow> (Ret (Inl err), w1)
      | (Ret (Inr memData), w1) \<Rightarrow>
          (case Size drv eng w1 of
            (Panic s, w2) \<Rightarrow> (Panic s, w2)
          | (Ret (_, Some err), w2) \<Rightarrow> (Ret (Inl err), w2)
          | (Ret (databaseSize, None), w2) \<Rightarrow>
              (Ret (Inr \<lparr>em_memory_stats = memData, em_size = databaseSize\<rparr>), w2)))"


section \<open>What a request means\<close>

text \<open>What \<open>Exec\<close> reports for a statement that SQLite applied.\<close>

definition report :: "sqlResult \<Rightarrow> ExecRes \<times> goerr option" where
  "report x =
     (case res_RowsAffected x of
        (n, Some err) \<Rightarrow> (new_ExecRes\<lparr>eres_RowsAffected := n\<rparr>, Some err)
      | (n, None) \<Rightarrow>
          (case res_LastInsertId x of
            (i, err) \<Rightarrow> (new_ExecRes\<lparr>eres_RowsAffected := n, eres_LastInsertId := i\<rparr>, err)))"

text \<open>
  The abstract transaction: every statement that is not empty takes effect on the content
  and reports success, or there is no result.
\<close>

fun run_all ::
  "('v \<Rightarrow> string \<Rightarrow> NamedArg list \<Rightarrow> sqlResult \<times> 'v) \<Rightarrow> 'v \<Rightarrow> Statement list \<Rightarrow>
     (ExecRes list \<times> 'v) option" where
  "run_all sem v [] = Some ([], v)"
| "run_all sem v (s # ss) =
     (if stmt_Sql s = '''' then run_all sem v ss
      else (case convertParamsToSQL (stmt_Params s) of
        Inl _ \<Rightarrow> None
      | Inr args \<Rightarrow>
          (case sem v (stmt_Sql s) args of
            (x, v') \<Rightarrow>
              (case report x of
                (r, None) \<Rightarrow> map_option (\<lambda>(rs, v''). (r # rs, v'')) (run_all sem v' ss)
              | (r, Some _) \<Rightarrow> None))))"

text \<open>
  The abstract request without a transaction: each statement that is not empty is applied
  and reported, or refused with its error and without effect.
\<close>

inductive autocommit ::
  "('v \<Rightarrow> string \<Rightarrow> NamedArg list \<Rightarrow> sqlResult \<times> 'v) \<Rightarrow> 'v \<Rightarrow> Statement list \<Rightarrow> ExecRes list \<Rightarrow> 'v \<Rightarrow> bool"
  for sem where
  ac_nil: "autocommit sem v [] [] v"
| ac_empty: "stmt_Sql s = '''' \<Longrightarrow> autocommit sem v ss rs v' \<Longrightarrow> autocommit sem v (s # ss) rs v'"
| ac_applied:
    "stmt_Sql s \<noteq> '''' \<Longrightarrow> convertParamsToSQL (stmt_Params s) = Inr args \<Longrightarrow>
     sem v (stmt_Sql s) args = (x, v1) \<Longrightarrow> report x = (r, e) \<Longrightarrow> autocommit sem v1 ss rs v' \<Longrightarrow>
     autocommit sem v (s # ss)
       ((case e of None \<Rightarrow> r | Some err \<Rightarrow> r\<lparr>eres_Error := err_text err\<rparr>) # rs) v'"
| ac_refused:
    "stmt_Sql s \<noteq> '''' \<Longrightarrow> autocommit sem v ss rs v' \<Longrightarrow>
     autocommit sem v (s # ss) (new_ExecRes\<lparr>eres_Error := err_text err\<rparr> # rs) v'"

inductive_cases autocommit_NilE [elim!]: "autocommit sem v [] rs v'"
inductive_cases autocommit_ConsE: "autocommit sem v (s # ss) rs v'"

abbreviation nonempty :: "Statement list \<Rightarrow> Statement list" where
  "nonempty ss \<equiv> filter (\<lambda>s. stmt_Sql s \<noteq> '''') ss"

text \<open>
  What \<open>convertToProto\<close> makes of a row, cell by cell from the left, without the slice it
  fills: the first cell that fails or panics decides.
\<close>

fun cell_value :: "string \<Rightarrow> gval \<Rightarrow> (goerr + Parameter option) go" where
  "cell_value t (GInt n) = Ret (Inr None)"
| "cell_value t (GInt64 n) = Ret (Inr (Some (new_Parameter (Parameter_I n))))"
| "cell_value t (GFloat64 d) = Ret (Inr (Some (new_Parameter (Parameter_D d))))"
| "cell_value t (GBool b) = Ret (Inr (Some (new_Parameter (Parameter_B b))))"
| "cell_value t (GString s) = Ret (Inr (Some (new_Parameter (Parameter_S s))))"
| "cell_value t (GBytes b) =
     (if isStringType t then Panic ''invalid memory address or nil pointer dereference''
      else Ret (Inr (Some (new_Parameter (Parameter_Y b)))))"
| "cell_value t (GTime (Inl err)) = Ret (Inl err)"
| "cell_value t (GTime (Inr s)) = Ret (Inr (Some (new_Parameter (Parameter_S s))))"
| "cell_value t GNil = Ret (Inr None)"
| "cell_value t (GOther ty txt) = Ret (Inl (ErrMsg (''unhandled column type: '' @ ty @ '' '' @ txt)))"

fun row_values :: "(string \<times> gval) list \<Rightarrow> (goerr + Parameter option list) go" where
  "row_values [] = Ret (Inr [])"
| "row_values ((t, v) # cells) =
     go_bind (cell_value t v) (\<lambda>c.
       case c of
         Inl err \<Rightarrow> Ret (Inl err)
       | Inr p \<Rightarrow>
           go_bind (row_values cells) (\<lambda>r.
             case r of Inl err \<Rightarrow> Ret (Inl err) | Inr ps \<Rightarrow> Ret (Inr (p # ps))))"

text \<open>The world after \<open>k\<close> steps of a backup that were not the last one.\<close>

fun busy_steps ::
  "'c driver \<Rightarrow> string \<Rightarrow> string \<Rightarrow> nat \<Rightarrow> 'c world \<Rightarrow> 'c world option" where
  "busy_steps drv dst src 0 w = Some w"
| "busy_steps drv dst src (Suc k) w =
     (case drv_BackupStep drv dst src w of
        (Inr False, w1) \<Rightarrow> busy_steps drv dst src k w1
      | _ \<Rightarrow> None)"

text \<open>An engine and requests to run it on, for the examples.\<close>

definition sample_engine :: Engine where
  "sample_engine =
     \<lparr>eng_readDB = \<lparr>db_dsn = ''file:a?mode=ro'', db_closed = False\<rparr>,
      eng_writeDB = \<lparr>db_dsn = ''file:a'', db_closed = False\<rparr>,
      eng_readOnly = False, eng_isMem = False, eng_path = ''a''\<rparr>"

definition sample_request :: "bool \<Rightarrow> string list \<Rightarrow> Request" where
  "sample_request tx sqls =
     \<lparr>req_Transaction = tx, req_Statements = map (\<lambda>s. \<lparr>stmt_Sql = s, stmt_Params = []\<rparr>) sqls\<rparr>"

section \<open>Lemmas on Exec\<close>

lemma exec_stmt_report:
  assumes "exec_stmt drv dsn tx w stmt = ((res, e), w')"
  shows "(\<exists>err. convertParamsToSQL (stmt_Params stmt) = Inl err \<and> res = new_ExecRes \<and> e = Some err \<and> w' = w) \<or>
    (\<exists>args r. convertParamsToSQL (stmt_Params stmt) = Inr args \<and>
       runner_Exec drv dsn tx w (stmt_Sql stmt) args = (r, w') \<and>
       (case r of Inl err \<Rightarrow> res = new_ExecRes \<and> e = Some err | Inr x \<Rightarrow> report x = (res, e)))"
  using assms
  by (auto simp: exec_stmt_def report_def split: sum.splits prod.splits option.splits)

lemma exec_stmt_in_tx:
  assumes "sqlite_tx_laws drv dsn sp" "sp_plain sp (stmt_Sql stmt)" "sp_intx sp w"
    and "exec_stmt drv dsn (Some \<lparr>tx_done = False\<rparr>) w stmt = ((res, e), w')"
  shows "sp_base sp w' = sp_base sp w \<and>
    (e = None \<longrightarrow> sp_intx sp w' \<and>
      (\<exists>args x. convertParamsToSQL (stmt_Params stmt) = Inr args \<and>
         sp_sem sp (sp_view sp w) (stmt_Sql stmt) args = (x, sp_view sp w') \<and> report x = (res, None)))"
  using exec_stmt_report [OF assms(4)] tx_laws_Exec_in [OF assms(1-3)]
  by (fastforce split: sum.splits)

lemma exec_stmt_out_tx:
  assumes "sqlite_tx_laws drv dsn sp" "sp_plain sp (stmt_Sql stmt)" "\<not> sp_intx sp w"
    and "exec_stmt drv dsn None w stmt = ((res, e), w')"
  shows "\<not> sp_intx sp w' \<and>
    ((\<exists>err. e = Some err \<and> res = new_ExecRes \<and> sp_base sp w' = sp_base sp w) \<or>
     (\<exists>args x. convertParamsToSQL (stmt_Params stmt) = Inr args \<and>
         sp_sem sp (sp_base sp w) (stmt_Sql stmt) args = (x, sp_base sp w') \<and> report x = (res, e)))"
  using exec_stmt_report [OF assms(4)] tx_laws_Exec_out [OF assms(1-3)] assms(3)
  by (fastforce split: sum.splits)

lemma exec_loop_in_tx:
  assumes "sqlite_tx_laws drv dsn sp"
  shows "\<forall>s \<in> set stmts. stmt_Sql s \<noteq> '''' \<longrightarrow> sp_plain sp (stmt_Sql s) \<Longrightarrow> sp_intx sp w \<Longrightarrow>
    exec_loop drv dsn (Some \<lparr>tx_done = False\<rparr>) w stmts rs = (tx', w', rs') \<Longrightarrow>
    sp_base sp w' = sp_base sp w \<and>
    (case tx' of
       None \<Rightarrow> \<not> sp_intx sp w' \<and> (\<exists>rs2 r err. rs' = rs @ rs2 @ [r\<lparr>eres_Error := err_text err\<rparr>])
     | Some t \<Rightarrow> t = \<lparr>tx_done = False\<rparr> \<and> sp_intx sp w' \<and>
         (\<exists>rs2. run_all (sp_sem sp) (sp_view sp w) stmts = Some (rs2, sp_view sp w') \<and> rs' = rs @ rs2))"
proof (induction stmts arbitrary: w rs)
  case Nil
  then show ?case by auto
next
  case (Cons s ss)
  show ?case
  proof (cases "stmt_Sql s = ''''")
    case True
    with Cons show ?thesis by (auto split: option.splits)
  next
    case False
    obtain res e w1 where st: "exec_stmt drv dsn (Some \<lparr>tx_done = False\<rparr>) w s = ((res, e), w1)"
      by (metis surj_pair)
    note law = exec_stmt_in_tx [OF assms _ Cons.prems(2) st]
    have plain: "sp_plain sp (stmt_Sql s)" using Cons.prems(1) False by simp
    show ?thesis
    proof (cases e)
      case None
      with law [OF plain] obtain args x where
        ok: "sp_base sp w1 = sp_base sp w" "sp_intx sp w1"
            "convertParamsToSQL (stmt_Params s) = Inr args"
            "sp_sem sp (sp_view sp w) (stmt_Sql s) args = (x, sp_view sp w1)" "report x = (res, None)"
        by auto
      have "exec_loop drv dsn (Some \<lparr>tx_done = False\<rparr>) w1 ss (rs @ [res]) = (tx', w', rs')"
        using Cons.prems(3) False None st by simp
      from Cons.IH [OF _ ok(2) this] Cons.prems(1) ok False show ?thesis
        by (fastforce split: option.splits intro: exI [of _ "res # _"])
    next
      case (Some err)
      have base: "sp_base sp w1 = sp_base sp w" using law [OF plain] by simp
      obtain e2 w2 where rb: "drv_Rollback drv dsn w1 = (e2, w2)" by fastforce
      then have "tx' = None" "w' = w2" "rs' = rs @ [] @ [res\<lparr>eres_Error := err_text err\<rparr>]"
        using Cons.prems(3) False Some st by (simp_all add: Tx_Rollback_def)
      with tx_laws_Rollback [OF assms rb] base show ?thesis by simp blast
    qed
  qed
qed

lemma autocommit_step:
  assumes "sqlite_tx_laws drv dsn sp" and "stmt_Sql s \<noteq> ''''" and "sp_plain sp (stmt_Sql s)" and "\<not> sp_intx sp w"
    and "exec_stmt drv dsn None w s = ((res, e), w1)" and "autocommit (sp_sem sp) (sp_base sp w1) ss rs v"
  shows "autocommit (sp_sem sp) (sp_base sp w) (s # ss)
    ((case e of None \<Rightarrow> res | Some err \<Rightarrow> res\<lparr>eres_Error := err_text err\<rparr>) # rs) v"
  using exec_stmt_out_tx [OF assms(1,3-5)]
proof (elim conjE disjE exE)
  fix err assume "e = Some err" "res = new_ExecRes" "sp_base sp w1 = sp_base sp w"
  with ac_refused [OF assms(2), of "sp_sem sp" "sp_base sp w" ss rs v err] assms(6) show ?thesis by simp
next
  fix args x
  assume "convertParamsToSQL (stmt_Params s) = Inr args"
    "sp_sem sp (sp_base sp w) (stmt_Sql s) args = (x, sp_base sp w1)" "report x = (res, e)"
  then show ?thesis using assms(6) by (rule ac_applied [OF assms(2)])
qed

lemma exec_loop_out_tx:
  assumes "sqlite_tx_laws drv dsn sp"
  shows "\<forall>s \<in> set stmts. stmt_Sql s \<noteq> '''' \<longrightarrow> sp_plain sp (stmt_Sql s) \<Longrightarrow> \<not> sp_intx sp w \<Longrightarrow>
    exec_loop drv dsn None w stmts rs = (tx', w', rs') \<Longrightarrow>
    tx' = None \<and> \<not> sp_intx sp w' \<and>
    (\<exists>rs2. autocommit (sp_sem sp) (sp_base sp w) stmts rs2 (sp_base sp w') \<and> rs' = rs @ rs2)"
proof (induction stmts arbitrary: w rs)
  case Nil
  then show ?case by (auto intro: autocommit.intros)
next
  case (Cons s ss)
  show ?case
  proof (cases "stmt_Sql s = ''''")
    case True
    then have "exec_loop drv dsn None w ss rs = (tx', w', rs')"
      using Cons.prems(3) by simp
    with Cons.IH Cons.prems(1,2) obtain rs2 where
      "tx' = None" "\<not> sp_intx sp w'" "rs' = rs @ rs2"
      "autocommit (sp_sem sp) (sp_base sp w) ss rs2 (sp_base sp w')"
      by auto
    with True show ?thesis by (blast intro: autocommit.ac_empty)
  next
    case False
    obtain res e w1 where st: "exec_stmt drv dsn None w s = ((res, e), w1)"
      by (metis surj_pair)
    let ?r = "case e of None \<Rightarrow> res | Some err \<Rightarrow> res\<lparr>eres_Error := err_text err\<rparr>"
    have plain: "sp_plain sp (stmt_Sql s)" using Cons.prems(1) False by simp
    note law = exec_stmt_out_tx [OF assms plain Cons.prems(2) st]
    have "exec_loop drv dsn None w1 ss (rs @ [?r]) = (tx', w', rs')"
      using Cons.prems(3) False st by (simp split: option.splits)
    with law Cons.IH [of w1 "rs @ [?r]"] Cons.prems(1) obtain rs2 where
      rest: "tx' = None" "\<not> sp_intx sp w'" "rs' = rs @ ?r # rs2"
        "autocommit (sp_sem sp) (sp_base sp w1) ss rs2 (sp_base sp w')"
      by auto
    from autocommit_step [OF assms False plain Cons.prems(2) st rest(4)] rest show ?thesis by auto
  qed
qed


lemma exec_finish_None [simp]: "exec_finish drv dsn (None, w, rs) = ((Some rs, None), w)"
  by (simp add: exec_finish_def)

lemma exec_finish_fresh:
  "exec_finish drv dsn (Some \<lparr>tx_done = False\<rparr>, w, rs) =
     (case drv_Commit drv dsn w of (err, w') \<Rightarrow> ((Some rs, err), w'))"
  by (simp add: exec_finish_def Tx_Commit_def split: prod.splits)

lemma exec_loop_count:
  "exec_loop drv dsn tx w stmts rs = (tx', w', rs') \<Longrightarrow>
     length rs \<le> length rs' \<and> length rs' \<le> length rs + length (nonempty stmts) \<and>
     (tx' = tx \<longrightarrow> length rs' = length rs + length (nonempty stmts))"
proof (induction stmts arbitrary: w rs)
  case Nil
  then show ?case by simp
next
  case (Cons s ss)
  show ?case
  proof (cases "stmt_Sql s = ''''")
    case True
    with Cons.IH [of w rs] Cons.prems show ?thesis by simp
  next
    case False
    obtain res e w1 where st: "exec_stmt drv dsn tx w s = ((res, e), w1)" by (metis surj_pair)
    show ?thesis
    proof (cases "e = None \<or> tx = None")
      case True
      then obtain r where "exec_loop drv dsn tx w1 ss (rs @ [r]) = (tx', w', rs')"
        using Cons.prems False st by (auto split: option.splits)
      from Cons.IH [OF this] False show ?thesis by auto
    next
      case halt: False
      with Cons.prems False st show ?thesis
        by (auto split: option.splits prod.splits)
    qed
  qed
qed

lemma exec_loop_None:
  "exec_loop drv dsn None w stmts rs = (tx', w', rs') \<Longrightarrow> tx' = None"
  by (induction stmts arbitrary: w rs) (auto split: if_splits prod.splits option.splits)

section \<open>Properties of Exec\<close>

text \<open>A transaction from its begin to its end.\<close>

lemma exec_tx_atomic:
  assumes "sqlite_tx_laws drv dsn sp" and "\<forall>s \<in> set stmts. stmt_Sql s \<noteq> '''' \<longrightarrow> sp_plain sp (stmt_Sql s)"
    and "sp_intx sp w" and "sp_view sp w = sp_base sp w"
    and "exec_finish drv dsn (exec_loop drv dsn (Some \<lparr>tx_done = False\<rparr>) w stmts []) = ((results, err), w')"
  shows "\<not> sp_intx sp w' \<and>
    (sp_base sp w' = sp_base sp w \<and>
       (err \<noteq> None \<or> (\<exists>rs r e. results = Some (rs @ [r\<lparr>eres_Error := err_text e\<rparr>]))) \<or>
     err = None \<and> (\<exists>rs. results = Some rs \<and> run_all (sp_sem sp) (sp_base sp w) stmts = Some (rs, sp_base sp w')))"
proof -
  obtain tx w3 rs where lp: "exec_loop drv dsn (Some \<lparr>tx_done = False\<rparr>) w stmts [] = (tx, w3, rs)" by (metis surj_pair)
  note loop = exec_loop_in_tx [OF assms(1-3) lp]
  show ?thesis
  proof (cases tx)
    case None
    with assms(4,5) lp loop show ?thesis by auto
  next
    case (Some t)
    with loop assms(4) have t: "t = \<lparr>tx_done = False\<rparr>" "sp_intx sp w3"
      "run_all (sp_sem sp) (sp_base sp w) stmts = Some (rs, sp_view sp w3)" "sp_base sp w3 = sp_base sp w"
      by auto
    obtain e4 w4 where "drv_Commit drv dsn w3 = (e4, w4)" by fastforce
    with assms(5) lp Some t tx_laws_Commit [OF assms(1) t(2)] show ?thesis
      by (auto simp: exec_finish_fresh split: if_splits)
  qed
qed






text \<open>
  \<open>Exec\<close> answers statement by statement: it never returns more results than the request
  has statements with a text, and without a transaction it returns exactly one for each.
\<close>
theorem exec_one_result_per_statement:
  assumes "Engine_Exec drv eng req w = ((Some rs, err), w')"
  shows "length rs \<le> length (nonempty (req_Statements req)) \<and>
    (\<not> req_Transaction req \<longrightarrow> length rs = length (nonempty (req_Statements req)))"
proof -
  let ?dsn = "db_dsn (eng_writeDB eng)"
  obtain tx0 w0 where start: "exec_finish drv ?dsn (exec_loop drv ?dsn tx0 w0 (req_Statements req) []) = ((Some rs, err), w')"
    "\<not> req_Transaction req \<longrightarrow> tx0 = None"
    using assms by (fastforce simp: Engine_Exec_def Let_def split: prod.splits option.splits if_splits)
  obtain tx1 w1 rs1 where lp: "exec_loop drv ?dsn tx0 w0 (req_Statements req) [] = (tx1, w1, rs1)"
    by (metis surj_pair)
  have "rs1 = rs" using start lp by (auto simp: exec_finish_def split: prod.splits option.splits)
  moreover have "tx0 = None \<Longrightarrow> tx1 = None" using lp exec_loop_None by blast
  ultimately show ?thesis using exec_loop_count [OF lp] start(2) by auto
qed


theorem exec_one_result_per_statement_witness:
  "length (the (fst (fst (Engine_Exec sample_driver sample_engine
      (sample_request False [''FAIL'', '''', ''I1'']) (sample_world []))))) = 2"
proof -
  let ?r = "Engine_Exec sample_driver sample_engine (sample_request False [''FAIL'', '''', ''I1''])
              (sample_world [])"
  have "fst (fst ?r) \<noteq> None" by code_simp
  then have "?r = ((Some (the (fst (fst ?r))), snd (fst ?r)), snd ?r)"
    by (metis option.collapse prod.collapse)
  from exec_one_result_per_statement [OF this] show ?thesis by (simp add: sample_request_def)
qed

section \<open>Lemmas on Query\<close>

lemma query_stmt_content:
  assumes "sqlite_read_laws drv dsn content" and "query_stmt drv dsn tx w q = (st, w')"
  shows "content w' = content w"
proof (cases "drv_Readonly drv dsn w (stmt_Sql q) = Inr True")
  case True
  then have "content (snd (drv_Query drv dsn w (stmt_Sql q) args)) = content w" for args
    using assms(1) by (simp add: sqlite_read_laws_def)
  with assms(2) True show ?thesis
    by (fastforce simp: query_stmt_def runner_Query_def dest: arg_cong [of _ _ snd]
        split: sum.splits prod.splits option.splits if_splits)
next
  case False
  with assms(2) show ?thesis
    by (auto simp: query_stmt_def split: sum.splits if_splits)
qed

lemma query_loop_content:
  assumes "sqlite_read_laws drv dsn content"
  shows "query_loop drv dsn tx w qs rs = (r, w') \<Longrightarrow> content w' = content w"
proof (induction qs arbitrary: w rs)
  case Nil
  then show ?case by simp
next
  case (Cons q qs)
  obtain st w1 where st: "query_stmt drv dsn tx w q = (st, w1)" by fastforce
  from query_stmt_content [OF assms st] Cons st show ?case
    by (auto split: if_splits qstep.splits)
qed

lemma Tx_ends_content:
  assumes "sqlite_read_laws drv dsn content"
  shows "content (snd (snd (Tx_Rollback drv dsn t w))) = content w"
    and "Tx_Commit drv dsn t w = (e, t', w') \<Longrightarrow> content w' = content w"
  using assms
  by (auto simp: sqlite_read_laws_def Tx_Rollback_def Tx_Commit_def
      dest: arg_cong [of _ _ snd] split: prod.splits if_splits) (metis snd_conv)+

lemma query_finish_content:
  assumes "sqlite_read_laws drv dsn content" and "query_finish drv dsn tx (r, w) = (r', w')"
  shows "content w' = content w"
  using assms(2) Tx_ends_content [OF assms(1)]
  by (auto simp: query_finish_def split: option.splits go.splits sum.splits prod.splits)

lemma query_loop_count:
  "query_loop drv dsn tx w qs rs = (Ret (Inr rs'), w') \<Longrightarrow>
     length rs' = length rs + length (nonempty qs)"
proof (induction qs arbitrary: w rs)
  case Nil
  then show ?case by simp
next
  case (Cons q qs)
  obtain st w1 where "query_stmt drv dsn tx w q = (st, w1)" by fastforce
  with Cons.prems Cons.IH [of w rs] Cons.IH [of w1 "rs @ [_]"] show ?case
    by (auto split: if_splits qstep.splits)
qed

lemma Engine_Query_content:
  assumes "sqlite_read_laws drv (db_dsn (eng_readDB eng)) content"
  shows "content (snd (Engine_Query drv eng req w)) = content w"
proof -
  let ?dsn = "db_dsn (eng_readDB eng)"
  have conn: "content (snd (DB_Conn drv (eng_readDB eng) w)) = content w"
    and beg: "\<And>w1. content (snd (drv_Begin drv ?dsn w1)) = content w1"
    using assms by (auto simp: sqlite_read_laws_def DB_Conn_def)
  have run: "content (snd (query_finish drv ?dsn tx (query_loop drv ?dsn tx w1 qs []))) = content w1"
    for tx w1 qs
    using query_loop_content [OF assms] query_finish_content [OF assms] by (metis prod.collapse)
  show ?thesis
    using conn beg run
    by (auto simp: Engine_Query_def Let_def dest: arg_cong [of _ _ snd] split: prod.splits option.splits)
       (metis snd_conv)+
qed

section \<open>Properties of Query\<close>

text \<open>
  (C15) \<open>Query\<close> never changes the database: whatever the statements of the request say, and on
  every way out (results, an error, a panic while rows are converted), the content is
  what it was, because only statements that SQLite reports read-only are run.
\<close>
theorem query_preserves_content:
  assumes "sqlite_read_laws drv (db_dsn (eng_readDB eng)) content"
  shows "content (snd (Engine_Query drv eng req w)) = content w"
  using assms by (rule Engine_Query_content)

theorem query_preserves_content_witness:
  "sm_base (conns (snd (Engine_Query sample_reader sample_engine
      (sample_request True [''DELETE FROM foo'', ''SELECT 1'']) (sample_world [''I0''])))) = [''I0'']"
  using query_preserves_content [OF sample_read_laws, of sample_engine
      "sample_request True [''DELETE FROM foo'', ''SELECT 1'']" "sample_world [''I0'']"]
  by (simp add: sample_world_def)

text \<open>
  When \<open>Query\<close> returns results, it returns exactly one for each statement with a text.
\<close>
theorem query_one_result_per_statement:
  assumes "fst (Engine_Query drv eng req w) = Ret (Some rs, err)"
  shows "length rs = length (nonempty (req_Statements req))"
proof -
  let ?dsn = "db_dsn (eng_readDB eng)"
  obtain tx w1 where fin: "fst (query_finish drv ?dsn tx (query_loop drv ?dsn tx w1 (req_Statements req) []))
      = Ret (Some rs, err)"
    using assms by (fastforce simp: Engine_Query_def Let_def split: prod.splits option.splits if_splits)
  obtain r w2 where lp: "query_loop drv ?dsn tx w1 (req_Statements req) [] = (r, w2)" by fastforce
  have "r = Ret (Inr rs)"
    using fin lp by (auto simp: query_finish_def split: option.splits go.splits sum.splits prod.splits)
  with query_loop_count lp show ?thesis by fastforce
qed

theorem query_one_result_per_statement_witness:
  "\<exists>rs err. fst (Engine_Query sample_driver sample_engine
       (sample_request False [''SELECT 1'', '''', ''DROP TABLE t'']) (sample_world [''I0''])) = Ret (Some rs, err) \<and>
     length rs = 2"
proof -
  let ?r = "fst (Engine_Query sample_driver sample_engine
       (sample_request False [''SELECT 1'', '''', ''DROP TABLE t'']) (sample_world [''I0'']))"
  have "?r = Ret (Some [\<lparr>qres_Columns = [''stmt''], qres_Types = [''text''],
      qres_Values = [Some \<lparr>vals_Params = Some [Some (new_Parameter (Parameter_S ''I0''))]\<rparr>], qres_Error = ''''\<rparr>,
      new_QueryRes\<lparr>qres_Error := ''tried to change the database in a query operation''\<rparr>], None)"
    by code_simp
  with query_one_result_per_statement [OF this] show ?thesis by (auto simp: sample_request_def)
qed


section \<open>Properties of the conversions\<close>

lemma convert_cell_step:
  assumes "length acc < length types"
  shows "convert_cell types (length acc) v (acc @ replicate (length types - length acc) None) =
    go_bind (cell_value (types ! length acc) v) (\<lambda>c.
      case c of
        Inl err \<Rightarrow> Ret (Inl err)
      | Inr p \<Rightarrow> Ret (Inr ((acc @ [p]) @ replicate (length types - Suc (length acc)) None)))"
proof -
  obtain k where k: "length types - length acc = Suc k" using assms by (metis Suc_diff_Suc)
  then have "length types - Suc (length acc) = k" by simp
  with k assms show ?thesis
    by (cases v; cases "isStringType (types ! length acc)")
      (auto simp: convert_cell_def set_index_def go_index_def Let_def nth_append list_update_append
        split: sum.splits)
qed

lemma convert_loop_row_values:
  "length types = length acc + length row \<Longrightarrow>
   convert_loop types (length acc) row (acc @ replicate (length row) None) =
   go_bind (row_values (zip (drop (length acc) types) row)) (\<lambda>r.
     case r of Inl err \<Rightarrow> Ret (Inl err) | Inr ps \<Rightarrow> Ret (Inr (acc @ ps)))"
proof (induction row arbitrary: acc)
  case Nil
  then show ?case by simp
next
  case (Cons v row)
  then have lt: "length acc < length types" by simp
  then have dr: "drop (length acc) types = types ! length acc # drop (Suc (length acc)) types"
    by (rule Cons_nth_drop_Suc [symmetric])
  have len: "length types - length acc = length (v # row)"
    "length types - Suc (length acc) = length row" using Cons.prems by simp_all
  have step: "convert_loop types (Suc (length acc)) row (acc @ p # replicate (length row) None) =
      go_bind (row_values (zip (drop (Suc (length acc)) types) row)) (\<lambda>r.
        case r of Inl err \<Rightarrow> Ret (Inl err) | Inr ps \<Rightarrow> Ret (Inr (acc @ p # ps)))" for p
    using Cons.IH [of "acc @ [p]"] Cons.prems by simp
  show ?case
    using convert_cell_step [OF lt, of v] step
    by (cases "cell_value (types ! length acc) v";
        cases "row_values (zip (drop (Suc (length acc)) types) row)")
      (auto simp: len dr split: sum.splits)
qed

lemma convertToProto_row_values:
  assumes "length types = length row"
  shows "convertToProto types row = row_values (zip types row)"
proof -
  have "convertToProto types row =
    go_bind (row_values (zip types row)) (\<lambda>r.
      case r of Inl err \<Rightarrow> Ret (Inl err) | Inr ps \<Rightarrow> Ret (Inr ps))"
    using convert_loop_row_values [of types "[]" row] assms by (simp add: convertToProto_def)
  then show ?thesis
    by (cases "row_values (zip types row)") (auto split: sum.splits)
qed

lemma row_values_length: "row_values cells = Ret (Inr ps) \<Longrightarrow> length ps = length cells"
  by (induction cells arbitrary: ps) auto

text \<open>
  (C36) \<open>convertToProto\<close>, which fills a slice of nil pointers by index, agrees with the
  conversion cell by cell: in order, an SQL NULL as a nil parameter, the first cell that
  cannot be converted decides the error or panic, and a row that converts has exactly one
  parameter per column.
\<close>
theorem convertToProto_cellwise:
  assumes "length types = length row"
  shows "convertToProto types row = row_values (zip types row) \<and>
    (\<forall>ps. convertToProto types row = Ret (Inr ps) \<longrightarrow> length ps = length types)"
  using assms row_values_length [of "zip types row"] by (simp add: convertToProto_row_values)

theorem convertToProto_cellwise_witness:
  "convertToProto [''integer'', ''text'', ''blob''] [GInt64 7, GNil, GBytes [1]] =
     Ret (Inr [Some (new_Parameter (Parameter_I 7)), None, Some (new_Parameter (Parameter_Y [1]))])"
  using convertToProto_cellwise [of "[''integer'', ''text'', ''blob'']" "[GInt64 7, GNil, GBytes [1]]"]
  by (simp add: isStringType_def HasPrefix_def)

lemma row_values_panic:
  "row_values pre = Ret (Inr ps) \<Longrightarrow> cell_value t v = Panic s \<Longrightarrow> row_values (pre @ (t, v) # post) = Panic s"
proof (induction pre arbitrary: ps)
  case (Cons c pre)
  then obtain p qs where "cell_value (fst c) (snd c) = Ret (Inr p)" "row_values pre = Ret (Inr qs)"
    by (cases c) auto
  with Cons.IH [OF this(2) Cons.prems(2)] show ?case by (cases c) simp
qed simp

text \<open>
  (C37) A BLOB in a column whose declared type counts as a string type (\<open>text\<close>, \<open>varchar\<close>,
  or no type at all, as for an expression) makes \<open>convertToProto\<close> dereference a nil
  pointer: once the cells to its left convert, the conversion panics.
\<close>
theorem convertToProto_blob_in_text_panics:
  assumes "length types = length row" and "i < length row" and "row ! i = GBytes b"
    and "isStringType (types ! i)" and "row_values (take i (zip types row)) = Ret (Inr ps)"
  shows "convertToProto types row = Panic ''invalid memory address or nil pointer dereference''"
proof -
  let ?cells = "zip types row"
  have "?cells ! i = (types ! i, GBytes b)" using assms(1-3) by simp
  then have cells: "?cells = take i ?cells @ (types ! i, GBytes b) # drop (Suc i) ?cells"
    using id_take_nth_drop [of i ?cells] assms(1,2) by simp
  have cell: "cell_value (types ! i) (GBytes b) = Panic ''invalid memory address or nil pointer dereference''"
    using assms(4) by simp
  show ?thesis
    unfolding convertToProto_row_values [OF assms(1)]
    by (subst cells) (rule row_values_panic [OF assms(5) cell])
qed


theorem convertToProto_blob_in_text_panics_witness:
  "convertToProto [''integer'', ''text''] [GInt64 1, GBytes [255]] =
     Panic ''invalid memory address or nil pointer dereference''"
  by (rule convertToProto_blob_in_text_panics [where i = 1 and b = "[255]"
        and ps = "[Some (new_Parameter (Parameter_I 1))]"])
     (simp_all add: isStringType_def)

text \<open>
  \<open>convertParamsToSQL\<close> binds every parameter by its name and value, in order, and fails
  exactly when some parameter has no value; the failure names the type of that value.
\<close>
theorem convertParamsToSQL_complete:
  "convertParamsToSQL ps =
     (if \<forall>p \<in> set ps. GetValue p \<noteq> None
      then Inr (map (\<lambda>p. \<lparr>arg_Name = GetName p, arg_Value = the (GetValue p)\<rparr>) ps)
      else Inl (ErrMsg ''unsupported type: <nil>''))"
  by (induction ps) (auto split: option.splits)

theorem convertParamsToSQL_complete_witness:
  "convertParamsToSQL [Some \<lparr>param_Value = Some (Parameter_S ''x''), param_Name = ''n''\<rparr>] =
     Inr [\<lparr>arg_Name = ''n'', arg_Value = Parameter_S ''x''\<rparr>]"
  using convertParamsToSQL_complete [of "[Some \<lparr>param_Value = Some (Parameter_S ''x''), param_Name = ''n''\<rparr>]"]
  by simp

section \<open>Properties of the other operations\<close>

text \<open>
  \<open>Size\<close> reads \<open>rows[0].Values[0]\<close> without looking at \<open>rows[0].Error\<close>: when SQLite
  refuses to prepare the size query (a locked or corrupt database), \<open>Query\<close> reports that
  inside the result, with a nil error, and \<open>Size\<close> panics instead of returning an error.
\<close>
theorem size_panics_on_refused_query:
  assumes "\<not> db_closed (eng_readDB eng)"
    and "drv_Connect drv (db_dsn (eng_readDB eng)) w = (None, w1)"
    and "drv_Readonly drv (db_dsn (eng_readDB eng)) w1 size_query = Inl err"
  shows "Size drv eng w = (Panic ''runtime error: index out of range'', w1)"
proof -
  have "size_query \<noteq> ''''" by (simp add: size_query_def)
  with assms have "QueryString drv eng size_query w =
      (Ret (Some [new_QueryRes\<lparr>qres_Error := err_text err\<rparr>], None), w1)"
    by (simp add: QueryString_def Engine_Query_def DB_Conn_def query_stmt_def query_finish_def)
  then show ?thesis by (simp add: Size_def first_int_def go_index_def new_QueryRes_def)
qed

theorem size_panics_on_refused_query_witness:
  "Size (sample_driver\<lparr>drv_Readonly := (\<lambda>_ _ _. Inl (ErrMsg ''database is locked''))\<rparr>) sample_engine
     (sample_world []) = (Panic ''runtime error: index out of range'', sample_world [])"
  by (rule size_panics_on_refused_query) (simp_all add: sample_engine_def sample_driver_def)

lemma busy_copy_steps:
  "busy_steps drv dst src k w = Some wk \<Longrightarrow> copy_steps drv dst src w = copy_steps drv dst src wk"
proof (induction k arbitrary: w)
  case (Suc k)
  then obtain w1 where "drv_BackupStep drv dst src w = (Inr False, w1)"
    "busy_steps drv dst src k w1 = Some wk"
    by (auto split: prod.splits sum.splits bool.splits)
  with Suc.IH show ?case by (subst copy_steps.simps) simp
qed simp

text \<open>
  (C39) The backup loop returns as soon as a step is not busy, however many busy steps came
  before it: with the result of \<open>Finish\<close> when that step was the last one, and with an
  error when the step failed, even if \<open>Finish\<close> then succeeds.
\<close>
theorem copyConnection_returns:
  assumes "drv_Backup drv dst src w = (None, w0)"
    and "busy_steps drv dst src k w0 = Some wk"
    and "drv_BackupStep drv dst src wk = (r, w1)" and "r \<noteq> Inr False"
  shows "copyConnection drv dst src w =
    (case drv_BackupFinish drv dst src w1 of
       (f, w2) \<Rightarrow>
         Some (case r of Inl err \<Rightarrow> Some (case f of None \<Rightarrow> err | Some e \<Rightarrow> e) | Inr _ \<Rightarrow> f, w2))"
proof -
  obtain f w2 where fin: "drv_BackupFinish drv dst src w1 = (f, w2)" by fastforce
  have "copyConnection drv dst src w = copy_steps drv dst src wk"
    using assms(1) busy_copy_steps [OF assms(2)] by (simp add: copyConnection_def)
  also have "\<dots> = Some (case r of Inl err \<Rightarrow> Some (case f of None \<Rightarrow> err | Some e \<Rightarrow> e) | Inr _ \<Rightarrow> f, w2)"
    using assms(3,4) fin by (subst copy_steps.simps) (auto split: sum.splits option.splits)
  finally show ?thesis using fin by simp
qed

theorem copyConnection_returns_witness:
  "copyConnection sample_driver ''file:b'' ''file:a'' (sample_world [''I0'']) =
     Some (None, sample_world [''I0''])"
  using copyConnection_returns [of sample_driver "''file:b''" "''file:a''" "sample_world [''I0'']"
      "sample_world [''I0'']" 0 "sample_world [''I0'']" "Inr True" "sample_world [''I0'']"]
  by (simp add: sample_driver_def)

text \<open>
  Once \<open>Close\<close> has succeeded the engine answers nothing: \<open>Exec\<close> and \<open>Query\<close> return the
  "database is closed" error of \<open>database/sql\<close> without results and without touching the
  world, and closing again succeeds and changes nothing.
\<close>
theorem closed_engine_refuses:
  assumes "Engine_Close drv eng w = (None, eng', w')"
  shows "Engine_Exec drv eng' req w2 = ((None, Some ErrDBClosed), w2) \<and>
    Engine_Query drv eng' req w2 = (Ret (None, Some ErrDBClosed), w2) \<and>
    Engine_Close drv eng' w2 = (None, eng', w2)"
proof -
  have closed: "db_closed (eng_readDB eng')" "db_closed (eng_writeDB eng')"
    using assms by (auto simp: Engine_Close_def DB_Close_def split: prod.splits option.splits if_splits)
  then show ?thesis
    by (simp add: Engine_Exec_def Engine_Query_def Engine_Close_def DB_Close_def)
qed

theorem closed_engine_refuses_witness:
  "Engine_Exec sample_driver (fst (snd (Engine_Close sample_driver sample_engine (sample_world []))))
     (sample_request True [''I1'']) (sample_world [''I0'']) = ((None, Some ErrDBClosed), sample_world [''I0''])"
proof -
  let ?c = "Engine_Close sample_driver sample_engine (sample_world [])"
  have "fst ?c = None" by code_simp
  then have "?c = (None, fst (snd ?c), snd (snd ?c))" by (metis prod.collapse)
  from closed_engine_refuses [OF this] show ?thesis by blast
qed

lemma genRandomChars_length: "length genRandomChars = 37"
  by (simp add: genRandomChars_def)

text \<open>
  The name of an in-memory database has twenty characters, all of them letters of the
  alphabet the function draws from, whatever the random source returns: no index is out of
  range.
\<close>
theorem genRandomString_well_formed:
  "length (genRandomString rnd) = 20 \<and> set (genRandomString rnd) \<subseteq> set genRandomChars"
  by (auto simp: genRandomString_def genRandomChars_length)

end
