(* ===== verification/Snapshot.thy ===== *)
theory Snapshot
  imports Prelude
begin

text \<open>
  The snapshot format of \<^verbatim>\<open>consensus/consensus.go\<close>: \<open>newSnapshot\<close>'s value, \<open>Persist\<close>
  and \<open>compressDatabase\<close>, which write it to a raft snapshot sink, and \<open>snapshotToBytes\<close>,
  which reads it back.

  \<^verbatim>\<open>
    offset 0   8 bytes   little-endian 2^64 - 1: "compressed"
    offset 8   8 bytes   little-endian length of the gzip stream, 0 for no database
    offset 16            the gzip stream
  \<close>

  A first field other than \<open>2^64 - 1\<close> is the length of an uncompressed database that
  follows at offset 8. gzip and the raft sink are parameters; \<open>gzip_laws\<close> and
  \<open>sink_laws\<close> say what is documented of them. Slicing is modelled on the backing array: Go
  checks the upper bound of \<open>b[lo:hi]\<close> against the capacity, so the bytes that
  \<open>io.ReadAll\<close> has allocated beyond the length (\<open>spare\<close>) can be read. Sizes are 64-bit:
  \<open>int64(size)\<close> is a reinterpretation and \<open>offset+int64(size)\<close> wraps around.
\<close>

section \<open>Little-endian integers and slices\<close>

fun le_bytes :: "nat \<Rightarrow> 64 word \<Rightarrow> bytes" where
  "le_bytes 0 x = []"
| "le_bytes (Suc n) x = ucast x # le_bytes n (drop_bit 8 x)"

fun le_word :: "bytes \<Rightarrow> 64 word" where
  "le_word [] = 0"
| "le_word (b # bs) = or (ucast b) (push_bit 8 (le_word bs))"

definition PutUint64 :: "uint64 \<Rightarrow> bytes" where
  "PutUint64 x = le_bytes 8 x"

definition go_slice :: "bytes \<Rightarrow> int64 \<Rightarrow> int64 \<Rightarrow> bytes go" where
  "go_slice mem lo hi =
     (if 0 \<le> sint lo \<and> sint lo \<le> sint hi \<and> sint hi \<le> int (length mem)
      then Ret (take (nat (sint hi - sint lo)) (drop (nat (sint lo)) mem))
      else Panic ''runtime error: slice bounds out of range'')"

section \<open>gzip and the sink\<close>

text \<open>Where reading a gzip stream fails: \<open>gzip.NewReader\<close>, \<open>io.Copy\<close> or \<open>Close\<close>.\<close>

datatype gzfail = NewReaderFail goerr | CopyFail goerr | CloseFail goerr

record gzip =
  gz_write :: "bytes \<Rightarrow> goerr + bytes"
  gz_read :: "bytes \<Rightarrow> gzfail + bytes"

record 'k sink =
  sink_Write :: "bytes \<Rightarrow> 'k \<Rightarrow> goerr option \<times> 'k"
  sink_Close :: "'k \<Rightarrow> goerr option \<times> 'k"
  sink_Cancel :: "'k \<Rightarrow> goerr option \<times> 'k"

definition gzip_laws :: "gzip \<Rightarrow> bool" where
  "gzip_laws gz \<longleftrightarrow> (\<forall>d c. gz_write gz d = Inr c \<longrightarrow> c \<noteq> [] \<and> gz_read gz c = Inr d)"

text \<open>A write that succeeds appends; closing keeps what was written.\<close>

definition sink_laws :: "'k sink \<Rightarrow> ('k \<Rightarrow> bytes) \<Rightarrow> bool" where
  "sink_laws snk content \<longleftrightarrow>
     (\<forall>b k k'. sink_Write snk b k = (None, k') \<longrightarrow> content k' = content k @ b) \<and>
     (\<forall>k k'. sink_Close snk k = (None, k') \<longrightarrow> content k' = content k)"

section \<open>Writing a snapshot\<close>

record snapshot =
  snap_database :: "bytes option"

text \<open>\<open>bytes.Buffer\<close>'s \<open>Bytes\<close> is nil when nothing was written to it.\<close>

definition compressDatabase :: "gzip \<Rightarrow> snapshot \<Rightarrow> goerr + bytes option" where
  "compressDatabase gz snap =
     (case snap_database snap of
        None \<Rightarrow> Inr None
      | Some d \<Rightarrow>
          (case gz_write gz d of
            Inl err \<Rightarrow> Inl err
          | Inr buf \<Rightarrow> Inr (if buf = [] then None else Some buf)))"

definition then_sink ::
  "goerr option \<times> 'k \<Rightarrow> ('k \<Rightarrow> goerr option \<times> 'k) \<Rightarrow> goerr option \<times> 'k" where
  "then_sink r f = (case r of (Some err, k) \<Rightarrow> (Some err, k) | (None, k) \<Rightarrow> f k)"

definition persist_body :: "gzip \<Rightarrow> 'k sink \<Rightarrow> snapshot \<Rightarrow> 'k \<Rightarrow> goerr option \<times> 'k" where
  "persist_body gz snk snap k =
     then_sink (sink_Write snk (PutUint64 (- 1)) k) (\<lambda>k1.
       case compressDatabase gz snap of
         Inl err \<Rightarrow> (Some err, k1)
       | Inr None \<Rightarrow>
           then_sink (sink_Write snk (PutUint64 0) k1) (sink_Close snk)
       | Inr (Some compressedDB) \<Rightarrow>
           then_sink (sink_Write snk (PutUint64 (of_nat (length compressedDB))) k1) (\<lambda>k2.
           then_sink (sink_Write snk compressedDB k2) (sink_Close snk)))"

definition Persist :: "gzip \<Rightarrow> 'k sink \<Rightarrow> snapshot \<Rightarrow> 'k \<Rightarrow> goerr option \<times> 'k" where
  "Persist gz snk snap k =
     (case persist_body gz snk snap k of
        (None, k1) \<Rightarrow> (None, k1)
      | (Some err, k1) \<Rightarrow>
          (case sink_Cancel snk k1 of
            (Some err2, k2) \<Rightarrow> (Some err2, k2)
          | (None, k2) \<Rightarrow> (Some err, k2)))"

text \<open>Nothing is held that would have to be released.\<close>

definition Release :: "snapshot \<Rightarrow> snapshot" where
  "Release snap = snap"

section \<open>Reading a snapshot\<close>

text \<open>What \<open>io.ReadAll\<close> returned: an error or the bytes, and the spare capacity.\<close>

record readall =
  ra_err :: "goerr option"
  ra_bytes :: bytes
  ra_spare :: bytes

definition gunzip_stream :: "gzip \<Rightarrow> bytes \<Rightarrow> goerr + bytes" where
  "gunzip_stream gz b =
     (case gz_read gz b of
        Inl (NewReaderFail err) \<Rightarrow> Inl err
      | Inl (CopyFail err) \<Rightarrow> Inl (ErrMsg (''sqlite database decompress '' @ err_text err))
      | Inl (CloseFail err) \<Rightarrow> Inl err
      | Inr d \<Rightarrow> Inr d)"

definition snapshot_body ::
  "gzip \<Rightarrow> bytes \<Rightarrow> int64 \<Rightarrow> uint64 \<Rightarrow> bool \<Rightarrow> (goerr + bytes option) go" where
  "snapshot_body gz mem offset sz isCompressed =
     (if unat sz > 0 then
        go_bind (go_slice mem offset (offset + sz)) (\<lambda>body.
          if isCompressed then
            (case gunzip_stream gz body of
              Inl err \<Rightarrow> Ret (Inl err)
            | Inr d \<Rightarrow> Ret (Inr (Some d)))
          else Ret (Inr (Some body)))
      else Ret (Inr None))"

definition snapshotToBytes :: "gzip \<Rightarrow> readall \<Rightarrow> (goerr + bytes option) go" where
  "snapshotToBytes gz rd =
     (case ra_err rd of
        Some err \<Rightarrow> Ret (Inl (ErrMsg (''read all error: '' @ err_text err)))
      | None \<Rightarrow>
          (let mem = ra_bytes rd @ ra_spare rd in
           go_bind (go_slice mem 0 8) (\<lambda>b0.
             let sz = le_word b0 in
             if sz = - 1 then
               go_bind (go_slice mem 8 16) (\<lambda>b1. snapshot_body gz mem 16 (le_word b1) True)
             else snapshot_body gz mem 8 sz False)))"

text \<open>
  A codec and a sink to evaluate on: the codec puts one marker byte before the data, the
  sink is a buffer that refuses to grow beyond a limit and is emptied by \<open>Cancel\<close>.
\<close>

definition sample_gzip :: gzip where
  "sample_gzip =
     \<lparr>gz_write = (\<lambda>d. Inr (31 # d)),
      gz_read = (\<lambda>c. case c of
                   [] \<Rightarrow> Inl (NewReaderFail (ErrMsg ''EOF''))
                 | b # d \<Rightarrow> if b = 31 then Inr d else Inl (CopyFail (ErrMsg ''gzip: invalid header'')))\<rparr>"

definition sample_sink :: "nat \<Rightarrow> bytes sink" where
  "sample_sink limit =
     \<lparr>sink_Write = (\<lambda>b k. if length k + length b \<le> limit then (None, k @ b) else (Some (ErrMsg ''disk full''), k)),
      sink_Close = (\<lambda>k. (None, k)),
      sink_Cancel = (\<lambda>k. (None, []))\<rparr>"

section \<open>Lemmas\<close>

lemma sample_gzip_laws: "gzip_laws sample_gzip"
  by (simp add: gzip_laws_def sample_gzip_def)

lemma sample_sink_laws: "sink_laws (sample_sink limit) id"
  by (auto simp: sink_laws_def sample_sink_def split: if_splits)

lemma le_bytes_length [simp]: "length (le_bytes n x) = n"
  by (induction n arbitrary: x) simp_all

lemma PutUint64_length [simp]: "length (PutUint64 x) = 8"
  by (simp add: PutUint64_def)

lemma le_word_le_bytes: "le_word (le_bytes n x) = take_bit (8 * n) x"
proof (induction n arbitrary: x)
  case 0
  then show ?case by simp
next
  case (Suc n)
  show ?case
  proof (rule bit_word_eqI)
    fix i assume "i < LENGTH(64)"
    then show "bit (le_word (le_bytes (Suc n) x)) i \<longleftrightarrow> bit (take_bit (8 * Suc n) x) i"
      by (cases "i < 8") (auto simp: Suc.IH bit_simps)
  qed
qed

lemma le_word_PutUint64 [simp]: "le_word (PutUint64 x) = x"
  by (simp add: PutUint64_def le_word_le_bytes take_bit_word_eq_self)


lemma sint_small_word: "n < 2 ^ 63 \<Longrightarrow> sint (word_of_nat n :: 64 word) = int n"
  by (simp add: signed_of_nat signed_take_bit_int_eq_self)

lemma sint_offset: "k + n < 2 ^ 63 \<Longrightarrow> sint (word_of_nat k + word_of_nat n :: 64 word) = int (k + n)"
  using sint_small_word [of "k + n"] by simp

lemma go_slice_split:
  assumes "k + n < 2 ^ 63" and "length pre = k" and "length body = n"
  shows "go_slice (pre @ body @ rest) (word_of_nat k) (word_of_nat k + word_of_nat n) = Ret body"
  using assms sint_small_word [of k] sint_offset [of k n] by (simp add: go_slice_def)

lemma persist_body_content:
  assumes "sink_laws snk content" and "persist_body gz snk snap k = (None, k')"
  shows "\<exists>c. compressDatabase gz snap = Inr c \<and>
    content k' = content k @ PutUint64 (- 1) @
      (case c of None \<Rightarrow> PutUint64 0 | Some z \<Rightarrow> PutUint64 (of_nat (length z)) @ z)"
  using assms
  by (auto simp: persist_body_def then_sink_def sink_laws_def
      split: prod.splits option.splits sum.splits)

lemma Persist_None_iff: "Persist gz snk snap k = (None, k') \<longleftrightarrow> persist_body gz snk snap k = (None, k')"
  by (auto simp: Persist_def split: prod.splits option.splits)

lemma snapshotToBytes_compressed:
  assumes "ra_err rd = None" and "ra_bytes rd = PutUint64 (- 1) @ PutUint64 (word_of_nat (length z)) @ z"
    and "length z + 16 < 2 ^ 63"
  shows "snapshotToBytes gz rd =
    (if z = [] then Ret (Inr None)
     else (case gunzip_stream gz z of Inl err \<Rightarrow> Ret (Inl err) | Inr d \<Rightarrow> Ret (Inr (Some d))))"
proof -
  let ?mem = "ra_bytes rd @ ra_spare rd"
  let ?hd = "PutUint64 (- 1) @ PutUint64 (word_of_nat (length z))"
  have "go_slice ?mem 0 8 = Ret (PutUint64 (- 1))"
    using go_slice_split [of 0 8 "[]" "PutUint64 (- 1)"] assms(2) by simp
  moreover have "go_slice ?mem 8 16 = Ret (PutUint64 (word_of_nat (length z)))"
    using go_slice_split [of 8 8 "PutUint64 (- 1)" "PutUint64 (word_of_nat (length z))"] assms(2) by simp
  moreover have "go_slice ?mem 16 (16 + word_of_nat (length z)) = Ret z"
    using go_slice_split [of 16 "length z" ?hd z] assms(2,3) by simp
  moreover have "unat (word_of_nat (length z) :: 64 word) = length z"
    using assms(3) by (simp add: unat_of_nat take_bit_nat_eq_self)
  ultimately show ?thesis
    using assms(1) by (simp add: snapshotToBytes_def snapshot_body_def Let_def)
qed

lemma Persist_readback:
  assumes "gzip_laws gz" and "sink_laws snk content" and "content k = []"
    and "Persist gz snk snap k = (None, k')" and "length (content k') < 2 ^ 63"
  shows "snapshotToBytes gz \<lparr>ra_err = None, ra_bytes = content k', ra_spare = spare\<rparr> =
    Ret (Inr (snap_database snap))"
proof -
  from persist_body_content [OF assms(2) assms(4) [unfolded Persist_None_iff]] assms(3) obtain c where
    c: "compressDatabase gz snap = Inr c"
      "content k' = PutUint64 (- 1) @ (case c of None \<Rightarrow> PutUint64 0 | Some z \<Rightarrow> PutUint64 (of_nat (length z)) @ z)"
    by auto
  define z where "z = (case c of None \<Rightarrow> [] | Some z \<Rightarrow> z)"
  have content: "content k' = PutUint64 (- 1) @ PutUint64 (word_of_nat (length z)) @ z"
    using c(2) by (simp add: z_def split: option.splits)
  note read = snapshotToBytes_compressed [of "\<lparr>ra_err = None, ra_bytes = content k', ra_spare = spare\<rparr>" z gz]
  show ?thesis
  proof (cases "snap_database snap")
    case None
    with c(1) have "z = []" by (simp add: compressDatabase_def z_def)
    with read content None show ?thesis by simp
  next
    case (Some d)
    with c(1) assms(1) have "z \<noteq> []" "gz_read gz z = Inr d"
      by (auto simp: compressDatabase_def z_def gzip_laws_def split: sum.splits if_splits)
    with read content assms(5) Some show ?thesis by (simp add: gunzip_stream_def)
  qed
qed

section \<open>Properties\<close>

text \<open>
  (C13) A snapshot reads back as the database it was taken from: whatever \<open>Persist\<close> wrote
  without an error, \<open>snapshotToBytes\<close> turns into the same bytes, a nil database into a nil
  one and an empty one into an empty one, whatever spare capacity the reader left behind
  the data. (A Go slice is shorter than \<open>2^63\<close> bytes; the stream and its header fit.)
\<close>
theorem snapshot_roundtrip:
  assumes "gzip_laws gz" and "sink_laws snk content" and "content k = []"
    and "Persist gz snk snap k = (None, k')" and "length (content k') < 2 ^ 63"
  shows "snapshotToBytes gz \<lparr>ra_err = None, ra_bytes = content k', ra_spare = spare\<rparr> =
    Ret (Inr (snap_database snap))"
  using assms by (rule Persist_readback)

theorem snapshot_roundtrip_witness:
  "snapshotToBytes sample_gzip
     \<lparr>ra_err = None, ra_bytes = snd (Persist sample_gzip (sample_sink 100) \<lparr>snap_database = Some [1, 2]\<rparr> []),
      ra_spare = [7, 7, 7]\<rparr> = Ret (Inr (Some [1, 2]))"
proof -
  let ?p = "Persist sample_gzip (sample_sink 100) \<lparr>snap_database = Some [1, 2]\<rparr> []"
  have "fst ?p = None" "length (snd ?p) = 19" by code_simp+
  then have "?p = (None, snd ?p)" "length (id (snd ?p)) < 2 ^ 63"
    by (simp_all add: prod_eq_iff)
  from snapshot_roundtrip [OF sample_gzip_laws sample_sink_laws _ this] show ?thesis by simp
qed

text \<open>
  A failed \<open>Persist\<close> discards the snapshot: an error is returned only after the sink was
  cancelled, and the state it leaves is the one \<open>Cancel\<close> left; so a snapshot that could
  not be written in full is never kept as complete.
\<close>
theorem persist_error_cancels:
  assumes "Persist gz snk snap k = (Some err, k')"
  shows "\<exists>e1 k1 c. persist_body gz snk snap k = (Some e1, k1) \<and> sink_Cancel snk k1 = (c, k') \<and>
    err = (case c of None \<Rightarrow> e1 | Some e2 \<Rightarrow> e2)"
  using assms by (auto simp: Persist_def split: prod.splits option.splits)

theorem persist_error_cancels_witness:
  "Persist sample_gzip (sample_sink 17) \<lparr>snap_database = Some [1, 2]\<rparr> [] = (Some (ErrMsg ''disk full''), []) \<and>
   (\<exists>e1 k1 c. persist_body sample_gzip (sample_sink 17) \<lparr>snap_database = Some [1, 2]\<rparr> [] = (Some e1, k1) \<and>
      sink_Cancel (sample_sink 17) k1 = (c, []))"
proof -
  have run: "Persist sample_gzip (sample_sink 17) \<lparr>snap_database = Some [1, 2]\<rparr> [] =
      (Some (ErrMsg ''disk full''), [])" by code_simp
  with persist_error_cancels [OF run] show ?thesis by blast
qed

text \<open>
  (C38) A snapshot whose length field promises more than the buffer holds is not reported as an
  error: \<open>snapshotToBytes\<close> slices past the capacity and panics. The bound is the wrapped
  64-bit sum, so a length of \<open>2^63\<close> or more panics as well.
\<close>
theorem truncated_snapshot_panics:
  assumes "ra_err rd = None" and "ra_bytes rd = PutUint64 (- 1) @ PutUint64 n @ body" and "n \<noteq> 0"
    and "sint (16 + n) < 16 \<or> int (length body + 16 + length (ra_spare rd)) < sint (16 + n)"
  shows "snapshotToBytes gz rd = Panic ''runtime error: slice bounds out of range''"
proof -
  let ?mem = "ra_bytes rd @ ra_spare rd"
  have "go_slice ?mem 0 8 = Ret (PutUint64 (- 1))"
    using go_slice_split [of 0 8 "[]" "PutUint64 (- 1)"] assms(2) by simp
  moreover have "go_slice ?mem 8 16 = Ret (PutUint64 n)"
    using go_slice_split [of 8 8 "PutUint64 (- 1)" "PutUint64 n"] assms(2) by simp
  moreover have "go_slice ?mem 16 (16 + n) = Panic ''runtime error: slice bounds out of range''"
    using assms(2,4) by (auto simp: go_slice_def)
  moreover have "0 < unat n" using assms(3) by (simp add: unat_gt_0)
  ultimately show ?thesis
    using assms(1) by (simp add: snapshotToBytes_def snapshot_body_def Let_def)
qed

theorem truncated_snapshot_panics_witness:
  "snapshotToBytes sample_gzip
     \<lparr>ra_err = None, ra_bytes = PutUint64 (- 1) @ PutUint64 5 @ [31, 1], ra_spare = [0]\<rparr> =
   Panic ''runtime error: slice bounds out of range''"
  by (rule truncated_snapshot_panics [where n = 5 and body = "[31, 1]"]) simp_all

end
