(* ===== verification/Raft.thy ===== *)
theory Raft
  imports Engine Snapshot
begin

text \<open>
  The libraries package \<open>consensus\<close> is built on, as parameters, and the node's environment
  that bundles them.

  \<^item> \<open>'r raft\<close>: the calls made on \<^verbatim>\<open>github.com/hashicorp/raft\<close>, functions of an abstract
    raft state. A call to \<open>Apply\<close> either fails, or the entry is committed at an index and
    raft hands the finite state machine every entry that is still to be applied before it,
    then the entry itself; the future's response is what the state machine returned for it.
  \<^item> \<open>pbcodec\<close>: \<open>proto.Marshal\<close> and \<open>proto.Unmarshal\<close> on the three messages that are put
    into the log. Unmarshalling what was marshalled gives the message back (\<open>pb_laws\<close>); a
    nil element of \<open>Params\<close> is the exception, since it comes back as an empty parameter.
  \<^item> \<open>raft_config_laws\<close>: what raft documents of membership changes.
\<close>

section \<open>Raft\<close>

datatype RaftState = Follower | Candidate | Leader | Shutdown

record raftServer =
  rs_ID :: string
  rs_Address :: string

record raftLog =
  log_Index :: uint64
  log_Data :: bytes

text \<open>The fields of \<open>raft.Config\<close> that the program sets; durations are \<open>int64\<close>.\<close>

record raftConfig =
  rc_LocalID :: string
  rc_SnapshotThreshold :: uint64
  rc_HeartbeatTimeout :: int64
  rc_ElectionTimeout :: int64
  rc_LeaderLeaseTimeout :: int64
  rc_CommitTimeout :: int64

record 'r raft =
  rf_State :: "'r \<Rightarrow> RaftState"
  rf_Leader :: "'r \<Rightarrow> string"
  rf_GetConfiguration :: "'r \<Rightarrow> goerr + raftServer list"
  rf_AddVoter :: "string \<Rightarrow> string \<Rightarrow> 'r \<Rightarrow> goerr option \<times> 'r"
  rf_RemoveServer :: "string \<Rightarrow> 'r \<Rightarrow> goerr option \<times> 'r"
  rf_Apply :: "bytes \<Rightarrow> 'r \<Rightarrow> (goerr + (raftLog list \<times> uint64)) \<times> 'r"
  rf_Shutdown :: "'r \<Rightarrow> goerr option \<times> 'r"
  rf_DefaultConfig :: raftConfig
  rf_NewBoltStore :: "string \<Rightarrow> goerr option"
  rf_NewFileSnapshotStore :: "string \<Rightarrow> goerr option"
  rf_NewRaft :: "raftConfig \<Rightarrow> goerr + 'r"
  rf_HasExistingState :: "goerr + bool"
  rf_BootstrapCluster :: "raftServer list \<Rightarrow> 'r \<Rightarrow> goerr option \<times> 'r"

text \<open>
  Membership, as raft documents it: \<open>RemoveServer\<close> drops the server with the given id and
  does nothing for an unknown one; \<open>AddVoter\<close> adds a server, or updates the address of the
  one with that id, and fails when the new configuration would hold two servers of one
  address. A failed change leaves the configuration as it was.
\<close>

definition raft_config_laws :: "'r raft \<Rightarrow> ('r \<Rightarrow> raftServer list) \<Rightarrow> bool" where
  "raft_config_laws rf cfg \<longleftrightarrow>
     (\<forall>r. rf_GetConfiguration rf r = Inr (cfg r)) \<and>
     (\<forall>i r e r'. rf_RemoveServer rf i r = (e, r') \<longrightarrow>
        cfg r' = (if e = None then filter (\<lambda>s. rs_ID s \<noteq> i) (cfg r) else cfg r)) \<and>
     (\<forall>i a r e r'. rf_AddVoter rf i a r = (e, r') \<longrightarrow>
        (if e = None then
           (\<forall>s \<in> set (cfg r). rs_ID s \<noteq> i \<longrightarrow> rs_Address s \<noteq> a) \<and>
           cfg r' = (if i \<in> rs_ID ` set (cfg r)
                     then map (\<lambda>s. if rs_ID s = i then s\<lparr>rs_Address := a\<rparr> else s) (cfg r)
                     else cfg r @ [\<lparr>rs_ID = i, rs_Address = a\<rparr>])
         else cfg r' = cfg r))"

section \<open>Protobuf\<close>

record pbcodec =
  pb_Marshal_Request :: "Request \<Rightarrow> goerr + bytes"
  pb_Unmarshal_Request :: "bytes \<Rightarrow> goerr + Request"
  pb_Marshal_QueryReq :: "QueryReq \<Rightarrow> goerr + bytes"
  pb_Unmarshal_QueryReq :: "bytes \<Rightarrow> goerr + QueryReq"
  pb_Marshal_Action :: "Action \<Rightarrow> goerr + bytes"
  pb_Unmarshal_Action :: "bytes \<Rightarrow> goerr + Action"

definition no_nil_params :: "Request \<Rightarrow> bool" where
  "no_nil_params req \<longleftrightarrow> (\<forall>s \<in> set (req_Statements req). None \<notin> set (stmt_Params s))"

definition pb_laws :: "pbcodec \<Rightarrow> bool" where
  "pb_laws pb \<longleftrightarrow>
     (\<forall>r b. no_nil_params r \<longrightarrow> pb_Marshal_Request pb r = Inr b \<longrightarrow> pb_Unmarshal_Request pb b = Inr r) \<and>
     (\<forall>q b. (\<forall>r. qreq_Request q = Some r \<longrightarrow> no_nil_params r) \<longrightarrow>
        pb_Marshal_QueryReq pb q = Inr b \<longrightarrow> pb_Unmarshal_QueryReq pb b = Inr q) \<and>
     (\<forall>a b. pb_Marshal_Action pb a = Inr b \<longrightarrow> pb_Unmarshal_Action pb b = Inr a)"

section \<open>The environment of a node\<close>

record ('c, 'r) env =
  e_drv :: "'c driver"
  e_flt :: "'c fault"
  e_raft :: "'r raft"
  e_pb :: pbcodec
  e_gz :: gzip
  e_join :: "string list \<Rightarrow> string"    \<comment> \<open>\<open>filepath.Join\<close>\<close>
  e_walk :: "string \<Rightarrow> 'c world \<Rightarrow> (goerr + (bool \<times> int64)) list"
    \<comment> \<open>what \<open>filepath.Walk\<close> hands its callback, in order: an error, or \<open>IsDir\<close> and \<open>Size\<close>\<close>
  e_zap :: "goerr option"    \<comment> \<open>the error of \<open>zap.NewProduction\<close>\<close>

end
