(* ===== verification/Sample_Node.thy ===== *)
theory Sample_Node
  imports Raft
begin

text \<open>
  Concrete parameters for a node, to evaluate the operations on: a raft of one process whose
  log is committed at once, a protobuf codec that numbers the messages of a table, and the
  sample driver and gzip codec of the other theories. The raft satisfies
  \<open>raft_config_laws\<close> and the codec \<open>pb_laws\<close>.
\<close>

section \<open>A codec\<close>

definition enc_tab :: "'a list \<Rightarrow> 'a \<Rightarrow> goerr + bytes" where
  "enc_tab xs x =
     (if x \<in> set xs then Inr (replicate (length (takeWhile ((\<noteq>) x) xs)) 0)
      else Inl (ErrMsg ''proto: cannot marshal''))"

definition dec_tab :: "'a list \<Rightarrow> bytes \<Rightarrow> goerr + 'a" where
  "dec_tab xs b =
     (if length b < length xs then Inr (xs ! length b) else Inl (ErrMsg ''proto: cannot parse''))"

definition sample_pb :: "Request list \<Rightarrow> QueryReq list \<Rightarrow> pbcodec" where
  "sample_pb rs qs =
     \<lparr>pb_Marshal_Request = enc_tab rs, pb_Unmarshal_Request = dec_tab rs,
      pb_Marshal_QueryReq = enc_tab qs, pb_Unmarshal_QueryReq = dec_tab qs,
      pb_Marshal_Action =
        (\<lambda>a. if act_Type a < 3 then Inr (ucast (act_Type a) # act_Body a)
             else Inl (ErrMsg ''proto: cannot marshal'')),
      pb_Unmarshal_Action =
        (\<lambda>b. case b of
           [] \<Rightarrow> Inl (ErrMsg ''proto: cannot parse'')
         | t # body \<Rightarrow> Inr \<lparr>act_Type = ucast t, act_Body = body\<rparr>)\<rparr>"

lemma dec_enc_tab: "enc_tab xs x = Inr b \<Longrightarrow> dec_tab xs b = Inr x"
proof (induction xs arbitrary: b)
  case Nil
  then show ?case by (simp add: enc_tab_def)
next
  case (Cons y xs)
  show ?case
  proof (cases "x = y")
    case True
    with Cons.prems show ?thesis by (auto simp: enc_tab_def dec_tab_def)
  next
    case False
    with Cons.prems obtain b' where "enc_tab xs x = Inr b'" "b = 0 # b'"
      by (auto simp: enc_tab_def split: if_splits)
    with Cons.IH show ?thesis by (auto simp: dec_tab_def split: if_splits)
  qed
qed

lemma ucast_action_type: "t < 3 \<Longrightarrow> ucast (ucast (t :: 32 word) :: 8 word) = t"
proof -
  assume "t < 3"
  then have "unat t < 2 ^ 8" by (simp add: word_less_nat_alt)
  then have "take_bit 8 t = t"
    by (intro unsigned_word_eqI [where ?'a = nat]) (simp add: unsigned_take_bit_eq take_bit_nat_eq_self)
  then show ?thesis by (simp add: unsigned_ucast_eq)
qed

lemma sample_pb_laws: "pb_laws (sample_pb rs qs)"
  by (auto simp: pb_laws_def sample_pb_def ucast_action_type dest: dec_enc_tab split: if_splits)

section \<open>A raft\<close>

record sraft =
  sr_state :: RaftState
  sr_servers :: "raftServer list"
  sr_next :: uint64

definition sample_add :: "string \<Rightarrow> string \<Rightarrow> raftServer list \<Rightarrow> raftServer list" where
  "sample_add i a cfg =
     (if i \<in> rs_ID ` set cfg
      then map (\<lambda>s. if rs_ID s = i then s\<lparr>rs_Address := a\<rparr> else s) cfg
      else cfg @ [\<lparr>rs_ID = i, rs_Address = a\<rparr>])"

definition sample_raft :: "sraft raft" where
  "sample_raft =
     \<lparr>rf_State = sr_state,
      rf_Leader = (\<lambda>r. if sr_state r = Leader then ''127.0.0.1:9000'' else ''''),
      rf_GetConfiguration = (\<lambda>r. Inr (sr_servers r)),
      rf_AddVoter = (\<lambda>i a r.
        if \<exists>s \<in> set (sr_servers r). rs_ID s \<noteq> i \<and> rs_Address s = a
        then (Some (ErrMsg ''found duplicate address in configuration''), r)
        else (None, r\<lparr>sr_servers := sample_add i a (sr_servers r)\<rparr>)),
      rf_RemoveServer = (\<lambda>i r. (None, r\<lparr>sr_servers := filter (\<lambda>s. rs_ID s \<noteq> i) (sr_servers r)\<rparr>)),
      rf_Apply = (\<lambda>d r. if sr_state r = Leader then (Inr ([], sr_next r), r\<lparr>sr_next := sr_next r + 1\<rparr>)
                        else (Inl RaftErrNotLeader, r)),
      rf_Shutdown = (\<lambda>r. (None, r\<lparr>sr_state := Shutdown\<rparr>)),
      rf_DefaultConfig =
        \<lparr>rc_LocalID = '''', rc_SnapshotThreshold = 8192, rc_HeartbeatTimeout = 1000,
         rc_ElectionTimeout = 1000, rc_LeaderLeaseTimeout = 500, rc_CommitTimeout = 50\<rparr>,
      rf_NewBoltStore = (\<lambda>_. None),
      rf_NewFileSnapshotStore = (\<lambda>_. None),
      rf_NewRaft = (\<lambda>_. Inr \<lparr>sr_state = Leader, sr_servers = [], sr_next = 1\<rparr>),
      rf_HasExistingState = Inr False,
      rf_BootstrapCluster = (\<lambda>ss r. (None, r\<lparr>sr_servers := ss\<rparr>))\<rparr>"

lemma sample_raft_laws: "raft_config_laws sample_raft sr_servers"
  by (auto simp: raft_config_laws_def sample_raft_def sample_add_def split: if_splits)

section \<open>An environment\<close>

definition sample_join :: "string list \<Rightarrow> string" where
  "sample_join ps = concat (map (\<lambda>p. CHR ''/'' # p) ps)"

definition sample_env :: "Request list \<Rightarrow> QueryReq list \<Rightarrow> (sample, sraft) env" where
  "sample_env rs qs =
     \<lparr>e_drv = sample_driver, e_flt = (\<lambda>_ _ _. None), e_raft = sample_raft, e_pb = sample_pb rs qs,
      e_gz = sample_gzip, e_join = sample_join, e_walk = (\<lambda>_ _. [Inr (True, 0), Inr (False, 32)]),
      e_zap = None\<rparr>"

lemma sample_env_parts [simp]: "e_pb (sample_env rs qs) = sample_pb rs qs" "e_raft (sample_env rs qs) = sample_raft"
  by (simp_all add: sample_env_def)

lemma sample_marshal:
  "pb_Marshal_Request (sample_pb (r # rs) qs) r = Inr []" "pb_Marshal_QueryReq (sample_pb rs (q # qs)) q = Inr []"
  "pb_Marshal_Action (sample_pb rs qs) \<lparr>act_Type = Action_ACTION_EXECUTE, act_Body = b\<rparr> = Inr (1 # b)"
  "pb_Marshal_Action (sample_pb rs qs) \<lparr>act_Type = Action_ACTION_QUERY, act_Body = b\<rparr> = Inr (0 # b)"
  by (simp_all add: sample_pb_def enc_tab_def Action_ACTION_EXECUTE_def Action_ACTION_QUERY_def)

end
