(* ===== verification/Consensus.thy ===== *)
theory Consensus
  imports Sample_Node
begin

text \<open>
  Package \<open>consensus\<close> (\<^verbatim>\<open>consensus/consensus.go\<close>): a node's replicated store. The record
  \<open>Consensus\<close> has the struct's fields, with the raft handle replaced by raft's state and
  the host's world beside it. The operations take the environment of the node and return the
  new node; a panic of the state machine ends the process, so they return \<open>'a go\<close>.

  The mutexes \<open>txmu\<close> and \<open>idxmu\<close> have no effect on a sequence of calls; what \<open>txmu\<close> is
  for is the subject of theory \<open>Locks\<close>. Logging is left out.
\<close>

section \<open>The node\<close>

text \<open>\<open>Config.Raft\<close> embeds \<open>raft.Config\<close> and shadows its \<open>SnapshotThreshold\<close>.\<close>

record Config =
  cfg_Raft :: raftConfig
  cfg_Bootstrap :: bool
  cfg_SnapshotThreshold :: uint64
  cfg_TransportAddr :: string

record ('c, 'r) Consensus =
  c_config :: Config
  c_raftDir :: string
  c_raft :: 'r
  c_db :: Engine
  c_dbPath :: string
  c_lastIdx :: uint64
  c_world :: "'c world"

section \<open>The state machine\<close>

text \<open>What \<open>Apply\<close> returns to raft (an \<open>interface{}\<close>).\<close>

datatype fsmResp =
    RNil
  | RExec "ExecRes list option" "goerr option"
  | RQuery "QueryRes list option" "goerr option"
  | RError goerr

text \<open>\<open>db.Query\<close> on a request pointer: the connection is taken before the pointer is read.\<close>

definition Query_ptr ::
  "'c driver \<Rightarrow> Engine \<Rightarrow> Request option \<Rightarrow> 'c world \<Rightarrow>
     (QueryRes list option \<times> goerr option) go \<times> 'c world" where
  "Query_ptr drv eng req w =
     (case req of
        Some r \<Rightarrow> Engine_Query drv eng r w
      | None \<Rightarrow>
          (case DB_Conn drv (eng_readDB eng) w of
            (Some err, w1) \<Rightarrow> (Ret (None, Some err), w1)
          | (None, w1) \<Rightarrow> (Panic ''invalid memory address or nil pointer dereference'', w1)))"

definition applyAction ::
  "('c, 'r) env \<Rightarrow> bytes \<Rightarrow> Engine \<Rightarrow> 'c world \<Rightarrow> fsmResp go \<times> 'c world" where
  "applyAction env data db w =
     (case pb_Unmarshal_Action (e_pb env) data of
        Inl _ \<Rightarrow> (Panic ''failed to unmarshal cluster command'', w)
      | Inr ac \<Rightarrow>
          if act_Type ac = Action_ACTION_EXECUTE then
            (case pb_Unmarshal_Request (e_pb env) (act_Body ac) of
              Inl _ \<Rightarrow> (Panic ''failed to unmarshal execute request'', w)
            | Inr execAc \<Rightarrow>
                (case Engine_Exec (e_drv env) db execAc w of
                  ((res, err), w') \<Rightarrow> (Ret (RExec res err), w')))
          else if act_Type ac = Action_ACTION_QUERY then
            (case pb_Unmarshal_QueryReq (e_pb env) (act_Body ac) of
              Inl _ \<Rightarrow> (Panic ''failed to unmarshal execute request'', w)
            | Inr execAc \<Rightarrow>
                (case Query_ptr (e_drv env) db (qreq_Request execAc) w of
                  (Panic s, w') \<Rightarrow> (Panic s, w')
                | (Ret (res, err), w') \<Rightarrow> (Ret (RQuery res err), w')))
          else (Ret RNil, w))"

definition Apply ::
  "('c, 'r) env \<Rightarrow> raftLog \<Rightarrow> ('c, 'r) Consensus \<Rightarrow> fsmResp go \<times> ('c, 'r) Consensus" where
  "Apply env rec c =
     (case applyAction env (log_Data rec) (c_db c) (c_world c) of
        (r, w') \<Rightarrow> (r, c\<lparr>c_world := w', c_lastIdx := log_Index rec\<rparr>))"

text \<open>The state machine's goroutine on a run of committed entries: a panic ends it.\<close>

fun apply_entries ::
  "('c, 'r) env \<Rightarrow> raftLog list \<Rightarrow> ('c, 'r) Consensus \<Rightarrow> ('c, 'r) Consensus go" where
  "apply_entries env [] c = Ret c"
| "apply_entries env (rec # recs) c =
     (case Apply env rec c of
        (Panic s, _) \<Rightarrow> Panic s
      | (Ret _, c') \<Rightarrow> apply_entries env recs c')"

text \<open>\<open>raft.Apply(data, timeout)\<close> and its future's \<open>Error\<close> and \<open>Response\<close>.\<close>

definition raft_Apply ::
  "('c, 'r) env \<Rightarrow> bytes \<Rightarrow> ('c, 'r) Consensus \<Rightarrow> ((goerr + fsmResp) \<times> ('c, 'r) Consensus) go" where
  "raft_Apply env data c =
     (case rf_Apply (e_raft env) data (c_raft c) of
        (Inl err, r') \<Rightarrow> Ret (Inl err, c\<lparr>c_raft := r'\<rparr>)
      | (Inr (earlier, idx), r') \<Rightarrow>
          go_bind (apply_entries env earlier (c\<lparr>c_raft := r'\<rparr>)) (\<lambda>c1.
            case Apply env \<lparr>log_Index = idx, log_Data = data\<rparr> c1 of
              (Panic s, _) \<Rightarrow> Panic s
            | (Ret resp, c2) \<Rightarrow> Ret (Inr resp, c2)))"

section \<open>Execute and query\<close>

definition IsLeader :: "('c, 'r) env \<Rightarrow> ('c, 'r) Consensus \<Rightarrow> bool" where
  "IsLeader env c \<longleftrightarrow> rf_State (e_raft env) (c_raft c) = Leader"

definition LeaderAddr :: "('c, 'r) env \<Rightarrow> ('c, 'r) Consensus \<Rightarrow> string" where
  "LeaderAddr env c = rf_Leader (e_raft env) (c_raft c)"

text \<open>\<open>future.Error()\<close>, with raft's not-leader error replaced by the project's own.\<close>

definition future_err :: "goerr \<Rightarrow> goerr" where
  "future_err err = (if err = RaftErrNotLeader then ErrNotLeader else err)"

definition apply_cmd ::
  "('c, 'r) env \<Rightarrow> Action_Type \<Rightarrow> goerr + bytes \<Rightarrow> ('c, 'r) Consensus \<Rightarrow>
     ((goerr + fsmResp) \<times> ('c, 'r) Consensus) go" where
  "apply_cmd env ty marshalled c =
     (case marshalled of
        Inl err \<Rightarrow> Ret (Inl err, c)
      | Inr messageBytes \<Rightarrow>
     (case pb_Marshal_Action (e_pb env) \<lparr>act_Type = ty, act_Body = messageBytes\<rparr> of
        Inl err \<Rightarrow> Ret (Inl err, c)
      | Inr encodedAction \<Rightarrow>
          go_bind (raft_Apply env encodedAction c) (\<lambda>(r, c').
            case r of
              Inl err \<Rightarrow> Ret (Inl (future_err err), c')
            | Inr (RError err) \<Rightarrow> Ret (Inl err, c')
            | Inr res \<Rightarrow> Ret (Inr res, c'))))"

definition Exec ::
  "('c, 'r) env \<Rightarrow> Request \<Rightarrow> ('c, 'r) Consensus \<Rightarrow>
     ((ExecRes list option \<times> goerr option) \<times> ('c, 'r) Consensus) go" where
  "Exec env req c =
     (if \<not> IsLeader env c then Ret ((None, Some ErrNotLeader), c)
      else go_bind
        (apply_cmd env Action_ACTION_EXECUTE (pb_Marshal_Request (e_pb env) req) c)
        (\<lambda>(r, c').
          case r of
            Inl err \<Rightarrow> Ret ((None, Some err), c')
          | Inr (RExec res err) \<Rightarrow> Ret ((res, err), c')
          | Inr _ \<Rightarrow> Panic ''interface conversion: interface {} is not *consensus.execResponse''))"

definition Query ::
  "('c, 'r) env \<Rightarrow> QueryReq \<Rightarrow> ('c, 'r) Consensus \<Rightarrow>
     ((QueryRes list option \<times> goerr option) \<times> ('c, 'r) Consensus) go" where
  "Query env q c =
     (if qreq_StrongConsistency q then
        (if \<not> IsLeader env c then Ret ((None, Some ErrNotLeader), c)
         else (case pb_Marshal_QueryReq (e_pb env) q of
           Inl err \<Rightarrow> Ret ((None, Some err), c)
         | Inr b \<Rightarrow>
        (case pb_Marshal_Action (e_pb env) \<lparr>act_Type = Action_ACTION_QUERY, act_Body = b\<rparr> of
           Inl err \<Rightarrow> Ret ((None, Some err), c)
         | Inr b2 \<Rightarrow>
             go_bind (raft_Apply env b2 c) (\<lambda>(r, c').
               case r of
                 Inl err \<Rightarrow> Ret ((None, Some (future_err err)), c')
               | Inr (RQuery res err) \<Rightarrow> Ret ((res, err), c')
               | Inr _ \<Rightarrow> Panic ''interface conversion: interface {} is not *consensus.queryResponse''))))
      else (case qreq_Request q of
        None \<Rightarrow> Panic ''invalid memory address or nil pointer dereference''
      | Some req \<Rightarrow>
          (case Engine_Query (e_drv env) (c_db c) req (c_world c) of
            (Panic s, _) \<Rightarrow> Panic s
          | (Ret res, w') \<Rightarrow> Ret (res, c\<lparr>c_world := w'\<rparr>))))"

section \<open>Snapshot and restore\<close>

text \<open>\<open>newSnapshot\<close> ignores the error of \<open>Serialize\<close>.\<close>

definition newSnapshot :: "'c fault \<Rightarrow> Engine \<Rightarrow> 'c world \<Rightarrow> snapshot" where
  "newSnapshot flt db w = \<lparr>snap_database = fst (Serialize flt db w)\<rparr>"

definition Consensus_Snapshot ::
  "('c, 'r) env \<Rightarrow> ('c, 'r) Consensus \<Rightarrow> snapshot \<times> goerr option" where
  "Consensus_Snapshot env c = (newSnapshot (e_flt env) (c_db c) (c_world c), None)"

definition createDiskDatabase ::
  "('c, 'r) env \<Rightarrow> bytes option \<Rightarrow> string \<Rightarrow> 'c world \<Rightarrow> (goerr + Engine) \<times> 'c world" where
  "createDiskDatabase env b path w =
     (case os_Remove (e_flt env) path w of
        (e, w1) \<Rightarrow>
          if e \<noteq> None \<and> \<not> os_IsNotExist (the e) then (Inl (the e), w1)
          else (case b of
            None \<Rightarrow> Open (e_drv env) path w1
          | Some d \<Rightarrow>
              (case os_WriteFile (e_flt env) path d w1 of
                (Some err, w2) \<Rightarrow> (Inl err, w2)
              | (None, w2) \<Rightarrow> Open (e_drv env) path w2)))"

definition Restore ::
  "('c, 'r) env \<Rightarrow> readall \<Rightarrow> ('c, 'r) Consensus \<Rightarrow> (goerr option \<times> ('c, 'r) Consensus) go" where
  "Restore env rc c =
     go_bind (snapshotToBytes (e_gz env) rc) (\<lambda>r.
       case r of
         Inl err \<Rightarrow> Ret (Some (ErrMsg (''repb failed: '' @ err_text err)), c)
       | Inr b \<Rightarrow>
           (case Engine_Close (e_drv env) (c_db c) (c_world c) of
             (Some err, db, w1) \<Rightarrow>
               Ret (Some (ErrMsg (''failed to close pre-repb database: '' @ err_text err)),
                    c\<lparr>c_db := db, c_world := w1\<rparr>)
           | (None, db, w1) \<Rightarrow>
               (case createDiskDatabase env b (c_dbPath c) w1 of
                 (Inl err, w2) \<Rightarrow>
                   Ret (Some (ErrMsg (''cannot open disk database '' @ err_text err)),
                        c\<lparr>c_db := db, c_world := w2\<rparr>)
               | (Inr db2, w2) \<Rightarrow> Ret (None, c\<lparr>c_db := db2, c_world := w2\<rparr>))))"

section \<open>Starting and stopping a node\<close>

definition setupDB ::
  "('c, 'r) env \<Rightarrow> string \<Rightarrow> 'c world \<Rightarrow> (goerr + Engine) \<times> 'c world" where
  "setupDB env dataDir w =
     (let dbDir = e_join env [dataDir, ''db''] in
      case os_MkdirAll (e_flt env) dbDir w of
        (Some err, w1) \<Rightarrow> (Inl err, w1)
      | (None, w1) \<Rightarrow> Open (e_drv env) (e_join env [dbDir, ''sqlite.db'']) w1)"

text \<open>
  The raft configuration: the defaults, with the node's own threshold and id, and its
  timeouts where they are set.
\<close>

definition merge_config :: "raftConfig \<Rightarrow> Config \<Rightarrow> raftConfig" where
  "merge_config dflt cfg =
     (let own = cfg_Raft cfg; pick = (\<lambda>x d. if x \<noteq> (0 :: int64) then x else d) in
      \<lparr>rc_LocalID = rc_LocalID own,
       rc_SnapshotThreshold = cfg_SnapshotThreshold cfg,
       rc_HeartbeatTimeout = pick (rc_HeartbeatTimeout own) (rc_HeartbeatTimeout dflt),
       rc_ElectionTimeout = pick (rc_ElectionTimeout own) (rc_ElectionTimeout dflt),
       rc_LeaderLeaseTimeout = pick (rc_LeaderLeaseTimeout own) (rc_LeaderLeaseTimeout dflt),
       rc_CommitTimeout = pick (rc_CommitTimeout own) (rc_CommitTimeout dflt)\<rparr>)"

definition start_raft :: "'r raft \<Rightarrow> Config \<Rightarrow> goerr + 'r" where
  "start_raft rf cfg =
     (let config = merge_config (rf_DefaultConfig rf) cfg in
      case rf_NewRaft rf config of
        Inl err \<Rightarrow> Inl err
      | Inr r \<Rightarrow>
     (case rf_HasExistingState rf of
        Inl err \<Rightarrow> Inl err
      | Inr hasState \<Rightarrow>
          if cfg_Bootstrap cfg \<and> \<not> hasState then
            (case rf_BootstrapCluster rf
                    [\<lparr>rs_ID = rc_LocalID config, rs_Address = cfg_TransportAddr cfg\<rparr>] r of
              (Some err, _) \<Rightarrow> Inl err
            | (None, r') \<Rightarrow> Inr r')
          else Inr r))"

definition setupRaft ::
  "('c, 'r) env \<Rightarrow> string \<Rightarrow> Config \<Rightarrow> 'c world \<Rightarrow> (goerr + 'r) \<times> 'c world" where
  "setupRaft env dataDir cfg w =
     (case os_Mkdir (e_flt env) (e_join env [dataDir, ''raft'']) w of
        (Some err, w1) \<Rightarrow> (Inl err, w1)
      | (None, w1) \<Rightarrow>
     (case rf_NewBoltStore (e_raft env) (e_join env [dataDir, ''raft'', ''raft.db'']) of
        Some err \<Rightarrow> (Inl err, w1)
      | None \<Rightarrow>
     (case rf_NewFileSnapshotStore (e_raft env) (e_join env [dataDir, ''raft'']) of
        Some err \<Rightarrow> (Inl err, w1)
      | None \<Rightarrow> (start_raft (e_raft env) cfg, w1))))"

text \<open>No statement of \<open>NewDB\<close> sets \<open>dbPath\<close>.\<close>

definition NewDB ::
  "('c, 'r) env \<Rightarrow> string \<Rightarrow> Config \<Rightarrow> 'c world \<Rightarrow> (goerr + ('c, 'r) Consensus) \<times> 'c world" where
  "NewDB env dataDir cfg w =
     (case setupDB env dataDir w of
        (Inl err, w1) \<Rightarrow> (Inl err, w1)
      | (Inr db, w1) \<Rightarrow>
     (case setupRaft env dataDir cfg w1 of
        (Inl err, w2) \<Rightarrow> (Inl err, w2)
      | (Inr r, w2) \<Rightarrow>
     (case e_zap env of
        Some err \<Rightarrow> (Inl err, w2)
      | None \<Rightarrow>
          (Inr \<lparr>c_config = cfg, c_raftDir = dataDir, c_raft = r, c_db = db, c_dbPath = '''',
                c_lastIdx = 0, c_world = w2\<rparr>, w2))))"

definition Close ::
  "('c, 'r) env \<Rightarrow> ('c, 'r) Consensus \<Rightarrow> goerr option \<times> ('c, 'r) Consensus" where
  "Close env c =
     (case rf_Shutdown (e_raft env) (c_raft c) of
        (Some err, r') \<Rightarrow> (Some err, c\<lparr>c_raft := r'\<rparr>)
      | (None, r') \<Rightarrow>
          (case Engine_Close (e_drv env) (c_db c) (c_world c) of
            (e, db, w') \<Rightarrow> (e, c\<lparr>c_raft := r', c_db := db, c_world := w'\<rparr>)))"

section \<open>Waiting\<close>

text \<open>
  The \<open>select\<close> loops of \<open>WaitForIndex\<close> and \<open>WaitForLeader\<close>: each round receives from the
  ticker, and then reads the node as it is at that moment, or from the timer. \<open>None\<close>: the
  call is still waiting after these rounds.
\<close>

datatype 's wake = Tick 's | Timer

fun WaitForIndex ::
  "uint64 \<Rightarrow> ('c, 'r) Consensus wake list \<Rightarrow> (uint64 \<times> goerr option) option" where
  "WaitForIndex idx [] = None"
| "WaitForIndex idx (Timer # evs) = Some (0, Some (ErrMsg ''timeout expired''))"
| "WaitForIndex idx (Tick c # evs) =
     (let idx2 = c_lastIdx c in if idx2 \<ge> idx then Some (idx2, None) else WaitForIndex idx evs)"

fun WaitForLeader ::
  "('c, 'r) env \<Rightarrow> ('c, 'r) Consensus wake list \<Rightarrow> goerr option option" where
  "WaitForLeader env [] = None"
| "WaitForLeader env (Timer # evs) = Some (Some (ErrMsg ''wait for leader timeout expired''))"
| "WaitForLeader env (Tick c # evs) =
     (if LeaderAddr env c \<noteq> '''' then Some None else WaitForLeader env evs)"

section \<open>Servers and metrics\<close>

definition GetServers :: "('c, 'r) env \<Rightarrow> ('c, 'r) Consensus \<Rightarrow> goerr + Server list" where
  "GetServers env c =
     (case rf_GetConfiguration (e_raft env) (c_raft c) of
        Inl err \<Rightarrow> Inl err
      | Inr servers \<Rightarrow>
          Inr (map (\<lambda>server. \<lparr>srv_Id = rs_ID server, srv_RpcAddr = rs_Address server,
                     srv_IsLeader = (rf_Leader (e_raft env) (c_raft c) = rs_Address server)\<rparr>)
                servers))"

text \<open>The callback of \<open>filepath.Walk\<close> adds to an \<open>int64\<close>; its first error ends the walk.\<close>

fun walk_sizes :: "(goerr + (bool \<times> int64)) list \<Rightarrow> int64 \<Rightarrow> int64 \<times> goerr option" where
  "walk_sizes [] sz = (sz, None)"
| "walk_sizes (Inl err # evs) sz = (sz, Some err)"
| "walk_sizes (Inr (isDir, n) # evs) sz = walk_sizes evs (if isDir then sz else sz + n)"

definition getDirectorySize :: "('c, 'r) env \<Rightarrow> string \<Rightarrow> 'c world \<Rightarrow> int64 \<times> goerr option" where
  "getDirectorySize env path w = walk_sizes (e_walk env path w) 0"

record NodeMetrics =
  nm_node_id :: string
  nm_leader :: string
  nm_directory :: string
  nm_raft_directory_size :: int64
  nm_database_size :: int64

definition Metrics ::
  "('c, 'r) env \<Rightarrow> ('c, 'r) Consensus \<Rightarrow> ((goerr + NodeMetrics) \<times> ('c, 'r) Consensus) go" where
  "Metrics env c =
     (case Size (e_drv env) (c_db c) (c_world c) of
        (Panic s, _) \<Rightarrow> Panic s
      | (Ret (_, Some err), w') \<Rightarrow> Ret (Inl err, c\<lparr>c_world := w'\<rparr>)
      | (Ret (databaseSize, None), w') \<Rightarrow>
          (case getDirectorySize env (c_raftDir c) w' of
            (_, Some err) \<Rightarrow> Ret (Inl err, c\<lparr>c_world := w'\<rparr>)
          | (raftDirSize, None) \<Rightarrow>
              Ret (Inr \<lparr>nm_node_id = rc_LocalID (cfg_Raft (c_config c)),
                        nm_leader = LeaderAddr env c,
                        nm_directory = c_raftDir c,
                        nm_raft_directory_size = raftDirSize,
                        nm_database_size = databaseSize\<rparr>, c\<lparr>c_world := w'\<rparr>)))"

section \<open>A node to evaluate on\<close>

definition sample_cfg :: Config where
  "sample_cfg =
     \<lparr>cfg_Raft = \<lparr>rc_LocalID = ''n0'', rc_SnapshotThreshold = 0, rc_HeartbeatTimeout = 50,
        rc_ElectionTimeout = 50, rc_LeaderLeaseTimeout = 50, rc_CommitTimeout = 5\<rparr>,
      cfg_Bootstrap = True, cfg_SnapshotThreshold = 10000, cfg_TransportAddr = ''127.0.0.1:9000''\<rparr>"

definition sample_node :: "string list \<Rightarrow> (sample, sraft) Consensus" where
  "sample_node v =
     \<lparr>c_config = sample_cfg, c_raftDir = ''d'',
      c_raft = \<lparr>sr_state = Leader, sr_servers = [\<lparr>rs_ID = ''n0'', rs_Address = ''127.0.0.1:9000''\<rparr>], sr_next = 1\<rparr>,
      c_db = sample_engine, c_dbPath = '''', c_lastIdx = 0, c_world = sample_world v\<rparr>"

text \<open>What the sample node needs of its parameters to commit a write or a strong read.\<close>

lemma sample_commit:
  assumes "e_pb env = sample_pb rs qs" and "e_raft env = sample_raft"
  shows "pb_laws (e_pb env)" "IsLeader env (sample_node v)"
    "rf_Apply (e_raft env) d (c_raft (sample_node v)) = (Inr ([], 1), (c_raft (sample_node v))\<lparr>sr_next := 2\<rparr>)"
  using assms by (simp_all add: sample_pb_laws IsLeader_def sample_raft_def sample_node_def)

lemma sample_commit_exec:
  assumes "e_pb env = sample_pb (r # rs) qs"
  shows "pb_Marshal_Request (e_pb env) r = Inr []"
    "pb_Marshal_Action (e_pb env) \<lparr>act_Type = Action_ACTION_EXECUTE, act_Body = []\<rparr> = Inr [1]"
  using assms by (simp_all add: sample_marshal)

lemma sample_commit_query:
  assumes "e_pb env = sample_pb rs (q # qs)"
  shows "pb_Marshal_QueryReq (e_pb env) q = Inr []"
    "pb_Marshal_Action (e_pb env) \<lparr>act_Type = Action_ACTION_QUERY, act_Body = []\<rparr> = Inr [0]"
  using assms by (simp_all add: sample_marshal)

definition sample_follower :: "string list \<Rightarrow> (sample, sraft) Consensus" where
  "sample_follower v = (sample_node v)\<lparr>c_raft := (c_raft (sample_node v))\<lparr>sr_state := Follower\<rparr>\<rparr>"

section \<open>Lemmas\<close>

declare applyAction_def [consensus_defs] Apply_def [consensus_defs] raft_Apply_def [consensus_defs]
  apply_cmd_def [consensus_defs] Exec_def [consensus_defs] Query_def [consensus_defs]

lemma applyAction_execute:
  assumes "pb_laws (e_pb env)" and "no_nil_params req" and "pb_Marshal_Request (e_pb env) req = Inr b"
    and "pb_Marshal_Action (e_pb env) \<lparr>act_Type = Action_ACTION_EXECUTE, act_Body = b\<rparr> = Inr d"
  shows "applyAction env d db w =
    (case Engine_Exec (e_drv env) db req w of ((res, err), w') \<Rightarrow> (Ret (RExec res err), w'))"
proof -
  have "pb_Unmarshal_Action (e_pb env) d = Inr \<lparr>act_Type = Action_ACTION_EXECUTE, act_Body = b\<rparr>"
    "pb_Unmarshal_Request (e_pb env) b = Inr req"
    using assms unfolding pb_laws_def by blast+
  then show ?thesis by (simp add: applyAction_def)
qed

lemma applyAction_query:
  assumes "pb_laws (e_pb env)" and "qreq_Request q = Some req" and "no_nil_params req"
    and "pb_Marshal_QueryReq (e_pb env) q = Inr b"
    and "pb_Marshal_Action (e_pb env) \<lparr>act_Type = Action_ACTION_QUERY, act_Body = b\<rparr> = Inr d"
  shows "applyAction env d db w =
    (case Engine_Query (e_drv env) db req w of
       (Panic s, w') \<Rightarrow> (Panic s, w') | (Ret (res, err), w') \<Rightarrow> (Ret (RQuery res err), w'))"
proof -
  have "\<forall>r. qreq_Request q = Some r \<longrightarrow> no_nil_params r" using assms(2,3) by simp
  then have "pb_Unmarshal_Action (e_pb env) d = Inr \<lparr>act_Type = Action_ACTION_QUERY, act_Body = b\<rparr>"
    "pb_Unmarshal_QueryReq (e_pb env) b = Inr q"
    using assms(1,4,5) unfolding pb_laws_def by blast+
  with assms(2) show ?thesis by (simp add: applyAction_def Query_ptr_def)
qed

lemma Apply_frame:
  "Apply env rec c = (r, c') \<Longrightarrow>
     c_config c' = c_config c \<and> c_raftDir c' = c_raftDir c \<and> c_raft c' = c_raft c \<and>
     c_db c' = c_db c \<and> c_dbPath c' = c_dbPath c \<and> c_lastIdx c' = log_Index rec"
  by (auto simp: Apply_def split: prod.splits)

lemma apply_entries_frame:
  "apply_entries env recs c = Ret c' \<Longrightarrow>
     c_config c' = c_config c \<and> c_raftDir c' = c_raftDir c \<and> c_raft c' = c_raft c \<and>
     c_db c' = c_db c \<and> c_dbPath c' = c_dbPath c \<and>
     c_lastIdx c' = (if recs = [] then c_lastIdx c else log_Index (last recs))"
proof (induction recs arbitrary: c)
  case (Cons rec recs)
  then obtain r c1 where "Apply env rec c = (Ret r, c1)" "apply_entries env recs c1 = Ret c'"
    by (auto split: prod.splits go.splits)
  with Cons.IH [OF this(2)] Apply_frame [OF this(1)] show ?case by auto
qed simp

lemma apply_entries_append:
  "apply_entries env (xs @ ys) c = go_bind (apply_entries env xs c) (apply_entries env ys)"
  by (induction xs arbitrary: c) (auto split: prod.splits go.splits)

section \<open>Properties\<close>

text \<open>What \<open>Exec\<close> is on the leader once raft commits its entry.\<close>

lemma Exec_committed:
  assumes "pb_laws (e_pb env)" and "no_nil_params req" and "IsLeader env c"
    and "pb_Marshal_Request (e_pb env) req = Inr b"
    and "pb_Marshal_Action (e_pb env) \<lparr>act_Type = Action_ACTION_EXECUTE, act_Body = b\<rparr> = Inr d"
    and "rf_Apply (e_raft env) d (c_raft c) = (Inr (earlier, idx), r')"
    and "apply_entries env earlier (c\<lparr>c_raft := r'\<rparr>) = Ret c1"
  shows "Exec env req c =
    (case Engine_Exec (e_drv env) (c_db c) req (c_world c1) of
       (out, w') \<Rightarrow> Ret (out, c\<lparr>c_raft := r', c_lastIdx := idx, c_world := w'\<rparr>))"
proof -
  have c1: "c_db c1 = c_db c"
    "c1\<lparr>c_world := w', c_lastIdx := idx\<rparr> = c\<lparr>c_raft := r', c_lastIdx := idx, c_world := w'\<rparr>" for w'
    using apply_entries_frame [OF assms(7)] by (cases c; cases c1; simp)+
  then show ?thesis
    using assms(3-7) applyAction_execute [OF assms(1,2,4,5), of "c_db c" "c_world c1"]
    by (simp add: Exec_def apply_cmd_def raft_Apply_def Apply_def split: prod.split)
qed

text \<open>
  \<open>Exec\<close> on the leader is \<open>Exec\<close> on the engine at the place raft gave the entry: once raft
  commits the marshalled request at an index, the engine runs exactly that request on the
  database left by the entries before it, its results and error come back unchanged, the
  index is recorded, and nothing else of the node changes.
\<close>
theorem exec_on_leader_refines_engine:
  assumes "pb_laws (e_pb env)" and "no_nil_params req" and "IsLeader env c"
    and "pb_Marshal_Request (e_pb env) req = Inr b"
    and "pb_Marshal_Action (e_pb env) \<lparr>act_Type = Action_ACTION_EXECUTE, act_Body = b\<rparr> = Inr d"
    and "rf_Apply (e_raft env) d (c_raft c) = (Inr (earlier, idx), r')"
    and "apply_entries env earlier (c\<lparr>c_raft := r'\<rparr>) = Ret c1"
    and "Engine_Exec (e_drv env) (c_db c) req (c_world c1) = ((res, err), w')"
  shows "Exec env req c = Ret ((res, err), c\<lparr>c_raft := r', c_lastIdx := idx, c_world := w'\<rparr>)"
  using Exec_committed [OF assms(1-7)] assms(8) by simp

theorem exec_on_leader_refines_engine_witness:
  "let req = sample_request True [''I1'', ''I2''] in
   map_go (\<lambda>((res, err), c'). (err, c_lastIdx c', sp_base sample_spec (c_world c')))
     (Exec (sample_env [req] []) req (sample_node [''I0''])) = Ret (None, 1, [''I0'', ''I1'', ''I2''])"
proof -
  let ?req = "sample_request True [''I1'', ''I2'']"
  let ?env = "sample_env [?req] []"
  let ?c = "sample_node [''I0'']"
  let ?r' = "(c_raft ?c)\<lparr>sr_next := 2\<rparr>"
  let ?c1 = "?c\<lparr>c_raft := ?r'\<rparr>"
  let ?x = "Engine_Exec (e_drv ?env) (c_db ?c) ?req (c_world ?c1)"
  note laws = sample_commit(1) [OF sample_env_parts] and ld = sample_commit(2) [OF sample_env_parts]
    and m = sample_commit_exec [OF sample_env_parts(1)] and ap = sample_commit(3) [OF sample_env_parts]
  have nn: "no_nil_params ?req" by (simp add: no_nil_params_def sample_request_def)
  have x: "?x = ((fst (fst ?x), snd (fst ?x)), snd ?x)" by simp
  have v: "snd (fst ?x) = None" "sp_base sample_spec (snd ?x) = [''I0'', ''I1'', ''I2'']"
    by code_simp+
  from exec_on_leader_refines_engine [OF laws nn ld m ap apply_entries.simps(1) x] v show ?thesis
    by (simp add: Let_def case_prod_beta)
qed


text \<open>What a strong \<open>Query\<close> is on the leader once raft commits its entry.\<close>

lemma Query_committed:
  assumes "pb_laws (e_pb env)" and "qreq_Request q = Some req" and "no_nil_params req"
    and "qreq_StrongConsistency q" and "IsLeader env c"
    and "pb_Marshal_QueryReq (e_pb env) q = Inr b"
    and "pb_Marshal_Action (e_pb env) \<lparr>act_Type = Action_ACTION_QUERY, act_Body = b\<rparr> = Inr d"
    and "rf_Apply (e_raft env) d (c_raft c) = (Inr (earlier, idx), r')"
    and "apply_entries env earlier (c\<lparr>c_raft := r'\<rparr>) = Ret c1"
  shows "Query env q c =
    (case Engine_Query (e_drv env) (c_db c) req (c_world c1) of
       (Ret (res, err), w') \<Rightarrow> Ret ((res, err), c\<lparr>c_raft := r', c_lastIdx := idx, c_world := w'\<rparr>)
     | (Panic s, w') \<Rightarrow> Panic s)"
proof -
  have c1: "c_db c1 = c_db c"
    "c1\<lparr>c_world := w', c_lastIdx := idx\<rparr> = c\<lparr>c_raft := r', c_lastIdx := idx, c_world := w'\<rparr>" for w'
    using apply_entries_frame [OF assms(9)] by (cases c; cases c1; simp)+
  then show ?thesis
    using assms(4-9) applyAction_query [OF assms(1-3,6,7), of "c_db c" "c_world c1"]
    by (simp add: Query_def raft_Apply_def Apply_def split: prod.split go.splits)
qed

text \<open>
  A strongly consistent query on the leader is a query on the engine at its place in the
  log: once raft commits it at an index, the results are those of the engine on the
  database left by all the entries before it, whatever the follower count or the weak
  queries in between, and the index is recorded.
\<close>
theorem strong_query_refines_engine:
  assumes "pb_laws (e_pb env)" and "qreq_Request q = Some req" and "no_nil_params req"
    and "qreq_StrongConsistency q" and "IsLeader env c"
    and "pb_Marshal_QueryReq (e_pb env) q = Inr b"
    and "pb_Marshal_Action (e_pb env) \<lparr>act_Type = Action_ACTION_QUERY, act_Body = b\<rparr> = Inr d"
    and "rf_Apply (e_raft env) d (c_raft c) = (Inr (earlier, idx), r')"
    and "apply_entries env earlier (c\<lparr>c_raft := r'\<rparr>) = Ret c1"
    and "Engine_Query (e_drv env) (c_db c) req (c_world c1) = (out, w')"
  shows "Query env q c =
    (case out of
       Ret (res, err) \<Rightarrow> Ret ((res, err), c\<lparr>c_raft := r', c_lastIdx := idx, c_world := w'\<rparr>)
     | Panic s \<Rightarrow> Panic s)"
  using Query_committed [OF assms(1-9)] assms(10) by (simp split: go.split prod.split)

definition sample_strong :: "string list \<Rightarrow> QueryReq" where
  "sample_strong sqls = \<lparr>qreq_Request = Some (sample_request False sqls), qreq_StrongConsistency = True\<rparr>"

theorem strong_query_refines_engine_witness:
  "let q = sample_strong [''SELECT 1''] in
   \<exists>res. map_go (\<lambda>((res, err), c'). (res, err, c_lastIdx c')) (Query (sample_env [] [q]) q (sample_node [''I0'']))
     = Ret (Some [res], None, 1) \<and> qres_Columns res = [''stmt''] \<and> length (qres_Values res) = 1"
proof -
  let ?q = "sample_strong [''SELECT 1'']"
  let ?req = "sample_request False [''SELECT 1'']"
  let ?env = "sample_env [] [?q]"
  let ?c = "sample_node [''I0'']"
  let ?r' = "(c_raft ?c)\<lparr>sr_next := 2\<rparr>"
  let ?c1 = "?c\<lparr>c_raft := ?r'\<rparr>"
  let ?x = "Engine_Query (e_drv ?env) (c_db ?c) ?req (c_world ?c1)"
  let ?res = "\<lparr>qres_Columns = [''stmt''], qres_Types = [''text''],
      qres_Values = [Some \<lparr>vals_Params = Some [Some (new_Parameter (Parameter_S ''I0''))]\<rparr>], qres_Error = ''''\<rparr>"
  note laws = sample_commit(1) [OF sample_env_parts] and ld = sample_commit(2) [OF sample_env_parts]
    and m = sample_commit_query [OF sample_env_parts(1)] and ap = sample_commit(3) [OF sample_env_parts]
  have q: "qreq_Request ?q = Some ?req" "qreq_StrongConsistency ?q" by (simp_all add: sample_strong_def)
  have nn: "no_nil_params ?req" by (simp add: no_nil_params_def sample_request_def)
  have x: "?x = (fst ?x, snd ?x)" by simp
  have v: "fst ?x = Ret (Some [?res], None)" by code_simp
  from strong_query_refines_engine [OF laws q(1) nn q(2) ld m ap apply_entries.simps(1) x] v show ?thesis
    by (simp add: Let_def)
qed

text \<open>
  When leadership is lost between the check and raft's \<open>Apply\<close>, raft's own not-leader
  error is turned into the project's \<open>ErrNotLeader\<close>, for \<open>Exec\<close> and for strong queries, so
  a client can always tell that it must go to another node; database and index keep
  their values.
\<close>
theorem lost_leadership_is_ErrNotLeader:
  assumes "IsLeader env c" and "rf_Apply (e_raft env) d (c_raft c) = (Inl RaftErrNotLeader, r')"
    and "pb_Marshal_Request (e_pb env) req = Inr b"
    and "pb_Marshal_Action (e_pb env) \<lparr>act_Type = Action_ACTION_EXECUTE, act_Body = b\<rparr> = Inr d"
    and "pb_Marshal_QueryReq (e_pb env) q = Inr bq" and "qreq_StrongConsistency q"
    and "pb_Marshal_Action (e_pb env) \<lparr>act_Type = Action_ACTION_QUERY, act_Body = bq\<rparr> = Inr dq"
    and "rf_Apply (e_raft env) dq (c_raft c) = (Inl RaftErrNotLeader, rq')"
  shows "Exec env req c = Ret ((None, Some ErrNotLeader), c\<lparr>c_raft := r'\<rparr>) \<and>
    Query env q c = Ret ((None, Some ErrNotLeader), c\<lparr>c_raft := rq'\<rparr>)"
  using assms by (simp add: Exec_def Query_def apply_cmd_def raft_Apply_def future_err_def)

definition lossy_env :: "Request \<Rightarrow> QueryReq \<Rightarrow> (sample, sraft) env" where
  "lossy_env r q =
     (sample_env [r] [q])\<lparr>e_raft :=
        sample_raft\<lparr>rf_Apply := (\<lambda>_ x. (Inl RaftErrNotLeader, x\<lparr>sr_state := Follower\<rparr>))\<rparr>\<rparr>"

theorem lost_leadership_is_ErrNotLeader_witness:
  "let r = sample_request True [''I1'']; q = sample_strong [''SELECT 1''] in
   map_go fst (Exec (lossy_env r q) r (sample_node [])) = Ret (None, Some ErrNotLeader) \<and>
   map_go fst (Query (lossy_env r q) q (sample_node [])) = Ret (None, Some ErrNotLeader)"
proof -
  let ?r = "sample_request True [''I1'']"
  let ?q = "sample_strong [''SELECT 1'']"
  let ?env = "lossy_env ?r ?q"
  let ?c = "sample_node []"
  let ?f = "(c_raft ?c)\<lparr>sr_state := Follower\<rparr>"
  have ld: "IsLeader ?env ?c" by code_simp
  have ap: "rf_Apply (e_raft ?env) x (c_raft ?c) = (Inl RaftErrNotLeader, ?f)" for x
    by (simp add: lossy_env_def)
  have m: "pb_Marshal_Request (e_pb ?env) ?r = Inr []"
    "pb_Marshal_Action (e_pb ?env) \<lparr>act_Type = Action_ACTION_EXECUTE, act_Body = []\<rparr> = Inr [1]"
    "pb_Marshal_QueryReq (e_pb ?env) ?q = Inr []" "qreq_StrongConsistency ?q"
    "pb_Marshal_Action (e_pb ?env) \<lparr>act_Type = Action_ACTION_QUERY, act_Body = []\<rparr> = Inr [0]"
    by code_simp+
  from lost_leadership_is_ErrNotLeader [OF ld ap m ap] show ?thesis by (simp add: Let_def)
qed


text \<open>
  A query without strong consistency is answered by this node alone, leader or not: the
  answer is the engine's on the local database, raft and the recorded index are not
  touched, and the content of the database stays as it was.
\<close>
theorem weak_query_is_local:
  assumes "\<not> qreq_StrongConsistency q" and "qreq_Request q = Some req"
    and "sqlite_read_laws (e_drv env) (db_dsn (eng_readDB (c_db c))) content"
    and "Query env q c = Ret ((res, err), c')"
  shows "Engine_Query (e_drv env) (c_db c) req (c_world c) = (Ret (res, err), c_world c') \<and>
    c' = c\<lparr>c_world := c_world c'\<rparr> \<and> content (c_world c') = content (c_world c)"
proof -
  from assms(1,2,4) have run: "Engine_Query (e_drv env) (c_db c) req (c_world c) = (Ret (res, err), c_world c')"
    "c' = c\<lparr>c_world := c_world c'\<rparr>"
    by (auto simp: Query_def split: prod.splits go.splits)
  with Engine_Query_content [OF assms(3), of req "c_world c"] show ?thesis by simp
qed

definition sample_weak :: "string list \<Rightarrow> QueryReq" where
  "sample_weak sqls = \<lparr>qreq_Request = Some (sample_request False sqls), qreq_StrongConsistency = False\<rparr>"

theorem weak_query_is_local_witness:
  "let env = (sample_env [] [])\<lparr>e_drv := sample_reader\<rparr> in
   \<exists>res err c'. Query env (sample_weak [''SELECT 1'']) (sample_follower [''I0'']) = Ret ((res, err), c') \<and>
     c_raft c' = c_raft (sample_follower [''I0'']) \<and> sm_base (conns (c_world c')) = [''I0'']"
proof -
  let ?env = "(sample_env [] [])\<lparr>e_drv := sample_reader\<rparr>"
  let ?c = "sample_follower [''I0'']"
  let ?x = "Query ?env (sample_weak [''SELECT 1'']) ?c"
  have r: "\<not> qreq_StrongConsistency (sample_weak [''SELECT 1''])"
    "qreq_Request (sample_weak [''SELECT 1'']) = Some (sample_request False [''SELECT 1''])"
    by (simp_all add: sample_weak_def)
  have laws: "sqlite_read_laws (e_drv ?env) (db_dsn (eng_readDB (c_db ?c))) (\<lambda>w. sm_base (conns w))"
    by (simp add: sample_read_laws)
  have "(case ?x of Ret _ \<Rightarrow> True | Panic _ \<Rightarrow> False)" "sm_base (conns (c_world ?c)) = [''I0'']"
    by code_simp+
  then obtain res err c' where x: "?x = Ret ((res, err), c')" and "sm_base (conns (c_world ?c)) = [''I0'']"
    by (auto split: go.splits)
  moreover have "c_raft (c\<lparr>c_world := w\<rparr>) = c_raft c" for c :: "(sample, sraft) Consensus" and w by simp
  ultimately show ?thesis
    unfolding Let_def using weak_query_is_local [OF r laws x] by metis
qed

text \<open>
  (C25) An entry on which the state machine panics stops every node that reaches it: a strong
  query whose engine call panics (for instance on a BLOB in a TEXT column) brings down the
  leader that serves it, and replaying a log that contains it panics at that entry, after
  a restart and on every other node alike.
\<close>
theorem poisoned_entry_stops_replay:
  assumes "pb_laws (e_pb env)" and "qreq_Request q = Some req" and "no_nil_params req"
    and "pb_Marshal_QueryReq (e_pb env) q = Inr b"
    and "pb_Marshal_Action (e_pb env) \<lparr>act_Type = Action_ACTION_QUERY, act_Body = b\<rparr> = Inr d"
    and "apply_entries env before c = Ret c1"
    and "fst (Engine_Query (e_drv env) (c_db c) req (c_world c1)) = Panic s"
  shows "apply_entries env (before @ \<lparr>log_Index = i, log_Data = d\<rparr> # after) c = Panic s"
proof -
  have "c_db c1 = c_db c" using apply_entries_frame [OF assms(6)] by simp
  then have "fst (Apply env \<lparr>log_Index = i, log_Data = d\<rparr> c1) = Panic s"
    using assms(7) applyAction_query [OF assms(1-5), of "c_db c" "c_world c1"]
    by (auto simp: Apply_def split: prod.splits)
  then show ?thesis
    using assms(6) by (auto simp: apply_entries_append split: prod.splits)
qed

definition blob_driver :: "sample driver" where
  "blob_driver =
     sample_driver\<lparr>drv_Query := (\<lambda>_ w _ _. (Inr \<lparr>rows_ColumnTypes = Inr [''TEXT''], rows_Columns = Inr [''a''],
        rows_Scan = [Inr [GBytes [255]]], rows_Err = None\<rparr>, w))\<rparr>"

theorem poisoned_entry_stops_replay_witness:
  "let q = sample_strong [''SELECT a FROM t''];
       env = (sample_env [] [q])\<lparr>e_drv := blob_driver\<rparr>
   in apply_entries env [\<lparr>log_Index = 5, log_Data = [0]\<rparr>] (sample_node []) =
        Panic ''invalid memory address or nil pointer dereference''"
proof -
  let ?q = "sample_strong [''SELECT a FROM t'']"
  let ?req = "sample_request False [''SELECT a FROM t'']"
  let ?env = "(sample_env [] [?q])\<lparr>e_drv := blob_driver\<rparr>"
  let ?c = "sample_node []"
  have laws: "pb_laws (e_pb ?env)" by (simp add: sample_env_def sample_pb_laws)
  have q: "qreq_Request ?q = Some ?req" by (simp add: sample_strong_def)
  have nn: "no_nil_params ?req" by (simp add: no_nil_params_def sample_request_def)
  have m: "pb_Marshal_QueryReq (e_pb ?env) ?q = Inr []"
    "pb_Marshal_Action (e_pb ?env) \<lparr>act_Type = Action_ACTION_QUERY, act_Body = []\<rparr> = Inr [0]"
    by code_simp+
  have e: "apply_entries ?env [] ?c = Ret ?c" by simp
  have p: "fst (Engine_Query (e_drv ?env) (c_db ?c) ?req (c_world ?c)) =
      Panic ''invalid memory address or nil pointer dereference''" by code_simp
  from poisoned_entry_stops_replay [OF laws q nn m e p, of 5 "[]"] show ?thesis by (simp add: Let_def)
qed


lemma WaitForIndex_skip:
  "\<forall>e \<in> set pre. \<exists>c. e = Tick c \<and> c_lastIdx c < idx \<Longrightarrow> WaitForIndex idx (pre @ evs) = WaitForIndex idx evs"
  by (induction pre) (auto simp: not_le [symmetric])

lemma WaitForIndex_found:
  "WaitForIndex idx evs = Some (i, None) \<Longrightarrow>
     \<exists>pre c post. evs = pre @ Tick c # post \<and> c_lastIdx c = i \<and> idx \<le> i \<and>
       (\<forall>e \<in> set pre. \<exists>c. e = Tick c \<and> c_lastIdx c < idx)"
proof (induction idx evs rule: WaitForIndex.induct)
  case (3 idx c evs)
  show ?case
  proof (cases "idx \<le> c_lastIdx c")
    case True
    with "3.prems" show ?thesis by (auto intro!: exI [of _ "[]"])
  next
    case False
    with 3 obtain pre c2 post where "evs = pre @ Tick c2 # post" "c_lastIdx c2 = i" "idx \<le> i"
      "\<forall>e \<in> set pre. \<exists>c. e = Tick c \<and> c_lastIdx c < idx"
      by (auto simp: Let_def)
    with False show ?thesis by (intro exI [of _ "Tick c # pre"] exI) auto
  qed
qed simp_all

lemma WaitForIndex_returns: "Timer \<in> set evs \<Longrightarrow> WaitForIndex idx evs \<noteq> None"
  by (induction idx evs rule: WaitForIndex.induct) (auto simp: Let_def)

text \<open>
  (C28) \<open>WaitForIndex\<close> succeeds exactly at the first tick that finds an applied index of at least
  the one asked for, with that index; it does return once its timer has fired; and a
  node that has applied a log up to such an index is found at its next tick.
\<close>
theorem wait_for_index_correct:
  "(WaitForIndex idx evs = Some (i, None) \<longleftrightarrow>
      (\<exists>pre c post. evs = pre @ Tick c # post \<and> c_lastIdx c = i \<and> idx \<le> i \<and>
         (\<forall>e \<in> set pre. \<exists>c. e = Tick c \<and> c_lastIdx c < idx))) \<and>
   (Timer \<in> set evs \<longrightarrow> WaitForIndex idx evs \<noteq> None) \<and>
   (apply_entries env (recs @ [rec]) c0 = Ret c1 \<and> idx \<le> log_Index rec \<longrightarrow>
      WaitForIndex idx (Tick c1 # evs) = Some (log_Index rec, None))"
proof (intro conjI impI iffI)
  assume "\<exists>pre c post. evs = pre @ Tick c # post \<and> c_lastIdx c = i \<and> idx \<le> i \<and>
         (\<forall>e \<in> set pre. \<exists>c. e = Tick c \<and> c_lastIdx c < idx)"
  then show "WaitForIndex idx evs = Some (i, None)" by (auto simp: WaitForIndex_skip)
next
  assume "apply_entries env (recs @ [rec]) c0 = Ret c1 \<and> idx \<le> log_Index rec"
  then show "WaitForIndex idx (Tick c1 # evs) = Some (log_Index rec, None)"
    using apply_entries_frame [of env "recs @ [rec]" c0 c1] by simp
qed (use WaitForIndex_found WaitForIndex_returns in blast)+

theorem wait_for_index_correct_witness:
  "WaitForIndex 5 [Tick (sample_node []), Timer] \<noteq> None"
  using wait_for_index_correct [of 5 "[Tick (sample_node []), Timer]"] by auto

text \<open>
  (C29) An error while the database is read for a snapshot is lost: \<open>Snapshot\<close> reports success
  with a nil database, and whatever sink it is then persisted to, reading the snapshot
  back yields "no database". A node restored from it deletes its file and starts empty.
\<close>
theorem failed_serialize_snapshots_nothing:
  assumes "Serialize (e_flt env) (c_db c) (c_world c) = (None, Some err)"
    and "gzip_laws (e_gz env)" and "sink_laws snk content" and "content k = []"
    and "Persist (e_gz env) snk (fst (Consensus_Snapshot env c)) k = (None, k')"
    and "length (content k') < 2 ^ 63"
  shows "snd (Consensus_Snapshot env c) = None \<and>
    snapshotToBytes (e_gz env) \<lparr>ra_err = None, ra_bytes = content k', ra_spare = spare\<rparr> = Ret (Inr None)"
  using assms(1) Persist_readback [OF assms(2-6), of spare]
  by (simp add: Consensus_Snapshot_def newSnapshot_def)

theorem failed_serialize_snapshots_nothing_witness:
  "let env = sample_env [] []; c = sample_node [''I0'']; s = Consensus_Snapshot env c;
       p = Persist sample_gzip (sample_sink 100) (fst s) []
   in snd s = None \<and> snapshotToBytes sample_gzip \<lparr>ra_err = None, ra_bytes = snd p, ra_spare = []\<rparr> = Ret (Inr None)"
proof -
  let ?env = "sample_env [] []"
  let ?c = "sample_node [''I0'']"
  let ?p = "Persist sample_gzip (sample_sink 100) (fst (Consensus_Snapshot ?env ?c)) []"
  have gz: "e_gz ?env = sample_gzip" by (simp add: sample_env_def)
  have "Serialize (e_flt ?env) (c_db ?c) (c_world ?c) =
      (None, Some (ErrNotExist ''open a: no such file or directory''))"
    by code_simp
  moreover have "fst ?p = None" "length (snd ?p) = 16" by code_simp+
  then have "?p = (None, snd ?p)" "length (id (snd ?p)) < 2 ^ 63" by (simp_all add: prod_eq_iff)
  ultimately show ?thesis
    using failed_serialize_snapshots_nothing [of ?env ?c _ "sample_sink 100" id "[]" "snd ?p" "[]"]
      sample_gzip_laws sample_sink_laws [of 100] gz by (simp add: Let_def)
qed



end
