(* ===== verification/Membership.thy ===== *)
theory Membership
  imports Consensus
begin

text \<open>
  Cluster membership in package \<open>consensus\<close>: \<open>Join\<close> and \<open>Leave\<close> (\<^verbatim>\<open>consensus/consensus.go\<close>,
  lines 489 to 551), and the node as a state machine whose steps are its exported methods
  and the callbacks raft makes on it.

  Shown here: who is in the cluster after a join or a leave that succeeded; a node that is
  not the leader refuses every change and is unchanged; and, by rule induction over the
  steps of a node, that no node ever restores a snapshot that holds a database.
\<close>

section \<open>Join and Leave\<close>

text \<open>
  The loop of \<open>Join\<close> over the servers of the configuration it read: \<open>Some\<close> result ends
  \<open>Join\<close>, \<open>None\<close> goes on to \<open>AddVoter\<close>.
\<close>

fun join_loop ::
  "'r raft \<Rightarrow> string \<Rightarrow> string \<Rightarrow> raftServer list \<Rightarrow> 'r \<Rightarrow> goerr option option \<times> 'r" where
  "join_loop rf serverID serverAddr [] r = (None, r)"
| "join_loop rf serverID serverAddr (srv # srvs) r =
     (if rs_ID srv = serverID \<or> rs_Address srv = serverAddr then
        (if rs_ID srv = serverID \<and> rs_Address srv = serverAddr then (Some None, r)
         else (case rf_RemoveServer rf serverID r of
           (Some err, r') \<Rightarrow> (Some (Some err), r')
         | (None, r') \<Rightarrow> join_loop rf serverID serverAddr srvs r'))
      else join_loop rf serverID serverAddr srvs r)"

definition join_raft :: "'r raft \<Rightarrow> string \<Rightarrow> string \<Rightarrow> 'r \<Rightarrow> goerr option \<times> 'r" where
  "join_raft rf serverID serverAddr r =
     (case rf_GetConfiguration rf r of
        Inl err \<Rightarrow> (Some err, r)
      | Inr servers \<Rightarrow>
          (case join_loop rf serverID serverAddr servers r of
            (Some res, r1) \<Rightarrow> (res, r1)
          | (None, r1) \<Rightarrow>
              (case rf_AddVoter rf serverID serverAddr r1 of
                (Some err, r2) \<Rightarrow> (Some (future_err err), r2)
              | (None, r2) \<Rightarrow> (None, r2))))"

definition Join ::
  "('c, 'r) env \<Rightarrow> string \<Rightarrow> string \<Rightarrow> ('c, 'r) Consensus \<Rightarrow> goerr option \<times> ('c, 'r) Consensus" where
  "Join env i addr c =
     (if \<not> IsLeader env c then (Some ErrNotLeader, c)
      else if i = rc_LocalID (cfg_Raft (c_config c)) then (Some ErrJoinSelf, c)
      else (case join_raft (e_raft env) i addr (c_raft c) of
        (e, r') \<Rightarrow> (e, c\<lparr>c_raft := r'\<rparr>)))"

definition Leave ::
  "('c, 'r) env \<Rightarrow> string \<Rightarrow> ('c, 'r) Consensus \<Rightarrow> goerr option \<times> ('c, 'r) Consensus" where
  "Leave env i c =
     (if rf_State (e_raft env) (c_raft c) \<noteq> Leader then (Some ErrNotLeader, c)
      else (case rf_RemoveServer (e_raft env) i (c_raft c) of
        (Some err, r') \<Rightarrow> (Some (future_err err), c\<lparr>c_raft := r'\<rparr>)
      | (None, r') \<Rightarrow> (None, c\<lparr>c_raft := r'\<rparr>)))"

section \<open>The node as a state machine\<close>

text \<open>
  One step of a running node: a call of one of its methods or of raft's callbacks that
  returned, or raft's own state changing underneath (elections, replication).
\<close>

inductive node_step :: "('c, 'r) env \<Rightarrow> ('c, 'r) Consensus \<Rightarrow> ('c, 'r) Consensus \<Rightarrow> bool"
  for env where
  step_Exec: "Exec env req c = Ret (x, c') \<Longrightarrow> node_step env c c'"
| step_Query: "Query env q c = Ret (x, c') \<Longrightarrow> node_step env c c'"
| step_Apply: "Apply env rec c = (Ret x, c') \<Longrightarrow> node_step env c c'"
| step_Restore: "Restore env rc c = Ret (e, c') \<Longrightarrow> node_step env c c'"
| step_Join: "Join env i a c = (e, c') \<Longrightarrow> node_step env c c'"
| step_Leave: "Leave env i c = (e, c') \<Longrightarrow> node_step env c c'"
| step_Metrics: "Metrics env c = Ret (x, c') \<Longrightarrow> node_step env c c'"
| step_Close: "Close env c = (e, c') \<Longrightarrow> node_step env c c'"
| step_raft: "node_step env c (c\<lparr>c_raft := r'\<rparr>)"

inductive node_reachable :: "('c, 'r) env \<Rightarrow> string \<Rightarrow> Config \<Rightarrow> ('c, 'r) Consensus \<Rightarrow> bool"
  for env dataDir cfg where
  reach_new: "NewDB env dataDir cfg w = (Inr c, w') \<Longrightarrow> node_reachable env dataDir cfg c"
| reach_step: "node_reachable env dataDir cfg c \<Longrightarrow> node_step env c c' \<Longrightarrow> node_reachable env dataDir cfg c'"

inductive_cases node_stepE: "node_step env c c'"

section \<open>Lemmas\<close>

lemma config_laws:
  assumes "raft_config_laws rf cfg"
  shows "rf_GetConfiguration rf r = Inr (cfg r)"
    and "rf_RemoveServer rf i r = (None, r') \<Longrightarrow> cfg r' = filter (\<lambda>s. rs_ID s \<noteq> i) (cfg r)"
    and "rf_RemoveServer rf i r = (Some e, r') \<Longrightarrow> cfg r' = cfg r"
    and "rf_AddVoter rf i a r = (Some e, r') \<Longrightarrow> cfg r' = cfg r"
    and "rf_AddVoter rf i a r = (None, r') \<Longrightarrow>
      (\<forall>s \<in> set (cfg r). rs_ID s \<noteq> i \<longrightarrow> rs_Address s \<noteq> a) \<and>
      set (cfg r') = insert \<lparr>rs_ID = i, rs_Address = a\<rparr> {s \<in> set (cfg r). rs_ID s \<noteq> i}"
proof -
  show "rf_GetConfiguration rf r = Inr (cfg r)"
    and "rf_RemoveServer rf i r = (None, r') \<Longrightarrow> cfg r' = filter (\<lambda>s. rs_ID s \<noteq> i) (cfg r)"
    and "rf_RemoveServer rf i r = (Some e, r') \<Longrightarrow> cfg r' = cfg r"
    and "rf_AddVoter rf i a r = (Some e, r') \<Longrightarrow> cfg r' = cfg r"
    using assms by (simp_all add: raft_config_laws_def)
  assume "rf_AddVoter rf i a r = (None, r')"
  then have *: "\<forall>s \<in> set (cfg r). rs_ID s \<noteq> i \<longrightarrow> rs_Address s \<noteq> a"
    "cfg r' = (if i \<in> rs_ID ` set (cfg r)
               then map (\<lambda>s. if rs_ID s = i then s\<lparr>rs_Address := a\<rparr> else s) (cfg r)
               else cfg r @ [\<lparr>rs_ID = i, rs_Address = a\<rparr>])"
    using assms by (auto simp: raft_config_laws_def)
  have upd: "s\<lparr>rs_Address := a\<rparr> = \<lparr>rs_ID = i, rs_Address = a\<rparr>" if "rs_ID s = i" for s :: raftServer
    using that by (cases s) simp
  from * show "(\<forall>s \<in> set (cfg r). rs_ID s \<noteq> i \<longrightarrow> rs_Address s \<noteq> a) \<and>
      set (cfg r') = insert \<lparr>rs_ID = i, rs_Address = a\<rparr> {s \<in> set (cfg r). rs_ID s \<noteq> i}"
    by (auto simp: upd image_iff)
qed


text \<open>A configuration as raft keeps it: no id twice and no address twice.\<close>

definition config_ok :: "raftServer list \<Rightarrow> bool" where
  "config_ok cfg \<longleftrightarrow> distinct (map rs_ID cfg) \<and> distinct (map rs_Address cfg)"

definition others :: "string \<Rightarrow> raftServer list \<Rightarrow> raftServer set" where
  "others i cfg = {s \<in> set cfg. rs_ID s \<noteq> i}"

text \<open>
  The loop without an exact match: it asks raft to remove the id once for every server that
  has the id or the address, so the configuration loses the id or stays as it is.
\<close>

lemma join_loop_no_match:
  assumes "raft_config_laws rf cfg"
  shows "\<lparr>rs_ID = i, rs_Address = a\<rparr> \<notin> set srvs \<Longrightarrow> join_loop rf i a srvs r = (res, r') \<Longrightarrow>
    res \<noteq> Some None \<and> (cfg r' = cfg r \<or> cfg r' = filter (\<lambda>s. rs_ID s \<noteq> i) (cfg r)) \<and>
    (res = None \<and> (\<exists>s \<in> set srvs. rs_ID s = i \<or> rs_Address s = a) \<longrightarrow>
       cfg r' = filter (\<lambda>s. rs_ID s \<noteq> i) (cfg r))"
proof (induction srvs arbitrary: r)
  case (Cons srv srvs)
  have ne: "\<not> (rs_ID srv = i \<and> rs_Address srv = a)" using Cons.prems(1) by (cases srv) auto
  show ?case
  proof (cases "rs_ID srv = i \<or> rs_Address srv = a")
    case True
    obtain e r1 where rm: "rf_RemoveServer rf i r = (e, r1)" by fastforce
    show ?thesis
    proof (cases e)
      case None
      with True ne rm Cons.prems(2) have "join_loop rf i a srvs r1 = (res, r')" by auto
      with Cons.IH [OF _ this] Cons.prems(1) config_laws(2) [OF assms] rm None show ?thesis by auto
    next
      case (Some err)
      with True ne rm Cons.prems(2) config_laws(3) [OF assms] show ?thesis by auto
    qed
  next
    case False
    with Cons show ?thesis by auto
  qed
qed simp

lemma join_loop_member:
  assumes "config_ok srvs" and "\<lparr>rs_ID = i, rs_Address = a\<rparr> \<in> set srvs"
  shows "join_loop rf i a srvs r = (Some None, r)"
  using assms
proof (induction srvs)
  case (Cons srv srvs)
  show ?case
  proof (cases "srv = \<lparr>rs_ID = i, rs_Address = a\<rparr>")
    case False
    with Cons.prems have "\<lparr>rs_ID = i, rs_Address = a\<rparr> \<in> set srvs" by auto
    moreover from this have "i \<in> rs_ID ` set srvs" "a \<in> rs_Address ` set srvs" by force+
    with Cons.prems(1) have "rs_ID srv \<noteq> i \<and> rs_Address srv \<noteq> a" by (auto simp: config_ok_def)
    ultimately show ?thesis using Cons by (simp add: config_ok_def)
  qed simp
qed simp

lemma join_raft_success:
  assumes laws: "raft_config_laws rf cfg" and "config_ok (cfg r)" and "join_raft rf i a r = (None, r')"
  shows "set (cfg r') = insert \<lparr>rs_ID = i, rs_Address = a\<rparr> (others i (cfg r)) \<and>
    (\<forall>s \<in> others i (cfg r). rs_Address s \<noteq> a)"
proof (cases "\<lparr>rs_ID = i, rs_Address = a\<rparr> \<in> set (cfg r)")
  case True
  have "r' = r"
    using assms(3) by (simp add: join_raft_def config_laws(1) [OF laws] join_loop_member [OF assms(2) True])
  have uniq: "s = \<lparr>rs_ID = i, rs_Address = a\<rparr>" if "s \<in> set (cfg r)" "rs_ID s = i \<or> rs_Address s = a" for s
  proof -
    have "inj_on rs_ID (set (cfg r))" "inj_on rs_Address (set (cfg r))"
      using assms(2) by (simp_all add: config_ok_def distinct_map)
    note inj = this [THEN inj_onD, OF _ that(1) True]
    from that(2) show ?thesis by (elim disjE) (rule inj(1), simp, rule inj(2), simp)
  qed
  have "set (cfg r) = insert \<lparr>rs_ID = i, rs_Address = a\<rparr> (others i (cfg r))"
    using True uniq unfolding others_def by blast
  moreover have "\<forall>s \<in> others i (cfg r). rs_Address s \<noteq> a"
  proof
    fix s assume s: "s \<in> others i (cfg r)"
    show "rs_Address s \<noteq> a"
    proof
      assume "rs_Address s = a"
      with s have "s = \<lparr>rs_ID = i, rs_Address = a\<rparr>" by (intro uniq) (auto simp: others_def)
      then have "rs_ID s = i" by simp
      with s show False by (simp add: others_def)
    qed
  qed
  ultimately show ?thesis using \<open>r' = r\<close> by simp
next
  case False
  obtain res r1 where lp: "join_loop rf i a (cfg r) r = (res, r1)" by fastforce
  note loop = join_loop_no_match [OF laws False lp]
  with assms(3) config_laws(1) [OF laws] lp have "res = None" "rf_AddVoter rf i a r1 = (None, r')"
    by (auto simp: join_raft_def split: option.splits prod.splits)
  with config_laws(5) [OF laws this(2)] loop show ?thesis by (auto simp: others_def)
qed

lemma config_ok_filter: "config_ok cfg \<Longrightarrow> config_ok (filter P cfg)"
  by (simp add: config_ok_def distinct_map_filter)

lemma AddVoter_config_ok:
  assumes "raft_config_laws rf cfg" and "rf_AddVoter rf i a r = (None, r')"
    and "config_ok (cfg r)" and "i \<notin> rs_ID ` set (cfg r)"
  shows "config_ok (cfg r')"
proof -
  have "\<forall>s \<in> set (cfg r). rs_ID s \<noteq> i \<longrightarrow> rs_Address s \<noteq> a"
    "cfg r' = cfg r @ [\<lparr>rs_ID = i, rs_Address = a\<rparr>]"
    using assms(1,2,4) by (auto simp: raft_config_laws_def)
  with assms(3,4) show ?thesis by (auto simp: config_ok_def)
qed

text \<open>What \<open>Join\<close> does to the configuration, whether it succeeds or fails.\<close>

lemma join_raft_config:
  assumes laws: "raft_config_laws rf cfg" and ok: "config_ok (cfg r)" and "join_raft rf i a r = (e, r')"
  shows "config_ok (cfg r') \<and> others i (cfg r') = others i (cfg r)"
proof (cases "\<lparr>rs_ID = i, rs_Address = a\<rparr> \<in> set (cfg r)")
  case True
  with assms(3) have "r' = r"
    by (simp add: join_raft_def config_laws(1) [OF laws] join_loop_member [OF ok True])
  with ok show ?thesis by simp
next
  case False
  obtain res r1 where lp: "join_loop rf i a (cfg r) r = (res, r1)" by fastforce
  note loop = join_loop_no_match [OF laws False lp]
  have r1: "config_ok (cfg r1)" "others i (cfg r1) = others i (cfg r)"
    using loop ok config_ok_filter by (auto simp: others_def)
  show ?thesis
  proof (cases res)
    case (Some x)
    with assms(3) lp r1 show ?thesis by (simp add: join_raft_def config_laws(1) [OF laws])
  next
    case None
    have "i \<notin> rs_ID ` set (cfg r1)"
    proof (cases "\<exists>s \<in> set (cfg r). rs_ID s = i \<or> rs_Address s = a")
      case True
      with loop None have "cfg r1 = filter (\<lambda>s. rs_ID s \<noteq> i) (cfg r)" by blast
      then show ?thesis by auto
    next
      case False
      with loop show ?thesis by auto
    qed
    note add = AddVoter_config_ok [OF laws _ r1(1) this]
    obtain e2 r2 where voter: "rf_AddVoter rf i a r1 = (e2, r2)" by fastforce
    with assms(3) lp None have "r' = r2"
      by (auto simp: join_raft_def config_laws(1) [OF laws] split: option.splits)
    with voter add r1 config_laws(4,5) [OF laws] show ?thesis
      by (cases e2) (auto simp: others_def)
  qed
qed

section \<open>Properties\<close>

text \<open>
  A successful \<open>Join\<close> leaves exactly the intended cluster: the other members as they were
  and the joining node with the address it gave, whether it was new, moved to a new
  address or was already there, and no other member has that address.
\<close>
theorem join_success_membership:
  assumes "raft_config_laws (e_raft env) cfg" and "config_ok (cfg (c_raft c))"
    and "Join env i addr c = (None, c')"
  shows "set (cfg (c_raft c')) = insert \<lparr>rs_ID = i, rs_Address = addr\<rparr> (others i (cfg (c_raft c))) \<and>
    (\<forall>s \<in> others i (cfg (c_raft c)). rs_Address s \<noteq> addr) \<and>
    IsLeader env c \<and> i \<noteq> rc_LocalID (cfg_Raft (c_config c))"
  using assms(3) join_raft_success [OF assms(1,2)]
  by (auto simp: Join_def split: if_splits prod.splits)

theorem join_success_membership_witness:
  "let c = snd (Join (sample_env [] []) ''n1'' ''h1:9000'' (sample_node [])) in
   set (sr_servers (c_raft c)) =
     {\<lparr>rs_ID = ''n1'', rs_Address = ''h1:9000''\<rparr>, \<lparr>rs_ID = ''n0'', rs_Address = ''127.0.0.1:9000''\<rparr>}"
proof -
  let ?x = "Join (sample_env [] []) ''n1'' ''h1:9000'' (sample_node [])"
  have laws: "raft_config_laws (e_raft (sample_env [] [])) sr_servers"
    by (simp add: sample_env_def sample_raft_laws)
  have ok: "config_ok (sr_servers (c_raft (sample_node [])))" by code_simp
  have "fst ?x = None" by code_simp
  then have x: "?x = (None, snd ?x)" by (simp add: prod_eq_iff)
  have "others ''n1'' (sr_servers (c_raft (sample_node []))) = {\<lparr>rs_ID = ''n0'', rs_Address = ''127.0.0.1:9000''\<rparr>}"
    by (auto simp: others_def sample_node_def)
  with join_success_membership [OF laws ok x] show ?thesis by (simp add: Let_def)
qed

text \<open>
  (C26) A join with an address that another member holds fails, and it costs the joining node its
  membership: the loop asks raft to remove the joining node's own id instead of the member
  that holds the address, and \<open>AddVoter\<close> then rejects the duplicate address.
\<close>
theorem join_address_conflict_evicts:
  assumes "raft_config_laws (e_raft env) cfg" and "\<And>r. fst (rf_RemoveServer (e_raft env) i r) = None"
    and "IsLeader env c" and "i \<noteq> rc_LocalID (cfg_Raft (c_config c))"
    and "s \<in> set (cfg (c_raft c))" and "rs_ID s \<noteq> i" and "rs_Address s = addr"
    and "\<lparr>rs_ID = i, rs_Address = addr\<rparr> \<notin> set (cfg (c_raft c))"
  shows "\<exists>err c'. Join env i addr c = (Some err, c') \<and>
    set (cfg (c_raft c')) = others i (cfg (c_raft c))"
proof -
  let ?rf = "e_raft env" and ?r = "c_raft c"
  obtain res r1 where lp: "join_loop ?rf i addr (cfg ?r) ?r = (res, r1)" by fastforce
  have "res = None" if "join_loop ?rf i addr srvs r = (res, r1)" "\<lparr>rs_ID = i, rs_Address = addr\<rparr> \<notin> set srvs" for srvs r
    using that assms(2)
  proof (induction srvs arbitrary: r)
    case (Cons srv srvs)
    then show ?case
      by (cases srv) (auto split: if_splits prod.splits option.splits dest: arg_cong [of _ _ fst])
  qed simp
  with lp assms(8) have "res = None" by blast
  with join_loop_no_match [OF assms(1,8) lp] assms(5,7)
  have cfg1: "cfg r1 = filter (\<lambda>s. rs_ID s \<noteq> i) (cfg ?r)" by blast
  obtain e r2 where add: "rf_AddVoter ?rf i addr r1 = (e, r2)" by fastforce
  have "e \<noteq> None" using config_laws(5) [OF assms(1), of i addr r1 r2] add cfg1 assms(5-7) by auto
  then obtain err where "e = Some err" by auto
  with add config_laws(4) [OF assms(1)] cfg1 have "cfg r2 = filter (\<lambda>s. rs_ID s \<noteq> i) (cfg ?r)" by metis
  with \<open>res = None\<close> \<open>e = Some err\<close> lp add assms(3,4) config_laws(1) [OF assms(1)] show ?thesis
    by (simp add: Join_def join_raft_def others_def)
qed


definition sample_cluster :: "(sample, sraft) Consensus" where
  "sample_cluster =
     (sample_node [])\<lparr>c_raft := (c_raft (sample_node []))\<lparr>sr_servers :=
        [\<lparr>rs_ID = ''n0'', rs_Address = ''h0:1''\<rparr>, \<lparr>rs_ID = ''n1'', rs_Address = ''h1:1''\<rparr>,
         \<lparr>rs_ID = ''n2'', rs_Address = ''h2:1''\<rparr>]\<rparr>\<rparr>"

theorem join_address_conflict_evicts_witness:
  "\<exists>err c'. Join (sample_env [] []) ''n1'' ''h2:1'' sample_cluster = (Some err, c') \<and>
     set (sr_servers (c_raft c')) = {\<lparr>rs_ID = ''n0'', rs_Address = ''h0:1''\<rparr>, \<lparr>rs_ID = ''n2'', rs_Address = ''h2:1''\<rparr>}"
proof -
  let ?env = "sample_env [] []"
  let ?s = "\<lparr>rs_ID = ''n2'', rs_Address = ''h2:1''\<rparr>"
  have laws: "raft_config_laws (e_raft ?env) sr_servers" by (simp add: sample_env_def sample_raft_laws)
  have rm: "fst (rf_RemoveServer (e_raft ?env) ''n1'' r) = None" for r
    by (simp add: sample_env_def sample_raft_def)
  have h: "IsLeader ?env sample_cluster" "''n1'' \<noteq> rc_LocalID (cfg_Raft (c_config sample_cluster))"
    "?s \<in> set (sr_servers (c_raft sample_cluster))" "rs_ID ?s \<noteq> ''n1''" "rs_Address ?s = ''h2:1''"
    "\<lparr>rs_ID = ''n1'', rs_Address = ''h2:1''\<rparr> \<notin> set (sr_servers (c_raft sample_cluster))"
    by code_simp+
  have "others ''n1'' (sr_servers (c_raft sample_cluster)) =
      {\<lparr>rs_ID = ''n0'', rs_Address = ''h0:1''\<rparr>, \<lparr>rs_ID = ''n2'', rs_Address = ''h2:1''\<rparr>}"
    by (auto simp: others_def sample_cluster_def)
  with join_address_conflict_evicts [OF laws rm h] show ?thesis by simp
qed

text \<open>
  A successful \<open>Leave\<close> removes exactly the named node from the cluster; a failed one changes
  nothing, and raft's not-leader error is reported as \<open>ErrNotLeader\<close>.
\<close>
theorem leave_removes_exactly:
  assumes "raft_config_laws (e_raft env) cfg" and "Leave env i c = (e, c')"
  shows "set (cfg (c_raft c')) = (if e = None then others i (cfg (c_raft c)) else set (cfg (c_raft c))) \<and>
    e \<noteq> Some RaftErrNotLeader \<and> c' = c\<lparr>c_raft := c_raft c'\<rparr>"
  using assms(2) config_laws(2,3) [OF assms(1)]
  by (auto simp: Leave_def others_def future_err_def split: if_splits prod.splits option.splits)

theorem leave_removes_exactly_witness:
  "let x = Leave (sample_env [] []) ''n1'' sample_cluster in fst x = None \<and>
   set (sr_servers (c_raft (snd x))) =
     {\<lparr>rs_ID = ''n0'', rs_Address = ''h0:1''\<rparr>, \<lparr>rs_ID = ''n2'', rs_Address = ''h2:1''\<rparr>}"
proof -
  let ?x = "Leave (sample_env [] []) ''n1'' sample_cluster"
  have laws: "raft_config_laws (e_raft (sample_env [] [])) sr_servers"
    by (simp add: sample_env_def sample_raft_laws)
  have "fst ?x = None" by code_simp
  moreover from this have x: "?x = (None, snd ?x)" by (simp add: prod_eq_iff)
  moreover have "others ''n1'' (sr_servers (c_raft sample_cluster)) =
      {\<lparr>rs_ID = ''n0'', rs_Address = ''h0:1''\<rparr>, \<lparr>rs_ID = ''n2'', rs_Address = ''h2:1''\<rparr>}"
    by (auto simp: others_def sample_cluster_def)
  ultimately show ?thesis
    using leave_removes_exactly [OF laws x] by (simp add: Let_def)
qed

text \<open>
  A node that is not the leader refuses everything that must go through the leader
  (\<open>Exec\<close>, a strong \<open>Query\<close>, \<open>Join\<close>, \<open>Leave\<close>) with \<open>ErrNotLeader\<close> and is left exactly as it
  was, raft included.
\<close>
theorem non_leader_refuses:
  assumes "\<not> IsLeader env c"
  shows "Exec env req c = Ret ((None, Some ErrNotLeader), c) \<and>
    (qreq_StrongConsistency q \<longrightarrow> Query env q c = Ret ((None, Some ErrNotLeader), c)) \<and>
    Join env i addr c = (Some ErrNotLeader, c) \<and> Leave env i c = (Some ErrNotLeader, c)"
  using assms by (simp add: Exec_def Query_def Join_def Leave_def IsLeader_def)

theorem non_leader_refuses_witness:
  "Exec (sample_env [] []) (sample_request True [''I1'']) (sample_follower [''I0'']) =
     Ret ((None, Some ErrNotLeader), sample_follower [''I0''])"
proof -
  have "\<not> IsLeader (sample_env [] []) (sample_follower [''I0''])" by code_simp
  from non_leader_refuses [OF this] show ?thesis by blast
qed

section \<open>Restoring a node\<close>

lemma createDiskDatabase_no_path:
  "\<exists>err w'. createDiskDatabase env (Some d) '''' w = (Inl err, w')"
  by (auto simp: createDiskDatabase_def os_WriteFile_def split: prod.splits option.splits)

lemma Restore_no_path:
  assumes "c_dbPath c = ''''" and "snapshotToBytes (e_gz env) rc = Ret (Inr (Some d))"
  shows "\<exists>err w'. Restore env rc c =
    Ret (Some err, c\<lparr>c_db := fst (snd (Engine_Close (e_drv env) (c_db c) (c_world c))), c_world := w'\<rparr>)"
proof -
  obtain e db w1 where cl: "Engine_Close (e_drv env) (c_db c) (c_world c) = (e, db, w1)"
    by (metis surj_pair)
  obtain err w2 where "createDiskDatabase env (Some d) '''' w1 = (Inl err, w2)"
    using createDiskDatabase_no_path by blast
  with assms cl show ?thesis by (cases e) (auto simp: Restore_def)
qed

lemma raft_Apply_frame:
  assumes "raft_Apply env d c = Ret (r, c')"
  shows "c_config c' = c_config c \<and> c_raftDir c' = c_raftDir c \<and> c_dbPath c' = c_dbPath c"
proof (cases "rf_Apply (e_raft env) d (c_raft c)")
  case (Pair out r')
  show ?thesis
  proof (cases out)
    case (Inl err)
    with Pair assms show ?thesis by (auto simp: raft_Apply_def)
  next
    case (Inr p)
    with Pair assms obtain c1 where c1: "apply_entries env (fst p) (c\<lparr>c_raft := r'\<rparr>) = Ret c1"
      by (cases p) (auto simp: raft_Apply_def)
    obtain x c2 where ap: "Apply env \<lparr>log_Index = snd p, log_Data = d\<rparr> c1 = (x, c2)" by fastforce
    with Pair assms Inr c1 have "c2 = c'"
      by (cases p) (auto simp: raft_Apply_def split: go.splits)
    with ap c1 show ?thesis using apply_entries_frame [OF c1] Apply_frame [OF ap] by simp
  qed
qed

lemma apply_cmd_frame:
  assumes "apply_cmd env ty m c = Ret (x, c')"
  shows "c' = c \<or> (\<exists>d r. raft_Apply env d c = Ret (r, c'))"
proof (cases m)
  case (Inr b)
  show ?thesis
  proof (cases "pb_Marshal_Action (e_pb env) \<lparr>act_Type = ty, act_Body = b\<rparr>")
    case (Inr d)
    with assms \<open>m = Inr b\<close> obtain r c1 where r: "raft_Apply env d c = Ret (r, c1)"
      by (auto simp: apply_cmd_def)
    with assms \<open>m = Inr b\<close> Inr have "c1 = c'"
      by (auto simp: apply_cmd_def split: sum.splits fsmResp.splits)
    with r show ?thesis by blast
  qed (use assms Inr in \<open>simp add: apply_cmd_def\<close>)
qed (use assms in \<open>simp add: apply_cmd_def\<close>)

lemma Exec_frame:
  assumes "Exec env req c = Ret (x, c')"
  shows "c' = c \<or> (\<exists>d r. raft_Apply env d c = Ret (r, c'))"
proof (cases "IsLeader env c")
  case True
  with assms obtain r c1 where
    r: "apply_cmd env Action_ACTION_EXECUTE (pb_Marshal_Request (e_pb env) req) c = Ret (r, c1)"
    by (auto simp: Exec_def)
  with assms True have "c1 = c'" by (auto simp: Exec_def split: sum.splits fsmResp.splits)
  with r show ?thesis using apply_cmd_frame by blast
qed (use assms in \<open>simp add: Exec_def\<close>)

lemma Query_frame:
  assumes "Query env q c = Ret (x, c')"
  shows "(\<exists>w. c' = c\<lparr>c_world := w\<rparr>) \<or> c' = c \<or> (\<exists>d r. raft_Apply env d c = Ret (r, c'))"
proof (cases "qreq_StrongConsistency q \<and> IsLeader env c")
  case False
  with assms show ?thesis by (auto simp: Query_def split: if_splits option.splits prod.splits go.splits)
next
  case True
  show ?thesis
  proof (cases "pb_Marshal_QueryReq (e_pb env) q")
    case (Inr b)
    show ?thesis
    proof (cases "pb_Marshal_Action (e_pb env) \<lparr>act_Type = Action_ACTION_QUERY, act_Body = b\<rparr>")
      case d: (Inr d)
      with assms True Inr obtain r c1 where r: "raft_Apply env d c = Ret (r, c1)"
        by (auto simp: Query_def)
      with assms True Inr d have "c1 = c'"
        by (auto simp: Query_def split: sum.splits fsmResp.splits)
      with r show ?thesis by blast
    qed (use assms True Inr in \<open>simp add: Query_def\<close>)
  qed (use assms True in \<open>simp add: Query_def\<close>)
qed

lemma Restore_frame:
  assumes "Restore env rc c = Ret (e, c')"
  shows "c' = c \<or> (\<exists>db w. c' = c\<lparr>c_db := db, c_world := w\<rparr>)"
proof -
  from assms obtain r where r: "snapshotToBytes (e_gz env) rc = Ret r" by (auto simp: Restore_def)
  show ?thesis
  proof (cases r)
    case (Inl err)
    with assms r show ?thesis by (simp add: Restore_def)
  next
    case (Inr b)
    with assms r show ?thesis by (auto simp: Restore_def split: prod.splits option.splits sum.splits)
  qed
qed

lemma node_step_frame:
  assumes "node_step env c c'"
  shows "c_config c' = c_config c \<and> c_raftDir c' = c_raftDir c \<and> c_dbPath c' = c_dbPath c"
  using assms
proof (cases rule: node_step.cases)
  case (step_Exec req x)
  then show ?thesis using Exec_frame raft_Apply_frame by metis
next
  case (step_Query q x)
  from Query_frame [OF this] show ?thesis using raft_Apply_frame by fastforce
next
  case (step_Restore rc e)
  from Restore_frame [OF this] show ?thesis by auto
next
  case (step_Metrics x)
  then show ?thesis by (auto simp: Metrics_def split: prod.splits go.splits option.splits)
qed (auto simp: Join_def Leave_def Close_def split: if_splits prod.splits option.splits dest: Apply_frame)

lemma node_reachable_frame:
  "node_reachable env dataDir cfg c \<Longrightarrow>
     c_config c = cfg \<and> c_raftDir c = dataDir \<and> c_dbPath c = ''''"
proof (induction rule: node_reachable.induct)
  case (reach_new w c w')
  then show ?case by (auto simp: NewDB_def split: prod.splits sum.splits option.splits)
next
  case (reach_step c c')
  then show ?case using node_step_frame by metis
qed

text \<open>
  (C18) No node ever restores a snapshot that holds a database. \<open>NewDB\<close> leaves \<open>dbPath\<close> empty and
  no step of a node sets it, so \<open>Restore\<close> closes the database it has, fails to write the
  file with the empty name and returns an error; the node keeps the engine it has just
  closed, which answers every later \<open>Exec\<close> and \<open>Query\<close> with an error.
\<close>
theorem restore_never_succeeds:
  assumes "node_reachable env dataDir cfg c" and "snapshotToBytes (e_gz env) rc = Ret (Inr (Some d))"
  shows "\<exists>err c'. Restore env rc c = Ret (Some err, c') \<and>
    (fst (Engine_Close (e_drv env) (c_db c) (c_world c)) = None \<longrightarrow>
       Engine_Exec (e_drv env) (c_db c') req w = ((None, Some ErrDBClosed), w) \<and>
       Engine_Query (e_drv env) (c_db c') req w = (Ret (None, Some ErrDBClosed), w))"
proof -
  let ?cl = "Engine_Close (e_drv env) (c_db c) (c_world c)"
  have "c_dbPath c = ''''" using node_reachable_frame [OF assms(1)] by simp
  from Restore_no_path [OF this assms(2)] obtain err c' where
    r: "Restore env rc c = Ret (Some err, c')" "c_db c' = fst (snd ?cl)" by auto
  have "db_closed (eng_readDB (c_db c')) \<and> db_closed (eng_writeDB (c_db c'))" if "fst ?cl = None"
    using that r(2) by (auto simp: Engine_Close_def DB_Close_def split: prod.splits option.splits if_splits)
  with r show ?thesis by (auto simp: Engine_Exec_def Engine_Query_def)
qed

theorem restore_never_succeeds_witness:
  "\<exists>err c'. Restore (sample_env [] [])
      \<lparr>ra_err = None, ra_bytes = PutUint64 (- 1) @ PutUint64 2 @ [31, 7], ra_spare = []\<rparr>
      (projr (fst (NewDB (sample_env [] []) ''d'' sample_cfg (sample_world [])))) = Ret (Some err, c')"
proof -
  let ?x = "NewDB (sample_env [] []) ''d'' sample_cfg (sample_world [])"
  let ?rc = "\<lparr>ra_err = None, ra_bytes = PutUint64 (- 1) @ PutUint64 2 @ [31, 7], ra_spare = []\<rparr>"
  have "isl (fst ?x) = False" by code_simp
  then have "?x = (Inr (projr (fst ?x)), snd ?x)" by (simp add: prod_eq_iff)
  then have r: "node_reachable (sample_env [] []) ''d'' sample_cfg (projr (fst ?x))" by (rule reach_new)
  have s: "snapshotToBytes (e_gz (sample_env [] [])) ?rc = Ret (Inr (Some [7]))" by code_simp
  from restore_never_succeeds [OF r s] show ?thesis by blast
qed

end
