(* ===== verification/Replication.thy ===== *)
theory Replication
  imports Membership
begin

text \<open>
  What the replicated log means: the effect of an entry on the content of a database, as a
  function that mentions neither the driver nor the connection, and the proof that the state
  machine of package \<open>consensus\<close> implements it. The locale \<open>replicated_fsm\<close> is the contract
  between raft and a state machine (each step applies the effect of its entry to the
  content and keeps the state good); the convergence of replicas is proved in it once and
  reaches the program through its interpretation on \<open>Apply\<close>.
\<close>

section \<open>The contract of a replicated state machine\<close>

fun run_log :: "('l \<Rightarrow> 's \<Rightarrow> 's go) \<Rightarrow> 'l list \<Rightarrow> 's \<Rightarrow> 's go" where
  "run_log step [] s = Ret s"
| "run_log step (l # ls) s = go_bind (step l s) (run_log step ls)"

locale replicated_fsm =
  fixes step :: "'l \<Rightarrow> 's \<Rightarrow> 's go"
    and content :: "'s \<Rightarrow> 'v"
    and good :: "'s \<Rightarrow> bool"
    and admissible :: "'l \<Rightarrow> bool"
    and effect :: "'l \<Rightarrow> 'v \<Rightarrow> 'v"
  assumes step_law:
    "good s \<Longrightarrow> admissible l \<Longrightarrow> step l s = Ret s' \<Longrightarrow> good s' \<and> content s' = effect l (content s)"
begin

lemma run_law:
  "good s \<Longrightarrow> \<forall>l \<in> set ls. admissible l \<Longrightarrow> run_log step ls s = Ret s' \<Longrightarrow>
     good s' \<and> content s' = fold effect ls (content s)"
proof (induction ls arbitrary: s)
  case (Cons l ls)
  then obtain s1 where "step l s = Ret s1" "run_log step ls s1 = Ret s'" by auto
  with Cons step_law [of s l s1] show ?case by auto
qed simp

lemma run_content:
  assumes "good s" "\<forall>l \<in> set ls. admissible l" "run_log step ls s = Ret s'"
  shows "content s' = fold effect ls (content s)"
  using run_law [OF assms] by simp

end

section \<open>The effect of a request\<close>

text \<open>
  One statement on a content: the new content, and whether \<open>Exec\<close> finds no error.
  \<open>refuses\<close> says which statements SQLite rejects on which content.
\<close>

definition apply_stmt ::
  "('v \<Rightarrow> string \<Rightarrow> NamedArg list \<Rightarrow> bool) \<Rightarrow> ('v \<Rightarrow> string \<Rightarrow> NamedArg list \<Rightarrow> sqlResult \<times> 'v) \<Rightarrow>
     'v \<Rightarrow> Statement \<Rightarrow> 'v \<times> bool" where
  "apply_stmt refuses sem v s =
     (case convertParamsToSQL (stmt_Params s) of
        Inl _ \<Rightarrow> (v, False)
      | Inr args \<Rightarrow>
          if refuses v (stmt_Sql s) args then (v, False)
          else (case sem v (stmt_Sql s) args of (x, v') \<Rightarrow> (v', snd (report x) = None)))"

fun run_tx ::
  "('v \<Rightarrow> string \<Rightarrow> NamedArg list \<Rightarrow> bool) \<Rightarrow> ('v \<Rightarrow> string \<Rightarrow> NamedArg list \<Rightarrow> sqlResult \<times> 'v) \<Rightarrow>
     'v \<Rightarrow> Statement list \<Rightarrow> 'v option" where
  "run_tx refuses sem v [] = Some v"
| "run_tx refuses sem v (s # ss) =
     (if stmt_Sql s = '''' then run_tx refuses sem v ss
      else (case apply_stmt refuses sem v s of
        (v', ok) \<Rightarrow> if ok then run_tx refuses sem v' ss else None))"

fun run_auto ::
  "('v \<Rightarrow> string \<Rightarrow> NamedArg list \<Rightarrow> bool) \<Rightarrow> ('v \<Rightarrow> string \<Rightarrow> NamedArg list \<Rightarrow> sqlResult \<times> 'v) \<Rightarrow>
     'v \<Rightarrow> Statement list \<Rightarrow> 'v" where
  "run_auto refuses sem v [] = v"
| "run_auto refuses sem v (s # ss) =
     (if stmt_Sql s = '''' then run_auto refuses sem v ss
      else run_auto refuses sem (fst (apply_stmt refuses sem v s)) ss)"

definition request_effect ::
  "('v \<Rightarrow> string \<Rightarrow> NamedArg list \<Rightarrow> bool) \<Rightarrow> ('v \<Rightarrow> string \<Rightarrow> NamedArg list \<Rightarrow> sqlResult \<times> 'v) \<Rightarrow>
     Request \<Rightarrow> 'v \<Rightarrow> 'v" where
  "request_effect refuses sem req v =
     (if req_Transaction req
      then (case run_tx refuses sem v (req_Statements req) of None \<Rightarrow> v | Some v' \<Rightarrow> v')
      else run_auto refuses sem v (req_Statements req))"

text \<open>The request an entry of the log executes, if it executes one.\<close>

definition entry_request :: "pbcodec \<Rightarrow> raftLog \<Rightarrow> Request option" where
  "entry_request pb rec =
     (case pb_Unmarshal_Action pb (log_Data rec) of
        Inl _ \<Rightarrow> None
      | Inr ac \<Rightarrow>
          if act_Type ac = Action_ACTION_EXECUTE
          then (case pb_Unmarshal_Request pb (act_Body ac) of Inl _ \<Rightarrow> None | Inr r \<Rightarrow> Some r)
          else None)"

definition entry_effect ::
  "pbcodec \<Rightarrow> ('v \<Rightarrow> string \<Rightarrow> NamedArg list \<Rightarrow> bool) \<Rightarrow>
     ('v \<Rightarrow> string \<Rightarrow> NamedArg list \<Rightarrow> sqlResult \<times> 'v) \<Rightarrow> raftLog \<Rightarrow> 'v \<Rightarrow> 'v" where
  "entry_effect pb refuses sem rec v =
     (case entry_request pb rec of None \<Rightarrow> v | Some req \<Rightarrow> request_effect refuses sem req v)"

section \<open>What is asked of a replica\<close>

text \<open>
  SQLite accepts or rejects a statement according to the content it sees (\<open>law_determined\<close>),
  and the node's disk works: a connection, a transaction and its commit can be had
  (\<open>law_available\<close>). A replica whose disk fails may fall behind; these theorems are about
  the others.
\<close>

definition law_determined ::
  "'c driver \<Rightarrow> string \<Rightarrow> ('c, 'v) sqlspec \<Rightarrow> ('v \<Rightarrow> string \<Rightarrow> NamedArg list \<Rightarrow> bool) \<Rightarrow> bool" where
  "law_determined drv dsn sp refuses \<longleftrightarrow>
     (\<forall>w sql args. sp_plain sp sql \<longrightarrow>
        isl (fst (drv_Exec drv dsn w sql args)) =
          refuses (if sp_intx sp w then sp_view sp w else sp_base sp w) sql args)"

definition law_available :: "'c driver \<Rightarrow> string \<Rightarrow> bool" where
  "law_available drv dsn \<longleftrightarrow>
     (\<forall>w. fst (drv_Connect drv dsn w) = None \<and> fst (drv_Begin drv dsn w) = None \<and>
          fst (drv_Commit drv dsn w) = None)"

definition plain_request :: "('c, 'v) sqlspec \<Rightarrow> Request \<Rightarrow> bool" where
  "plain_request sp req \<longleftrightarrow> (\<forall>s \<in> set (req_Statements req). stmt_Sql s \<noteq> '''' \<longrightarrow> sp_plain sp (stmt_Sql s))"

definition plain_entry :: "pbcodec \<Rightarrow> ('c, 'v) sqlspec \<Rightarrow> raftLog \<Rightarrow> bool" where
  "plain_entry pb sp rec \<longleftrightarrow> (\<forall>req. entry_request pb rec = Some req \<longrightarrow> plain_request sp req)"

definition good_replica ::
  "('c, 'r) env \<Rightarrow> ('c, 'v) sqlspec \<Rightarrow> ('v \<Rightarrow> string \<Rightarrow> NamedArg list \<Rightarrow> bool) \<Rightarrow>
     ('c, 'r) Consensus \<Rightarrow> bool" where
  "good_replica env sp refuses c \<longleftrightarrow>
     sqlite_tx_laws (e_drv env) (db_dsn (eng_writeDB (c_db c))) sp \<and>
     law_determined (e_drv env) (db_dsn (eng_writeDB (c_db c))) sp refuses \<and>
     law_available (e_drv env) (db_dsn (eng_writeDB (c_db c))) \<and>
     sqlite_read_laws (e_drv env) (db_dsn (eng_readDB (c_db c))) (\<lambda>w. (sp_base sp w, sp_intx sp w)) \<and>
     \<not> db_closed (eng_writeDB (c_db c)) \<and> \<not> sp_intx sp (c_world c)"

definition node_content :: "('c, 'v) sqlspec \<Rightarrow> ('c, 'r) Consensus \<Rightarrow> 'v" where
  "node_content sp c = sp_base sp (c_world c)"

definition apply_step ::
  "('c, 'r) env \<Rightarrow> raftLog \<Rightarrow> ('c, 'r) Consensus \<Rightarrow> ('c, 'r) Consensus go" where
  "apply_step env rec c =
     (case Apply env rec c of (Panic s, _) \<Rightarrow> Panic s | (Ret _, c') \<Rightarrow> Ret c')"

lemma apply_entries_run_log: "apply_entries env recs c = run_log (apply_step env) recs c"
  by (induction recs arbitrary: c) (auto simp: apply_step_def split: prod.splits go.splits)


section \<open>The engine implements the effect\<close>

lemma exec_stmt_effect_tx:
  assumes "sqlite_tx_laws drv dsn sp" "law_determined drv dsn sp refuses"
    and "sp_plain sp (stmt_Sql s)" "sp_intx sp w"
    and "exec_stmt drv dsn (Some \<lparr>tx_done = False\<rparr>) w s = ((res, e), w')"
  shows "case apply_stmt refuses (sp_sem sp) (sp_view sp w) s of
    (v', ok) \<Rightarrow> (ok \<longleftrightarrow> e = None) \<and> (ok \<longrightarrow> sp_intx sp w' \<and> sp_view sp w' = v')"
proof (cases "convertParamsToSQL (stmt_Params s)")
  case (Inl err)
  with assms(5) show ?thesis by (auto simp: exec_stmt_def apply_stmt_def)
next
  case (Inr args)
  obtain r w1 where ex: "drv_Exec drv dsn w (stmt_Sql s) args = (r, w1)" by fastforce
  have "isl r = refuses (sp_view sp w) (stmt_Sql s) args"
    using assms(2) [unfolded law_determined_def, rule_format, OF assms(3), of w args] assms(4) ex by simp
  with exec_stmt_report [OF assms(5)] tx_laws_Exec_in [OF assms(1,3,4) ex] ex Inr show ?thesis
    by (cases r) (auto simp: apply_stmt_def)
qed

lemma exec_stmt_effect_auto:
  assumes "sqlite_tx_laws drv dsn sp" "law_determined drv dsn sp refuses"
    and "sp_plain sp (stmt_Sql s)" "\<not> sp_intx sp w"
    and "exec_stmt drv dsn None w s = ((res, e), w')"
  shows "\<not> sp_intx sp w' \<and> sp_base sp w' = fst (apply_stmt refuses (sp_sem sp) (sp_base sp w) s)"
proof (cases "convertParamsToSQL (stmt_Params s)")
  case (Inl err)
  with assms(4,5) show ?thesis by (auto simp: exec_stmt_def apply_stmt_def)
next
  case (Inr args)
  obtain r w1 where ex: "drv_Exec drv dsn w (stmt_Sql s) args = (r, w1)" by fastforce
  have "isl r = refuses (sp_base sp w) (stmt_Sql s) args"
    using assms(2) [unfolded law_determined_def, rule_format, OF assms(3), of w args] assms(4) ex by simp
  with exec_stmt_report [OF assms(5)] tx_laws_Exec_out [OF assms(1,3,4) ex] ex Inr show ?thesis
    by (cases r) (auto simp: apply_stmt_def)
qed

lemma exec_loop_effect_tx:
  assumes "sqlite_tx_laws drv dsn sp" "law_determined drv dsn sp refuses"
  shows "\<forall>s \<in> set stmts. stmt_Sql s \<noteq> '''' \<longrightarrow> sp_plain sp (stmt_Sql s) \<Longrightarrow> sp_intx sp w \<Longrightarrow>
    exec_loop drv dsn (Some \<lparr>tx_done = False\<rparr>) w stmts rs = (tx', w', rs') \<Longrightarrow>
    run_tx refuses (sp_sem sp) (sp_view sp w) stmts = (if tx' = None then None else Some (sp_view sp w'))"
proof (induction stmts arbitrary: w rs)
  case (Cons s ss)
  show ?case
  proof (cases "stmt_Sql s = ''''")
    case False
    obtain res e w1 where st: "exec_stmt drv dsn (Some \<lparr>tx_done = False\<rparr>) w s = ((res, e), w1)"
      by (metis surj_pair)
    note eff = exec_stmt_effect_tx [OF assms _ Cons.prems(2) st]
    show ?thesis
    proof (cases e)
      case None
      with Cons.prems(3) False st have "exec_loop drv dsn (Some \<lparr>tx_done = False\<rparr>) w1 ss (rs @ [res]) = (tx', w', rs')"
        by simp
      with Cons.IH [OF _ _ this] Cons.prems(1) False eff None show ?thesis by (auto split: prod.splits)
    next
      case (Some err)
      with Cons.prems(1,3) False st eff show ?thesis by (auto split: prod.splits)
    qed
  qed (use Cons in auto)
qed auto

lemma exec_loop_effect_auto:
  assumes "sqlite_tx_laws drv dsn sp" "law_determined drv dsn sp refuses"
  shows "\<forall>s \<in> set stmts. stmt_Sql s \<noteq> '''' \<longrightarrow> sp_plain sp (stmt_Sql s) \<Longrightarrow> \<not> sp_intx sp w \<Longrightarrow>
    exec_loop drv dsn None w stmts rs = (tx', w', rs') \<Longrightarrow>
    tx' = None \<and> \<not> sp_intx sp w' \<and> sp_base sp w' = run_auto refuses (sp_sem sp) (sp_base sp w) stmts"
proof (induction stmts arbitrary: w rs)
  case (Cons s ss)
  show ?case
  proof (cases "stmt_Sql s = ''''")
    case False
    obtain res e w1 where st: "exec_stmt drv dsn None w s = ((res, e), w1)" by (metis surj_pair)
    then obtain r where "exec_loop drv dsn None w1 ss (rs @ [r]) = (tx', w', rs')"
      using Cons.prems(3) False by (cases e) auto
    with Cons.IH [OF _ _ this] Cons.prems(1) False exec_stmt_effect_auto [OF assms _ Cons.prems(2) st]
    show ?thesis by simp
  qed (use Cons in auto)
qed simp

lemma Engine_Exec_effect:
  assumes laws: "sqlite_tx_laws drv (db_dsn (eng_writeDB eng)) sp"
      "law_determined drv (db_dsn (eng_writeDB eng)) sp refuses"
      "law_available drv (db_dsn (eng_writeDB eng))"
    and "\<not> db_closed (eng_writeDB eng)" "\<not> sp_intx sp w" "plain_request sp req"
    and "Engine_Exec drv eng req w = (out, w')"
  shows "\<not> sp_intx sp w' \<and> sp_base sp w' = request_effect refuses (sp_sem sp) req (sp_base sp w)"
proof -
  let ?dsn = "db_dsn (eng_writeDB eng)"
  have plain: "\<forall>s \<in> set (req_Statements req). stmt_Sql s \<noteq> '''' \<longrightarrow> sp_plain sp (stmt_Sql s)"
    using assms(6) by (simp add: plain_request_def)
  have avail: "fst (drv_Connect drv ?dsn v) = None" "fst (drv_Begin drv ?dsn v) = None"
    "fst (drv_Commit drv ?dsn v) = None" for v
    using laws(3) by (simp_all add: law_available_def)
  obtain w1 where conn: "drv_Connect drv ?dsn w = (None, w1)" using avail(1) by (metis prod.collapse)
  note w1 = tx_laws_Connect [OF laws(1) assms(5) conn]
  show ?thesis
  proof (cases "req_Transaction req")
    case False
    obtain tx w2 rs where lp: "exec_loop drv ?dsn None w1 (req_Statements req) [] = (tx, w2, rs)"
      by (metis surj_pair)
    with exec_loop_effect_auto [OF laws(1,2) plain _ lp] w1 assms(4,7) conn False show ?thesis
      by (auto simp: Engine_Exec_def DB_Conn_def request_effect_def)
  next
    case True
    obtain w2 where beg: "drv_Begin drv ?dsn w1 = (None, w2)" using avail(2) by (metis prod.collapse)
    have w2: "sp_base sp w2 = sp_base sp w" "sp_intx sp w2" "sp_view sp w2 = sp_base sp w"
      using tx_laws_Begin [OF laws(1) _ beg] w1 by auto
    obtain tx w3 rs where lp: "exec_loop drv ?dsn (Some \<lparr>tx_done = False\<rparr>) w2 (req_Statements req) [] = (tx, w3, rs)"
      by (metis surj_pair)
    have fin: "exec_finish drv ?dsn (tx, w3, rs) = (out, w')"
      using assms(4,7) conn beg lp True by (simp add: Engine_Exec_def DB_Conn_def)
    note eff = exec_loop_effect_tx [OF laws(1,2) plain w2(2) lp] and loop = exec_loop_in_tx [OF laws(1) plain w2(2) lp]
    show ?thesis
    proof (cases tx)
      case None
      with fin eff loop w2 True show ?thesis by (auto simp: request_effect_def)
    next
      case (Some t)
      obtain w4 where com: "drv_Commit drv ?dsn w3 = (None, w4)" using avail(3) by (metis prod.collapse)
      with Some fin loop have "w' = w4" "sp_intx sp w3" by (auto simp: exec_finish_fresh)
      with tx_laws_Commit [OF laws(1) _ com] Some eff w2 True show ?thesis by (simp add: request_effect_def)
    qed
  qed
qed


section \<open>The state machine implements the effect\<close>

lemma Query_ptr_content:
  assumes "sqlite_read_laws drv (db_dsn (eng_readDB eng)) content"
  shows "content (snd (Query_ptr drv eng req w)) = content w"
proof (cases req)
  case None
  have "content (snd (DB_Conn drv (eng_readDB eng) w)) = content w"
    using assms by (auto simp: sqlite_read_laws_def DB_Conn_def)
  with None show ?thesis by (auto simp: Query_ptr_def split: prod.splits option.splits)
next
  case (Some r)
  with Engine_Query_content [OF assms] show ?thesis by (simp add: Query_ptr_def)
qed

lemma applyAction_effect:
  assumes "good_replica env sp refuses c" and "plain_entry (e_pb env) sp rec"
    and "applyAction env (log_Data rec) (c_db c) (c_world c) = (Ret resp, w')"
  shows "\<not> sp_intx sp w' \<and>
    sp_base sp w' = entry_effect (e_pb env) refuses (sp_sem sp) rec (sp_base sp (c_world c))"
proof -
  note good = assms(1) [unfolded good_replica_def]
  from assms(3) obtain ac where ac: "pb_Unmarshal_Action (e_pb env) (log_Data rec) = Inr ac"
    by (auto simp: applyAction_def split: sum.splits)
  consider (exec) "act_Type ac = Action_ACTION_EXECUTE" | (query) "act_Type ac = Action_ACTION_QUERY"
    | (other) "act_Type ac \<noteq> Action_ACTION_EXECUTE" "act_Type ac \<noteq> Action_ACTION_QUERY" by blast
  then show ?thesis
  proof cases
    case exec
    with assms(3) ac obtain req where req: "pb_Unmarshal_Request (e_pb env) (act_Body ac) = Inr req"
      by (auto simp: applyAction_def split: sum.splits)
    with ac exec have er: "entry_request (e_pb env) rec = Some req" by (simp add: entry_request_def)
    with assms(2) have plain: "plain_request sp req" by (simp add: plain_entry_def)
    obtain out where run: "Engine_Exec (e_drv env) (c_db c) req (c_world c) = (out, w')"
      using assms(3) ac exec req by (auto simp: applyAction_def split: prod.splits)
    from Engine_Exec_effect [OF _ _ _ _ _ plain run, of refuses] good er show ?thesis
      by (simp add: entry_effect_def)
  next
    case query
    with assms(3) ac obtain q where q: "pb_Unmarshal_QueryReq (e_pb env) (act_Body ac) = Inr q"
      by (auto simp: applyAction_def split: sum.splits)
    have "w' = snd (Query_ptr (e_drv env) (c_db c) (qreq_Request q) (c_world c))"
      using assms(3) ac query q by (auto simp: applyAction_def split: prod.splits go.splits)
    with Query_ptr_content [of "e_drv env" "c_db c" "\<lambda>w. (sp_base sp w, sp_intx sp w)"] good
    have "sp_base sp w' = sp_base sp (c_world c)" "sp_intx sp w' = sp_intx sp (c_world c)" by auto
    with good ac query show ?thesis by (simp add: entry_effect_def entry_request_def)
  next
    case other
    with assms(3) ac good show ?thesis by (simp add: applyAction_def entry_effect_def entry_request_def)
  qed
qed

interpretation node: replicated_fsm "apply_step env" "node_content sp" "good_replica env sp refuses"
    "plain_entry (e_pb env) sp" "entry_effect (e_pb env) refuses (sp_sem sp)"
  for env :: "('c, 'r) env" and sp :: "('c, 'v) sqlspec" and refuses
proof unfold_locales
  fix c c' :: "('c, 'r) Consensus" and rec
  assume good: "good_replica env sp refuses c" and plain: "plain_entry (e_pb env) sp rec"
    and "apply_step env rec c = Ret c'"
  then obtain resp where ap: "Apply env rec c = (Ret resp, c')"
    by (auto simp: apply_step_def split: prod.splits go.splits)
  then have "applyAction env (log_Data rec) (c_db c) (c_world c) = (Ret resp, c_world c')" "c_db c' = c_db c"
    by (auto simp: Apply_def split: prod.splits)
  with applyAction_effect [OF good plain] good
  show "good_replica env sp refuses c' \<and>
    node_content sp c' = entry_effect (e_pb env) refuses (sp_sem sp) rec (node_content sp c)"
    by (auto simp: good_replica_def node_content_def)
qed

section \<open>A replica to evaluate on\<close>

text \<open>The sample driver with a reading handle whose transactions are its own.\<close>

definition replica_driver :: "sample driver" where
  "replica_driver =
     sample_driver\<lparr>
       drv_Begin := (\<lambda>dsn w. if dsn = ''file:a'' then drv_Begin sample_driver dsn w else (None, w)),
       drv_Commit := (\<lambda>dsn w. if dsn = ''file:a'' then drv_Commit sample_driver dsn w else (None, w)),
       drv_Rollback := (\<lambda>dsn w. if dsn = ''file:a'' then drv_Rollback sample_driver dsn w else (None, w))\<rparr>"

definition replica_env :: "Request list \<Rightarrow> QueryReq list \<Rightarrow> (sample, sraft) env" where
  "replica_env rs qs = (sample_env rs qs)\<lparr>e_drv := replica_driver\<rparr>"

lemma replica_env_parts [simp]: "e_pb (replica_env rs qs) = sample_pb rs qs" "e_raft (replica_env rs qs) = sample_raft"
  by (simp_all add: replica_env_def)

definition sample_refuses :: "string list \<Rightarrow> string \<Rightarrow> NamedArg list \<Rightarrow> bool" where
  "sample_refuses v sql args \<longleftrightarrow> sql = ''FAIL''"

lemma replica_tx_laws: "sqlite_tx_laws replica_driver ''file:a'' sample_spec"
  using sample_tx_laws [of "''file:a''"]
  by (simp add: sqlite_tx_laws_def law_Connect_def law_Begin_def law_Exec_in_def law_Exec_out_def
      law_Commit_def law_Rollback_def replica_driver_def)

lemma good_sample_replica:
  assumes "c_db c = sample_engine" and "\<not> sm_tx (conns (c_world c))"
  shows "good_replica (replica_env rs qs) sample_spec sample_refuses c"
proof -
  have "law_determined replica_driver ''file:a'' sample_spec sample_refuses"
    by (auto simp: law_determined_def replica_driver_def sample_driver_def sample_exec_def Let_def
        sample_refuses_def)
  moreover have "law_available replica_driver ''file:a''"
    by (simp add: law_available_def replica_driver_def sample_driver_def)
  moreover have "sqlite_read_laws replica_driver ''file:a?mode=ro''
      (\<lambda>w. (sp_base sample_spec w, sp_intx sample_spec w))"
    by (simp add: sqlite_read_laws_def replica_driver_def sample_driver_def)
  ultimately show ?thesis
    using assms replica_tx_laws
    by (simp add: good_replica_def replica_env_def sample_engine_def sample_spec_def)
qed

lemma sample_plain_entry: "plain_entry pb sample_spec rec"
  by (simp add: plain_entry_def plain_request_def sample_spec_def)

section \<open>Properties\<close>

text \<open>
  (C6) The state machine refines the meaning of the log: whenever a node has applied a run of
  committed entries without a panic, the content of its database is the abstract effect of
  those entries, one after the other, on the content it started with; transactions are all
  or nothing, strong queries and unknown actions change nothing, and the node can go on
  from there.
\<close>
theorem replay_implements_log:
  assumes "good_replica env sp refuses c" and "\<forall>rec \<in> set recs. plain_entry (e_pb env) sp rec"
    and "apply_entries env recs c = Ret c'"
  shows "good_replica env sp refuses c' \<and>
    node_content sp c' = fold (entry_effect (e_pb env) refuses (sp_sem sp)) recs (node_content sp c)"
  using node.run_law [OF assms(1,2)] assms(3) by (simp add: apply_entries_run_log)

definition sample_log :: "raftLog list" where
  "sample_log =
     [\<lparr>log_Index = 4, log_Data = [1]\<rparr>, \<lparr>log_Index = 5, log_Data = [0]\<rparr>,
      \<lparr>log_Index = 6, log_Data = [1, 0]\<rparr>, \<lparr>log_Index = 7, log_Data = [2]\<rparr>]"

text \<open>An applied transaction, a strong query, a refused transaction and an action without effect.\<close>

definition sample_replica_env :: "(sample, sraft) env" where
  "sample_replica_env =
     replica_env [sample_request True [''I1'', ''I2''], sample_request True [''I3'', ''FAIL'']]
       [sample_strong [''SELECT 1'']]"

theorem replay_implements_log_witness:
  "\<exists>c'. apply_entries sample_replica_env sample_log (sample_node [''I0'']) = Ret c' \<and>
     node_content sample_spec c' = [''I0'', ''I1'', ''I2'']"
proof -
  let ?c = "sample_node [''I0'']"
  have "(case apply_entries sample_replica_env sample_log ?c of Ret _ \<Rightarrow> True | Panic _ \<Rightarrow> False)"
    by code_simp
  then obtain c' where run: "apply_entries sample_replica_env sample_log ?c = Ret c'"
    by (auto split: go.splits)
  have good: "good_replica sample_replica_env sample_spec sample_refuses ?c"
    unfolding sample_replica_env_def by (rule good_sample_replica) (simp_all add: sample_node_def sample_world_def)
  have "fold (entry_effect (e_pb sample_replica_env) sample_refuses (sp_sem sample_spec)) sample_log
      (node_content sample_spec ?c) = [''I0'', ''I1'', ''I2'']"
    by code_simp
  with replay_implements_log [OF good _ run] sample_plain_entry run show ?thesis by auto
qed

text \<open>
  Replicas converge. Two nodes, on whatever machines, drivers and data directories, whose
  SQLite gives statements the same meaning, that start from databases of the same content
  and apply the same committed entries, end with databases of the same content, also when
  one of them received the entries in two runs with other calls of its own in between that
  left the content alone (weak queries, taking a snapshot).
\<close>
theorem replicas_converge:
  assumes "good_replica env1 sp1 refuses a" and "good_replica env2 sp2 refuses b"
    and "e_pb env1 = e_pb env2" and "sp_sem sp1 = sp_sem sp2" and "sp_plain sp1 = sp_plain sp2"
    and "\<forall>rec \<in> set (xs @ ys). plain_entry (e_pb env1) sp1 rec"
    and "node_content sp1 a = node_content sp2 b"
    and "apply_entries env1 (xs @ ys) a = Ret a'"
    and "apply_entries env2 xs b = Ret b1" and "good_replica env2 sp2 refuses b2"
    and "node_content sp2 b2 = node_content sp2 b1" and "apply_entries env2 ys b2 = Ret b'"
  shows "node_content sp1 a' = node_content sp2 b'"
proof -
  have adm: "\<forall>rec \<in> set (xs @ ys). plain_entry (e_pb env2) sp2 rec"
    using assms(3,5,6) by (simp add: plain_entry_def plain_request_def)
  note run = node.run_content [folded apply_entries_run_log]
  show ?thesis
    using run [OF assms(1,6,8)] run [OF assms(2) _ assms(9)] run [OF assms(10) _ assms(12)]
      adm assms(3,4,7,11) by simp
qed


theorem replicas_converge_witness:
  "\<exists>a b. apply_entries sample_replica_env sample_log (sample_node [''I0'']) = Ret a \<and>
     apply_entries sample_replica_env sample_log (sample_follower [''I0'']) = Ret b \<and>
     node_content sample_spec a = node_content sample_spec b"
proof -
  let ?env = sample_replica_env and ?a = "sample_node [''I0'']" and ?b = "sample_follower [''I0'']"
  have "(case apply_entries ?env sample_log ?a of Ret _ \<Rightarrow> True | Panic _ \<Rightarrow> False)"
    "(case apply_entries ?env sample_log ?b of Ret _ \<Rightarrow> True | Panic _ \<Rightarrow> False)"
    by code_simp+
  then obtain a b where run: "apply_entries ?env (sample_log @ []) ?a = Ret a"
    "apply_entries ?env sample_log ?b = Ret b"
    by (auto split: go.splits)
  have good: "good_replica ?env sample_spec sample_refuses c"
    if "c_db c = sample_engine" "\<not> sm_tx (conns (c_world c))" for c
    unfolding sample_replica_env_def using that by (rule good_sample_replica)
  have ga: "good_replica ?env sample_spec sample_refuses ?a"
    and gb: "good_replica ?env sample_spec sample_refuses ?b"
    by (rule good; simp add: sample_node_def sample_follower_def sample_world_def)+
  have adm: "\<forall>rec \<in> set (sample_log @ []). plain_entry (e_pb ?env) sample_spec rec"
    by (simp add: sample_plain_entry)
  have eq: "node_content sample_spec ?a = node_content sample_spec ?b"
    by (simp add: node_content_def sample_follower_def sample_node_def)
  have gb1: "good_replica ?env sample_spec sample_refuses b"
    using node.run_law [OF gb, of sample_log b] adm run(2) by (simp add: apply_entries_run_log)
  have e: "apply_entries ?env [] b = Ret b" by simp
  from replicas_converge [OF ga gb refl refl refl adm eq run gb1 refl e] run show ?thesis by simp
qed

end
