(* ===== verification/Security.thy ===== *)
theory Security
  imports Prelude
begin

text \<open>
  Package \<open>security\<close> (\<^verbatim>\<open>security/security.go\<close>): the credentials store.

  A Go map is a HOL map; assigning to a key of a map that is nil panics. The JSON decoder
  that \<open>Initialize\<close> reads is what its calls return: the error of the first token, the
  objects that \<open>More\<close> and \<open>Decode\<close> deliver, the error of the last token. An object is
  decoded into a struct the way \<^verbatim>\<open>encoding/json\<close> documents: a field that is absent keeps
  its value. bcrypt's comparison is a parameter.
\<close>

section \<open>The store\<close>

record Creds =
  cr_Username :: string
  cr_Password :: string
  cr_Permissions :: "string list"

record CredentialsStore =
  cs_passwords :: "string \<rightharpoonup> bytes"
  cs_permissions :: "string \<rightharpoonup> string set"

definition AllUser :: string where
  "AllUser = ''*''"

definition NewAuthStore :: CredentialsStore where
  "NewAuthStore = \<lparr>cs_passwords = Map.empty, cs_permissions = Map.empty\<rparr>"

text \<open>One JSON object of the credentials file: the fields that are present.\<close>

record CredsJson =
  cj_username :: "string option"
  cj_password :: "string option"
  cj_perms :: "string list option"

definition decode_Creds :: "CredsJson \<Rightarrow> Creds \<Rightarrow> Creds" where
  "decode_Creds j c =
     \<lparr>cr_Username = (case cj_username j of Some u \<Rightarrow> u | None \<Rightarrow> cr_Username c),
      cr_Password = (case cj_password j of Some p \<Rightarrow> p | None \<Rightarrow> cr_Password c),
      cr_Permissions = (case cj_perms j of Some ps \<Rightarrow> ps | None \<Rightarrow> cr_Permissions c)\<rparr>"

definition store_cred :: "Creds \<Rightarrow> CredentialsStore \<Rightarrow> CredentialsStore" where
  "store_cred c cs =
     cs\<lparr>cs_passwords := (cs_passwords cs)(cr_Username c \<mapsto> bytes_of_string (cr_Password c)),
        cs_permissions := (cs_permissions cs)(cr_Username c \<mapsto> set (cr_Permissions c))\<rparr>"

text \<open>The loop of \<open>Initialize\<close>; the variable \<open>cred\<close> lives across its rounds.\<close>

fun init_loop ::
  "(goerr + CredsJson) list \<Rightarrow> Creds \<Rightarrow> CredentialsStore \<Rightarrow> goerr option \<times> CredentialsStore" where
  "init_loop [] cred cs = (None, cs)"
| "init_loop (Inl err # items) cred cs = (Some err, cs)"
| "init_loop (Inr j # items) cred cs =
     (let cred' = decode_Creds j cred in init_loop items cred' (store_cred cred' cs))"

record CredsReader =
  rd_first :: "goerr option"
  rd_items :: "(goerr + CredsJson) list"
  rd_last :: "goerr option"

definition Initialize :: "CredsReader \<Rightarrow> CredentialsStore \<Rightarrow> goerr option \<times> CredentialsStore" where
  "Initialize rd cs =
     (case rd_first rd of
        Some err \<Rightarrow> (Some err, cs)
      | None \<Rightarrow>
          (case init_loop (rd_items rd) \<lparr>cr_Username = '''', cr_Password = '''', cr_Permissions = []\<rparr> cs of
            (Some err, cs') \<Rightarrow> (Some err, cs')
          | (None, cs') \<Rightarrow> (rd_last rd, cs')))"

text \<open>\<open>cs.permissions[AllUser][perm] = struct{}{}\<close> for each permission.\<close>

fun set_all_perms :: "string list \<Rightarrow> CredentialsStore \<Rightarrow> CredentialsStore go" where
  "set_all_perms [] cs = Ret cs"
| "set_all_perms (perm # perms) cs =
     (case cs_permissions cs AllUser of
        None \<Rightarrow> Panic ''assignment to entry in nil map''
      | Some ps \<Rightarrow>
          set_all_perms perms
            (cs\<lparr>cs_permissions := (cs_permissions cs)(AllUser \<mapsto> insert perm ps)\<rparr>))"

definition SetForAllUser :: "string list \<Rightarrow> CredentialsStore \<Rightarrow> CredentialsStore go" where
  "SetForAllUser perms cs =
     set_all_perms perms (cs\<lparr>cs_passwords := (cs_passwords cs)(AllUser \<mapsto> [])\<rparr>)"

definition ValidatePassword ::
  "(bytes \<Rightarrow> bytes \<Rightarrow> goerr option) \<Rightarrow> CredentialsStore \<Rightarrow> string \<Rightarrow> bytes \<Rightarrow> bool" where
  "ValidatePassword bcrypt cs username password =
     (case cs_passwords cs username of
        None \<Rightarrow> False
      | Some pass \<Rightarrow> bcrypt pass password = None)"

text \<open>What \<open>BasicAuth\<close> finds in the request's header.\<close>

type_synonym basicauth = "(string \<times> string) option"

definition CheckReq ::
  "(bytes \<Rightarrow> bytes \<Rightarrow> goerr option) \<Rightarrow> CredentialsStore \<Rightarrow> basicauth \<Rightarrow> bool" where
  "CheckReq bcrypt cs auth =
     (case auth of
        None \<Rightarrow> False
      | Some (username, password) \<Rightarrow>
          ValidatePassword bcrypt cs username (bytes_of_string password))"

definition HasPermisson :: "CredentialsStore \<Rightarrow> string \<Rightarrow> string \<Rightarrow> bool" where
  "HasPermisson cs username permission =
     (case cs_permissions cs username of
        None \<Rightarrow> False
      | Some mp \<Rightarrow> permission \<in> mp)"

definition HasPermissionReq :: "CredentialsStore \<Rightarrow> basicauth \<Rightarrow> string \<Rightarrow> bool" where
  "HasPermissionReq cs auth perm =
     (case auth of None \<Rightarrow> False | Some (username, _) \<Rightarrow> HasPermisson cs username perm)"

section \<open>Lemmas\<close>

text \<open>A credentials file whose objects have all their fields, and its meaning as a map.\<close>

definition full_json :: "Creds \<Rightarrow> CredsJson" where
  "full_json c =
     \<lparr>cj_username = Some (cr_Username c), cj_password = Some (cr_Password c),
      cj_perms = Some (cr_Permissions c)\<rparr>"

definition creds_table :: "Creds list \<Rightarrow> string \<rightharpoonup> Creds" where
  "creds_table cs = map_of (rev (map (\<lambda>c. (cr_Username c, c)) cs))"

lemma decode_full [simp]: "decode_Creds (full_json c) x = c"
  by (simp add: decode_Creds_def full_json_def)

lemma init_loop_full:
  "init_loop (map (\<lambda>c. Inr (full_json c)) cs @ items) cred st =
     init_loop items (if cs = [] then cred else last cs) (fold store_cred cs st)"
  by (induction cs arbitrary: cred st) (simp_all add: Let_def)

lemma fold_store_cred:
  "cs_passwords (fold store_cred cs st) u =
     (case creds_table cs u of Some c \<Rightarrow> Some (bytes_of_string (cr_Password c)) | None \<Rightarrow> cs_passwords st u)"
  "cs_permissions (fold store_cred cs st) u =
     (case creds_table cs u of Some c \<Rightarrow> Some (set (cr_Permissions c)) | None \<Rightarrow> cs_permissions st u)"
  by (induction cs arbitrary: st)
     (simp_all add: creds_table_def store_cred_def map_add_def split: option.splits)

section \<open>Properties\<close>

text \<open>
  (C33) A credentials file whose entries have all three fields is read as written: the last entry
  of a user decides, a password is checked by bcrypt against that entry, a permission is
  had exactly when that entry lists it, and a name without an entry is refused both.
\<close>
theorem initialize_reads_credentials:
  assumes "rd_first rd = None" and "rd_items rd = map (\<lambda>c. Inr (full_json c)) creds"
    and "Initialize rd NewAuthStore = (e, cs)"
  shows "e = rd_last rd \<and>
    ValidatePassword bcrypt cs u p =
      (case creds_table creds u of None \<Rightarrow> False | Some c \<Rightarrow> bcrypt (bytes_of_string (cr_Password c)) p = None) \<and>
    HasPermisson cs u perm =
      (case creds_table creds u of None \<Rightarrow> False | Some c \<Rightarrow> perm \<in> set (cr_Permissions c))"
proof -
  have "e = rd_last rd" and cs: "cs = fold store_cred creds NewAuthStore"
    using assms init_loop_full [of creds "[]"] by (auto simp: Initialize_def)
  then show ?thesis
    by (simp add: ValidatePassword_def HasPermisson_def fold_store_cred NewAuthStore_def split: option.splits)
qed

definition alice :: Creds where
  "alice = \<lparr>cr_Username = ''alice'', cr_Password = ''$2a$10$x'', cr_Permissions = [''execute'', ''query'']\<rparr>"

theorem initialize_reads_credentials_witness:
  "HasPermisson (snd (Initialize \<lparr>rd_first = None, rd_items = [Inr (full_json alice)], rd_last = None\<rparr> NewAuthStore))
     ''alice'' ''query''"
proof -
  let ?rd = "\<lparr>rd_first = None, rd_items = [Inr (full_json alice)], rd_last = None\<rparr>"
  have "rd_first ?rd = None" "rd_items ?rd = map (\<lambda>c. Inr (full_json c)) [alice]"
    "Initialize ?rd NewAuthStore = (fst (Initialize ?rd NewAuthStore), snd (Initialize ?rd NewAuthStore))"
    by simp_all
  from initialize_reads_credentials [OF this, of "\<lambda>_ _. None" "''alice''" "[]" "''query''"] show ?thesis
    by (simp add: creds_table_def alice_def)
qed

text \<open>
  (C34) An entry without a password gets the password of the entry before it in the file, and an
  entry without permissions that entry's permissions, because one variable is decoded into
  again and again: whoever knows the one user's password can log in as the other and act
  with the same permissions.
\<close>
theorem missing_fields_are_inherited:
  assumes "rd_first rd = None" and "rd_last rd = None"
    and "rd_items rd = map (\<lambda>c. Inr (full_json c)) (creds @ [c]) @
           [Inr \<lparr>cj_username = Some u, cj_password = None, cj_perms = None\<rparr>]"
    and "Initialize rd NewAuthStore = (e, cs)"
  shows "e = None \<and>
    ValidatePassword bcrypt cs u p = (bcrypt (bytes_of_string (cr_Password c)) p = None) \<and>
    HasPermisson cs u perm = (perm \<in> set (cr_Permissions c))"
proof -
  have "e = None" and cs: "cs = store_cred \<lparr>cr_Username = u, cr_Password = cr_Password c, cr_Permissions = cr_Permissions c\<rparr> (fold store_cred (creds @ [c]) NewAuthStore)"
    using assms init_loop_full [of "creds @ [c]" "[Inr \<lparr>cj_username = Some u, cj_password = None, cj_perms = None\<rparr>]"]
    by (auto simp: Initialize_def Let_def decode_Creds_def)
  then show ?thesis by (simp add: ValidatePassword_def HasPermisson_def store_cred_def)
qed

theorem missing_fields_are_inherited_witness:
  "let rd = \<lparr>rd_first = None,
             rd_items = [Inr (full_json alice),
                         Inr \<lparr>cj_username = Some ''bob'', cj_password = None, cj_perms = None\<rparr>],
             rd_last = None\<rparr>
   in HasPermisson (snd (Initialize rd NewAuthStore)) ''bob'' ''execute''"
proof -
  let ?rd = "\<lparr>rd_first = None,
             rd_items = [Inr (full_json alice),
                         Inr \<lparr>cj_username = Some ''bob'', cj_password = None, cj_perms = None\<rparr>],
             rd_last = None\<rparr>"
  have "rd_items ?rd = map (\<lambda>c. Inr (full_json c)) ([] @ [alice]) @
      [Inr \<lparr>cj_username = Some ''bob'', cj_password = None, cj_perms = None\<rparr>]" by simp
  from missing_fields_are_inherited [OF _ _ this, of "fst (Initialize ?rd NewAuthStore)"
      "snd (Initialize ?rd NewAuthStore)" "\<lambda>_ _. None" "[]" "''execute''"]
  show ?thesis by (simp add: Let_def alice_def)
qed

text \<open>
  (C35) Permissions for all users do not work: \<open>SetForAllUser\<close> panics on a store whose file had no
  entry for the user \<open>*\<close>, and where it has one, the permissions it sets give nothing to
  any other name, since \<open>HasPermisson\<close> never looks at the entry of \<open>*\<close>.
\<close>
theorem all_user_permissions_have_no_effect:
  assumes "perms \<noteq> []"
  shows "(cs_permissions cs AllUser = None \<longrightarrow>
      SetForAllUser perms cs = Panic ''assignment to entry in nil map'') \<and>
    (SetForAllUser perms cs = Ret cs' \<and> u \<noteq> AllUser \<longrightarrow> HasPermisson cs' u perm = HasPermisson cs u perm)"
proof -
  have panic: "set_all_perms perms x = Panic ''assignment to entry in nil map''"
    if "cs_permissions x AllUser = None" for x
    using assms that by (cases perms) simp_all
  have keep: "set_all_perms ps x = Ret y \<Longrightarrow> u \<noteq> AllUser \<Longrightarrow> cs_permissions y u = cs_permissions x u" for ps x y
    by (induction ps arbitrary: x) (auto split: option.splits)
  show ?thesis
    using panic keep by (fastforce simp: SetForAllUser_def HasPermisson_def)
qed

theorem all_user_permissions_have_no_effect_witness:
  "SetForAllUser [''query''] NewAuthStore = Panic ''assignment to entry in nil map''"
  using all_user_permissions_have_no_effect [of "[''query'']" NewAuthStore]
  by (simp add: NewAuthStore_def)

end
