(* ===== verification/Store.thy ===== *)
theory Store
  imports Membership
begin

text \<open>
  The interface \<open>Store\<close> of package \<open>service\<close> (\<^verbatim>\<open>service/service.go\<close>, lines 34 to 42): the
  operations the HTTP front calls, as a record, and its contracts as locales.

  \<^item> \<open>store\<close>: a store that is not the leader refuses what must go through the leader, with
    \<open>ErrNotLeader\<close> and without a change.
  \<^item> \<open>serving_store\<close> extends it by what a weak query may do: nothing to the data.

  Both are interpreted on the consensus node.
\<close>

section \<open>The interface\<close>

record 's StoreOps =
  st_Exec :: "Request \<Rightarrow> 's \<Rightarrow> ((ExecRes list option \<times> goerr option) \<times> 's) go"
  st_Query :: "QueryReq \<Rightarrow> 's \<Rightarrow> ((QueryRes list option \<times> goerr option) \<times> 's) go"
  st_LeaderAddr :: "'s \<Rightarrow> string"
  st_Join :: "string \<Rightarrow> string \<Rightarrow> 's \<Rightarrow> goerr option \<times> 's"
  st_Leave :: "string \<Rightarrow> 's \<Rightarrow> goerr option \<times> 's"
  st_GetServers :: "'s \<Rightarrow> goerr + Server list"
  st_Metrics :: "'s \<Rightarrow> ((goerr + NodeMetrics) \<times> 's) go"

locale store =
  fixes ops :: "'s StoreOps"
    and leader :: "'s \<Rightarrow> bool"
  assumes exec_refused: "\<not> leader s \<Longrightarrow> st_Exec ops req s = Ret ((None, Some ErrNotLeader), s)"
    and query_refused:
      "\<not> leader s \<Longrightarrow> qreq_StrongConsistency q \<Longrightarrow> st_Query ops q s = Ret ((None, Some ErrNotLeader), s)"
    and join_refused: "\<not> leader s \<Longrightarrow> st_Join ops i a s = (Some ErrNotLeader, s)"
    and leave_refused: "\<not> leader s \<Longrightarrow> st_Leave ops i s = (Some ErrNotLeader, s)"

locale serving_store = store +
  fixes data :: "'a \<Rightarrow> 'v"
    and ok :: "'a \<Rightarrow> bool"
  assumes weak_query_data:
      "ok s \<Longrightarrow> \<not> qreq_StrongConsistency q \<Longrightarrow> st_Query ops q s = Ret (out, s') \<Longrightarrow> data s' = data s \<and> ok s'"
    and metrics_data: "ok s \<Longrightarrow> st_Metrics ops s = Ret (m, s') \<Longrightarrow> data s' = data s \<and> ok s'"

section \<open>The consensus node as a store\<close>

definition consensus_ops :: "('c, 'r) env \<Rightarrow> ('c, 'r) Consensus StoreOps" where
  "consensus_ops env =
     \<lparr>st_Exec = Exec env, st_Query = Query env, st_LeaderAddr = LeaderAddr env,
      st_Join = Join env, st_Leave = Leave env, st_GetServers = GetServers env,
      st_Metrics = Metrics env\<rparr>"

definition readable_node :: "('c, 'r) env \<Rightarrow> ('c world \<Rightarrow> 'v) \<Rightarrow> ('c, 'r) Consensus \<Rightarrow> bool" where
  "readable_node env content c \<longleftrightarrow>
     sqlite_read_laws (e_drv env) (db_dsn (eng_readDB (c_db c))) content"

lemma Query_weak_world:
  assumes "readable_node env content c" and "\<not> qreq_StrongConsistency q" and "Query env q c = Ret (out, c')"
  shows "content (c_world c') = content (c_world c) \<and> c' = c\<lparr>c_world := c_world c'\<rparr>"
proof -
  from assms(2,3) obtain req where req: "qreq_Request q = Some req"
    by (auto simp: Query_def split: option.splits)
  with assms(2,3) have "Engine_Query (e_drv env) (c_db c) req (c_world c) = (Ret out, c_world c')"
    "c' = c\<lparr>c_world := c_world c'\<rparr>"
    by (auto simp: Query_def split: prod.splits go.splits)
  with Engine_Query_content [of "e_drv env" "c_db c" content req "c_world c"] assms(1) show ?thesis
    by (simp add: readable_node_def)
qed

lemma Size_content:
  assumes "sqlite_read_laws drv (db_dsn (eng_readDB eng)) content"
  shows "content (snd (Size drv eng w)) = content w"
proof -
  have "content (snd (QueryString drv eng size_query w)) = content w"
    using Engine_Query_content [OF assms] by (simp add: QueryString_def)
  then show ?thesis by (auto simp: Size_def split: prod.splits go.splits option.splits)
qed

lemma Metrics_world:
  assumes "readable_node env content c" and "Metrics env c = Ret (m, c')"
  shows "content (c_world c') = content (c_world c) \<and> c' = c\<lparr>c_world := c_world c'\<rparr>"
  using assms(2) Size_content [of "e_drv env" "c_db c" content "c_world c"] assms(1)
  by (auto simp: Metrics_def readable_node_def dest: arg_cong [of _ _ snd]
      split: prod.splits go.splits option.splits)

interpretation cs: store "consensus_ops env" "IsLeader env" for env :: "('c, 'r) env"
  by unfold_locales (simp_all add: consensus_ops_def Exec_def Query_def Join_def Leave_def IsLeader_def)

interpretation css: serving_store "consensus_ops env" "IsLeader env"
    "\<lambda>c. (content (c_world c), c_raft c, c_lastIdx c)" "readable_node env content"
  for env :: "('c, 'r) env" and content
proof unfold_locales
  fix c c' :: "('c, 'r) Consensus" and q out m
  assume ok: "readable_node env content c"
  have frame: "(content (c_world c'), c_raft c', c_lastIdx c') = (content (c_world c), c_raft c, c_lastIdx c) \<and>
      readable_node env content c'"
    if "content (c_world c') = content (c_world c) \<and> c' = c\<lparr>c_world := c_world c'\<rparr>"
  proof -
    from that have c': "c' = c\<lparr>c_world := c_world c'\<rparr>" by blast
    have "c_raft c' = c_raft c" "c_lastIdx c' = c_lastIdx c" "c_db c' = c_db c"
      using arg_cong [OF c', of c_raft] arg_cong [OF c', of c_lastIdx] arg_cong [OF c', of c_db] by simp_all
    with that ok show ?thesis by (simp add: readable_node_def)
  qed
  { assume "\<not> qreq_StrongConsistency q" "st_Query (consensus_ops env) q c = Ret (out, c')"
    then show "(content (c_world c'), c_raft c', c_lastIdx c') = (content (c_world c), c_raft c, c_lastIdx c) \<and>
        readable_node env content c'"
      using Query_weak_world [OF ok] frame by (simp add: consensus_ops_def) }
  { assume "st_Metrics (consensus_ops env) c = Ret (m, c')"
    then show "(content (c_world c'), c_raft c', c_lastIdx c') = (content (c_world c), c_raft c, c_lastIdx c) \<and>
        readable_node env content c'"
      using Metrics_world [OF ok] frame by (simp add: consensus_ops_def) }
qed

end
