(* ===== verification/Utf8.thy ===== *)
theory Utf8
  imports Prelude
begin

text \<open>
  Package \<^verbatim>\<open>unicode/utf8\<close> as far as the JSON encoder and decoder use it: decoding one rune,
  with U+FFFD of width 1 for a bad byte, encoding one rune, and valid strings. Shown here: a
  rune that was decoded from a valid string is encoded as the bytes it came from, and the
  bytes after it do not matter, which gives an induction rule for valid strings.
\<close>

abbreviation cn :: "char \<Rightarrow> nat" where "cn c \<equiv> of_char c"

section \<open>Runes\<close>

definition is_cont :: "nat \<Rightarrow> nat \<Rightarrow> char list \<Rightarrow> bool" where
  "is_cont lo hi cs = (case cs of [] \<Rightarrow> False | c # _ \<Rightarrow> lo \<le> cn c \<and> cn c \<le> hi)"

abbreviation tail6 :: "char \<Rightarrow> nat" where "tail6 c \<equiv> cn c mod 64"

text \<open>\<open>utf8.DecodeRune\<close>: the rune and its width; an invalid encoding is U+FFFD of width 1.\<close>

definition DecodeRune :: "char \<Rightarrow> char list \<Rightarrow> nat \<times> nat" where
  "DecodeRune c cs =
     (let b = cn c; bad = (65533, 1);
          two = (\<lambda>lo hi. if is_cont lo hi cs \<and> is_cont 128 191 (drop 1 cs)
                         then ((b mod 16) * 4096 + tail6 (cs ! 0) * 64 + tail6 (cs ! 1), 3) else bad);
          three = (\<lambda>lo hi. if is_cont lo hi cs \<and> is_cont 128 191 (drop 1 cs) \<and> is_cont 128 191 (drop 2 cs)
                           then ((b mod 8) * 262144 + tail6 (cs ! 0) * 4096 + tail6 (cs ! 1) * 64 + tail6 (cs ! 2), 4)
                           else bad)
      in if b < 128 then (b, 1)
         else if 194 \<le> b \<and> b \<le> 223 then
           (if is_cont 128 191 cs then ((b mod 32) * 64 + tail6 (cs ! 0), 2) else bad)
         else if b = 224 then two 160 191
         else if b = 237 then two 128 159
         else if 225 \<le> b \<and> b \<le> 239 then two 128 191
         else if b = 240 then three 144 191
         else if 241 \<le> b \<and> b \<le> 243 then three 128 191
         else if b = 244 then three 128 143
         else bad)"

definition EncodeRune :: "nat \<Rightarrow> string" where
  "EncodeRune r =
     (if r < 128 then [char_of r]
      else if r < 2048 then [char_of (192 + r div 64), char_of (128 + r mod 64)]
      else if r < 65536 then
        [char_of (224 + r div 4096), char_of (128 + r div 64 mod 64), char_of (128 + r mod 64)]
      else
        [char_of (240 + r div 262144), char_of (128 + r div 4096 mod 64),
         char_of (128 + r div 64 mod 64), char_of (128 + r mod 64)])"

section \<open>Decoding and encoding\<close>

text \<open>Digits in base 64.\<close>

lemma base_digit: "z < k \<Longrightarrow> (q * k + z) div k = q \<and> (q * k + z) mod k = (z :: nat)"
  by simp

lemma tail6_sub: "128 \<le> a \<Longrightarrow> a \<le> 191 \<Longrightarrow> a mod 64 < 64 \<and> 128 + a mod 64 = (a :: nat)"
  using base_digit [of "a - 128" 64 2] by simp

lemma rune_digits:
  fixes x y z w :: nat
  assumes "y < 64" "z < 64" "w < 64"
  shows "(x * 64 + y) div 64 = x" "(x * 64 + y) mod 64 = y"
    "(x * 4096 + y * 64 + z) div 4096 = x" "(x * 4096 + y * 64 + z) div 64 mod 64 = y" "(x * 4096 + y * 64 + z) mod 64 = z"
    "(x * 262144 + y * 4096 + z * 64 + w) div 262144 = x" "(x * 262144 + y * 4096 + z * 64 + w) div 4096 mod 64 = y"
    "(x * 262144 + y * 4096 + z * 64 + w) div 64 mod 64 = z" "(x * 262144 + y * 4096 + z * 64 + w) mod 64 = w"
proof -
  show "(x * 64 + y) div 64 = x" "(x * 64 + y) mod 64 = y" using assms by simp_all
  have 3: "(x * 4096 + y * 64 + z) = (x * 64 + y) * 64 + z" for x y z :: nat by simp
  have d3: "(x * 4096 + y * 64 + z) div 64 = x * 64 + y" if "z < 64" for x y z :: nat
    unfolding 3 using base_digit [OF that] by blast
  show "(x * 4096 + y * 64 + z) mod 64 = z" unfolding 3 using base_digit [OF assms(2)] by blast
  show "(x * 4096 + y * 64 + z) div 64 mod 64 = y" unfolding d3 [OF assms(2)] using base_digit [OF assms(1)] by blast
  have q: "n div 4096 = n div 64 div 64" "n div 262144 = n div 64 div 64 div 64" for n :: nat
    by (simp_all flip: div_mult2_eq)
  show "(x * 4096 + y * 64 + z) div 4096 = x" unfolding q d3 [OF assms(2)] using base_digit [OF assms(1)] by blast
  have 4: "(x * 262144 + y * 4096 + z * 64 + w) = (x * 4096 + y * 64 + z) * 64 + w" by simp
  have d4: "(x * 262144 + y * 4096 + z * 64 + w) div 64 = x * 4096 + y * 64 + z"
    unfolding 4 using base_digit [OF assms(3)] by blast
  show "(x * 262144 + y * 4096 + z * 64 + w) mod 64 = w" unfolding 4 using base_digit [OF assms(3)] by blast
  show "(x * 262144 + y * 4096 + z * 64 + w) div 64 mod 64 = z"
    "(x * 262144 + y * 4096 + z * 64 + w) div 4096 mod 64 = y"
    "(x * 262144 + y * 4096 + z * 64 + w) div 262144 = x"
    unfolding q d4 d3 [OF assms(2)] 3 using base_digit [OF assms(1)] base_digit [OF assms(2)] by (auto simp only:)
qed

lemma EncodeRune_digits:
  fixes x y z w :: nat
  assumes "y < 64" "z < 64" "w < 64"
  shows "128 \<le> x * 64 + y \<Longrightarrow> x * 64 + y < 2048 \<Longrightarrow>
      EncodeRune (x * 64 + y) = [char_of (192 + x), char_of (128 + y)]"
    and "2048 \<le> x * 4096 + y * 64 + z \<Longrightarrow> x * 4096 + y * 64 + z < 65536 \<Longrightarrow>
      EncodeRune (x * 4096 + y * 64 + z) = [char_of (224 + x), char_of (128 + y), char_of (128 + z)]"
    and "65536 \<le> x * 262144 + y * 4096 + z * 64 + w \<Longrightarrow>
      EncodeRune (x * 262144 + y * 4096 + z * 64 + w) =
        [char_of (240 + x), char_of (128 + y), char_of (128 + z), char_of (128 + w)]"
  unfolding EncodeRune_def rune_digits [OF assms] by simp_all

lemma is_cont_Cons: "is_cont lo hi cs \<longleftrightarrow> (\<exists>a as. cs = a # as \<and> lo \<le> cn a \<and> cn a \<le> hi)"
  by (cases cs) (auto simp: is_cont_def)

lemma lead_byte: "x < m \<Longrightarrow> (q * m + x) mod m = (x :: nat)"
  by simp

lemma decode2:
  assumes "194 \<le> cn c" "cn c \<le> 223" "is_cont 128 191 cs"
  shows "\<exists>a as r. cs = a # as \<and> EncodeRune r = [c, a] \<and> (\<forall>rest. DecodeRune c (a # rest) = (r, 2))"
proof -
  from assms(3) obtain a as where cs: "cs = a # as" and a: "128 \<le> cn a" "cn a \<le> 191"
    by (auto simp: is_cont_Cons)
  define x where "x = cn c - 192"
  have c: "cn c = 6 * 32 + x" "2 \<le> x" "x < 32" using assms(1,2) by (auto simp: x_def)
  have cm: "cn c mod 32 = x" unfolding c(1) by (rule lead_byte [OF c(3)])
  note t = tail6_sub [OF a]
  let ?r = "x * 64 + tail6 a"
  have r: "128 \<le> ?r" "?r < 2048" using c t by linarith+
  have "EncodeRune ?r = [char_of (cn c), char_of (cn a)]"
    using EncodeRune_digits(1) [of "tail6 a" 0 0 x] r t c(1) by simp
  moreover have "DecodeRune c (a # rest) = (?r, 2)" for rest
    using assms(1,2) a cm by (simp add: DecodeRune_def is_cont_def)
  ultimately show ?thesis using cs by auto
qed

lemma decode3:
  assumes "224 \<le> cn c" "cn c \<le> 239"
    and "is_cont (if cn c = 224 then 160 else 128) (if cn c = 237 then 159 else 191) cs" "is_cont 128 191 (drop 1 cs)"
  shows "\<exists>a b as r. cs = a # b # as \<and> EncodeRune r = [c, a, b] \<and> (\<forall>rest. DecodeRune c (a # b # rest) = (r, 3))"
proof -
  from assms(3,4) obtain a b as where cs: "cs = a # b # as"
    and a: "128 \<le> cn a" "cn a \<le> 191" "cn c = 224 \<longrightarrow> 160 \<le> cn a" "cn c = 237 \<longrightarrow> cn a \<le> 159"
    and b: "128 \<le> cn b" "cn b \<le> 191"
    by (auto simp: is_cont_Cons split: if_splits)
  define x where "x = cn c - 224"
  have c: "cn c = 14 * 16 + x" "x < 16" using assms(1,2) by (auto simp: x_def)
  have cm: "cn c mod 16 = x" unfolding c(1) by (rule lead_byte [OF c(2)])
  note t = tail6_sub [OF a(1,2)] tail6_sub [OF b]
  let ?r = "x * 4096 + tail6 a * 64 + tail6 b"
  have "x = 0 \<Longrightarrow> 32 \<le> tail6 a" using a(3) c(1) t(1) by linarith
  then have r: "2048 \<le> ?r" "?r < 65536" using c t by (cases "x = 0"; linarith)+
  have "EncodeRune ?r = [char_of (cn c), char_of (cn a), char_of (cn b)]"
    using EncodeRune_digits(2) [of "tail6 a" "tail6 b" 0 x] r t c(1) by simp
  moreover have "DecodeRune c (a # b # rest) = (?r, 3)" for rest
    using assms(1,2) a b cm by (auto simp: DecodeRune_def is_cont_def Let_def)
  ultimately show ?thesis using cs by auto
qed

lemma decode4:
  assumes "240 \<le> cn c" "cn c \<le> 244"
    and "is_cont (if cn c = 240 then 144 else 128) (if cn c = 244 then 143 else 191) cs" "is_cont 128 191 (drop 1 cs)"
    and "is_cont 128 191 (drop 2 cs)"
  shows "\<exists>a b d as r. cs = a # b # d # as \<and> EncodeRune r = [c, a, b, d] \<and>
    (\<forall>rest. DecodeRune c (a # b # d # rest) = (r, 4))"
proof -
  from assms(3-5) obtain a b d as where cs: "cs = a # b # d # as"
    and a: "128 \<le> cn a" "cn a \<le> 191" "cn c = 240 \<longrightarrow> 144 \<le> cn a" "cn c = 244 \<longrightarrow> cn a \<le> 143"
    and b: "128 \<le> cn b" "cn b \<le> 191" and d: "128 \<le> cn d" "cn d \<le> 191"
    by (auto simp: is_cont_Cons split: if_splits)
  define x where "x = cn c - 240"
  have c: "cn c = 30 * 8 + x" "x < 5" using assms(1,2) by (auto simp: x_def)
  have cm: "cn c mod 8 = x" unfolding c(1) using c(2) by (intro lead_byte) simp
  note t = tail6_sub [OF a(1,2)] tail6_sub [OF b] tail6_sub [OF d]
  let ?r = "x * 262144 + tail6 a * 4096 + tail6 b * 64 + tail6 d"
  have "x = 0 \<Longrightarrow> 16 \<le> tail6 a" using a(3) c(1) t(1) by linarith
  then have r: "65536 \<le> ?r" using c t by (cases "x = 0"; linarith)+
  have "EncodeRune ?r = [char_of (cn c), char_of (cn a), char_of (cn b), char_of (cn d)]"
    using EncodeRune_digits(3) [of "tail6 a" "tail6 b" "tail6 d" x] r t c(1) by simp
  moreover have "DecodeRune c (a # b # d # rest) = (?r, 4)" for rest
    using assms(1,2) a b d cm by (auto simp: DecodeRune_def is_cont_def Let_def)
  ultimately show ?thesis using cs by auto
qed

text \<open>A decoded rune that is not the replacement of a bad byte is encoded as it was.\<close>

lemma DecodeRune_valid:
  assumes "DecodeRune c cs = (r, k)" "k = 1 \<longrightarrow> cn c < 128"
  shows "\<exists>as bs. cs = as @ bs \<and> k = Suc (length as) \<and> EncodeRune r = c # as \<and> (\<forall>rest. DecodeRune c (as @ rest) = (r, k))"
proof -
  have two: ?thesis if "194 \<le> cn c" "cn c \<le> 223" "is_cont 128 191 cs"
    using decode2 [OF that] assms(1) by force
  have three: ?thesis if "224 \<le> cn c" "cn c \<le> 239" "is_cont (if cn c = 224 then 160 else 128) (if cn c = 237 then 159 else 191) cs"
    "is_cont 128 191 (drop 1 cs)"
    using decode3 [OF that] assms(1) by force
  have four: ?thesis if "240 \<le> cn c" "cn c \<le> 244" "is_cont (if cn c = 240 then 144 else 128) (if cn c = 244 then 143 else 191) cs"
    "is_cont 128 191 (drop 1 cs)" "is_cont 128 191 (drop 2 cs)"
    using decode4 [OF that] assms(1) by force
  consider "cn c < 128" | "128 \<le> cn c" "cn c < 194" | "194 \<le> cn c" "cn c \<le> 223"
    | "cn c = 224 \<or> cn c = 237 \<or> 225 \<le> cn c \<and> cn c \<le> 239 \<and> cn c \<noteq> 237"
    | "cn c = 240 \<or> 241 \<le> cn c \<and> cn c \<le> 243 \<or> cn c = 244" | "245 \<le> cn c"
    by linarith
  then show ?thesis
  proof cases
    case 1
    with assms(1) show ?thesis by (auto simp: DecodeRune_def EncodeRune_def)
  next
    case 3
    with assms have "is_cont 128 191 cs" by (simp add: DecodeRune_def split: if_splits)
    with 3 show ?thesis by (rule two)
  next
    case 4
    with assms show ?thesis by (elim disjE; intro three) (simp_all add: DecodeRune_def split: if_splits)
  next
    case 5
    with assms show ?thesis by (elim disjE; intro four) (simp_all add: DecodeRune_def split: if_splits)
  qed (use assms in \<open>simp_all add: DecodeRune_def\<close>)
qed

section \<open>Valid strings\<close>

definition ascii :: "string \<Rightarrow> bool" where
  "ascii s \<longleftrightarrow> (\<forall>c \<in> set s. cn c < 128)"

lemma EncodeRune_tail: "EncodeRune r = c # as \<Longrightarrow> x \<in> set as \<Longrightarrow> 128 \<le> cn x"
  by (auto simp: EncodeRune_def split: if_splits)

text \<open>\<open>utf8.Valid\<close>\<close>

function utf8 :: "string \<Rightarrow> bool" where
  "utf8 [] = True"
| "utf8 (c # cs) = (case DecodeRune c cs of (r, k) \<Rightarrow> (k = 1 \<longrightarrow> cn c < 128) \<and> utf8 (drop (k - 1) cs))"
  by pat_completeness auto
termination by (relation "measure length") (auto simp: less_Suc_eq_le)

declare utf8.simps [simp del]

lemma ascii_utf8 [simp]: "ascii s \<Longrightarrow> utf8 s"
  by (induction s) (simp_all add: ascii_def utf8.simps DecodeRune_def)

text \<open>A valid string is empty, or an ASCII character or a longer encoding and then a valid string.\<close>

lemma utf8_cases:
  assumes "utf8 s"
  obtains (empty) "s = []"
    | (single) c cs where "s = c # cs" "cn c < 128" "utf8 cs"
    | (multi) c as cs r where "s = c # as @ cs" "128 \<le> cn c" "as \<noteq> []" "utf8 cs" "EncodeRune r = c # as"
        "\<forall>rest. DecodeRune c (as @ rest) = (r, Suc (length as))"
proof (cases s)
  case (Cons c cs)
  obtain r k where d: "DecodeRune c cs = (r, k)" by fastforce
  with assms Cons have v: "k = 1 \<longrightarrow> cn c < 128" "utf8 (drop (k - 1) cs)" by (simp_all add: utf8.simps)
  show ?thesis
  proof (cases "cn c < 128")
    case True
    with d v(2) have "utf8 cs" by (auto simp: DecodeRune_def)
    with True Cons single show ?thesis by blast
  next
    case False
    from DecodeRune_valid [OF d v(1)] obtain as bs where *: "cs = as @ bs" "k = Suc (length as)"
      "EncodeRune r = c # as" "\<forall>rest. DecodeRune c (as @ rest) = (r, k)" by blast
    moreover from * False v(1) have "as \<noteq> []" by auto
    ultimately show ?thesis using multi [of c as bs r] Cons False v(2) by simp
  qed
qed (rule empty)

lemma utf8_induct [consumes 1, case_names empty single multi]:
  assumes "utf8 s" and "P []"
    and "\<And>c cs. cn c < 128 \<Longrightarrow> utf8 cs \<Longrightarrow> P cs \<Longrightarrow> P (c # cs)"
    and "\<And>c as cs r. 128 \<le> cn c \<Longrightarrow> as \<noteq> [] \<Longrightarrow> utf8 cs \<Longrightarrow> EncodeRune r = c # as \<Longrightarrow>
      \<forall>rest. DecodeRune c (as @ rest) = (r, Suc (length as)) \<Longrightarrow> P cs \<Longrightarrow> P (c # as @ cs)"
  shows "P s"
  using assms(1)
proof (induction s rule: length_induct)
  case (1 s)
  from "1.prems" show ?case
  proof (cases rule: utf8_cases)
    case (single c cs)
    with "1.IH" assms(3) show ?thesis by simp
  next
    case (multi c as cs r)
    with "1.IH" assms(4) show ?thesis by simp
  qed (use assms(2) in simp)
qed

end
