(* ===== verification/Json.thy ===== *)
theory Json
  imports Utf8
begin

text \<open>
  The part of \<^verbatim>\<open>encoding/json\<close> and \<^verbatim>\<open>unicode/utf8\<close> (Go 1.21) that the program uses: a parser
  from bytes to JSON values and the printer of the encoder.

  \<^item> A number keeps its literal text; its conversion to and from \<open>float64\<close> is a parameter
    where it is needed.
  \<^item> Strings are byte strings; the parser replaces invalid UTF-8 and unpaired surrogates by
    U+FFFD, as the decoder does, and the printer escapes what the encoder escapes.
  \<^item> The parser has fuel for its three mutually recursive functions. \<open>parse_json\<close> starts with
    twice the length of the input plus one, which is enough: with more fuel the result is
    the same (\<open>parse_fuel\<close>).
  \<^item> Shown here: what the printer writes, the parser reads back, for every value whose strings
    are valid UTF-8 and whose nesting is within the decoder's limit.
\<close>

section \<open>Values\<close>

datatype json =
    JNull
  | JBool bool
  | JNum string
  | JStr string
  | JArr "json list"
  | JObj "(string \<times> json) list"

section \<open>Parsing\<close>

definition is_ws :: "char \<Rightarrow> bool" where
  "is_ws c \<longleftrightarrow> cn c = 32 \<or> cn c = 9 \<or> cn c = 10 \<or> cn c = 13"

definition skip_ws :: "string \<Rightarrow> string" where "skip_ws s = dropWhile is_ws s"

definition is_digit :: "char \<Rightarrow> bool" where
  "is_digit c \<longleftrightarrow> 48 \<le> cn c \<and> cn c \<le> 57"

definition hexval :: "char \<Rightarrow> nat option" where
  "hexval c =
     (let n = cn c in
      if 48 \<le> n \<and> n \<le> 57 then Some (n - 48)
      else if 97 \<le> n \<and> n \<le> 102 then Some (n - 87)
      else if 65 \<le> n \<and> n \<le> 70 then Some (n - 55)
      else None)"

definition getu4 :: "string \<Rightarrow> nat option" where
  "getu4 s =
     (case s of
        a # b # c # d # _ \<Rightarrow>
          (case (hexval a, hexval b, hexval c, hexval d) of
            (Some w, Some x, Some y, Some z) \<Rightarrow> Some (w * 4096 + x * 256 + y * 16 + z)
          | _ \<Rightarrow> None)
      | _ \<Rightarrow> None)"

text \<open>The escape after a backslash that stands for one character.\<close>

definition simple_escape :: "char \<Rightarrow> char option" where
  "simple_escape c =
     (if c = CHR 0x22 \<or> c = CHR 0x5C \<or> c = CHR ''/'' then Some c
      else if c = CHR ''b'' then Some (CHR 0x08)
      else if c = CHR ''f'' then Some (CHR 0x0C)
      else if c = CHR ''n'' then Some (CHR 0x0A)
      else if c = CHR ''r'' then Some (CHR 0x0D)
      else if c = CHR ''t'' then Some (CHR 0x09)
      else None)"

text \<open>
  A \<open>\u\<close> escape: a high surrogate takes the low one that follows it, any other surrogate is
  U+FFFD. The result is the rune and the number of characters taken after the first four
  digits.
\<close>

definition u_escape :: "nat \<Rightarrow> string \<Rightarrow> nat \<times> nat" where
  "u_escape r after =
     (if 55296 \<le> r \<and> r < 57344 then
        (case (take 2 after = [CHR 0x5C, CHR ''u''], getu4 (drop 2 after)) of
          (True, Some r2) \<Rightarrow>
            if r < 56320 \<and> 56320 \<le> r2 \<and> r2 < 57344
            then ((r - 55296) * 1024 + (r2 - 56320) + 65536, 6) else (65533, 0)
        | _ \<Rightarrow> (65533, 0))
      else (r, 0))"

text \<open>The characters of a string literal after its opening quote.\<close>

function parse_chars :: "string \<Rightarrow> (string \<times> string) option" where
  "parse_chars [] = None"
| "parse_chars (c # cs) =
     (if c = CHR 0x22 then Some ([], cs)
      else if c = CHR 0x5C then
        (case cs of
          [] \<Rightarrow> None
        | e # cs' \<Rightarrow>
            if e = CHR ''u'' then
              (case getu4 cs' of
                None \<Rightarrow> None
              | Some r \<Rightarrow>
                  (case u_escape r (drop 4 cs') of
                    (rune, k) \<Rightarrow> map_option (apfst ((@) (EncodeRune rune))) (parse_chars (drop (4 + k) cs'))))
            else
              (case simple_escape e of
                None \<Rightarrow> None
              | Some x \<Rightarrow> map_option (apfst ((#) x)) (parse_chars cs')))
      else if cn c < 32 then None
      else
        (case DecodeRune c cs of
          (rune, k) \<Rightarrow> map_option (apfst ((@) (EncodeRune rune))) (parse_chars (drop (k - 1) cs))))"
  by pat_completeness auto
termination by (relation "measure length") (auto simp: less_Suc_eq_le)

definition num_char :: "char \<Rightarrow> bool" where
  "num_char c \<longleftrightarrow> is_digit c \<or> c \<in> set ''+-.eE''"

text \<open>The grammar of a JSON number, on a whole token.\<close>

definition num_exp :: "string \<Rightarrow> bool" where
  "num_exp s =
     (case s of
        [] \<Rightarrow> True
      | c # r \<Rightarrow> c \<in> set ''eE'' \<and>
          (let d = (case r of x # r' \<Rightarrow> if x \<in> set ''+-'' then r' else r | [] \<Rightarrow> [])
           in d \<noteq> [] \<and> list_all is_digit d))"

definition num_frac :: "string \<Rightarrow> bool" where
  "num_frac s =
     (case s of
        [] \<Rightarrow> True
      | c # r \<Rightarrow> if c = CHR ''.'' then takeWhile is_digit r \<noteq> [] \<and> num_exp (dropWhile is_digit r) else num_exp s)"

definition num_ok :: "string \<Rightarrow> bool" where
  "num_ok s =
     (let t = (case s of c # r \<Rightarrow> if c = CHR ''-'' then r else s | [] \<Rightarrow> []) in
      case t of
        [] \<Rightarrow> False
      | c # r \<Rightarrow>
          is_digit c \<and> (if c = CHR ''0'' then num_frac r else num_frac (dropWhile is_digit r)))"

definition lit :: "string \<Rightarrow> json \<Rightarrow> string \<Rightarrow> (json \<times> string) option" where
  "lit w v s = (if take (length w) s = w then Some (v, drop (length w) s) else None)"

text \<open>The values with no parts.\<close>

definition parse_atom :: "string \<Rightarrow> (json \<times> string) option" where
  "parse_atom s =
     (case s of
        [] \<Rightarrow> None
      | c # cs \<Rightarrow>
          if c = CHR 0x22 then map_option (apfst JStr) (parse_chars cs)
          else if c = CHR ''t'' then lit ''true'' (JBool True) s
          else if c = CHR ''f'' then lit ''false'' (JBool False) s
          else if c = CHR ''n'' then lit ''null'' JNull s
          else if num_ok (takeWhile num_char s)
          then Some (JNum (takeWhile num_char s), dropWhile num_char s)
          else None)"

text \<open>
  The first argument is fuel, the second the nesting that is still allowed. A list of
  elements or members is read after its opening bracket or a comma.
\<close>

fun parse_value :: "nat \<Rightarrow> nat \<Rightarrow> string \<Rightarrow> (json \<times> string) option"
and parse_elems :: "nat \<Rightarrow> nat \<Rightarrow> string \<Rightarrow> (json list \<times> string) option"
and parse_members :: "nat \<Rightarrow> nat \<Rightarrow> string \<Rightarrow> ((string \<times> json) list \<times> string) option" where
  "parse_value 0 d s = None"
| "parse_value (Suc n) d s =
     (case skip_ws s of
        [] \<Rightarrow> None
      | c # cs \<Rightarrow>
          if c = CHR ''['' then
            (case d of 0 \<Rightarrow> None | Suc d' \<Rightarrow>
              (case skip_ws cs of
                x # r \<Rightarrow> if x = CHR '']'' then Some (JArr [], r)
                         else map_option (apfst JArr) (parse_elems n d' cs)
              | [] \<Rightarrow> None))
          else if c = CHR ''{'' then
            (case d of 0 \<Rightarrow> None | Suc d' \<Rightarrow>
              (case skip_ws cs of
                x # r \<Rightarrow> if x = CHR ''}'' then Some (JObj [], r)
                         else map_option (apfst JObj) (parse_members n d' cs)
              | [] \<Rightarrow> None))
          else parse_atom (c # cs))"
| "parse_elems 0 d s = None"
| "parse_elems (Suc n) d s =
     (case parse_value n d s of
        None \<Rightarrow> None
      | Some (v, r) \<Rightarrow>
          (case skip_ws r of
            [] \<Rightarrow> None
          | c # r' \<Rightarrow>
              if c = CHR '','' then map_option (apfst ((#) v)) (parse_elems n d r')
              else if c = CHR '']'' then Some ([v], r') else None))"
| "parse_members 0 d s = None"
| "parse_members (Suc n) d s =
     (case skip_ws s of
        [] \<Rightarrow> None
      | q # cs \<Rightarrow>
          if q \<noteq> CHR 0x22 then None
          else (case parse_chars cs of
            None \<Rightarrow> None
          | Some (k, r) \<Rightarrow>
              (case skip_ws r of
                [] \<Rightarrow> None
              | c # r1 \<Rightarrow>
                  if c \<noteq> CHR '':'' then None
                  else (case parse_value n d r1 of
                    None \<Rightarrow> None
                  | Some (v, r2) \<Rightarrow>
                      (case skip_ws r2 of
                        [] \<Rightarrow> None
                      | c2 # r3 \<Rightarrow>
                          if c2 = CHR '','' then map_option (apfst ((#) (k, v))) (parse_members n d r3)
                          else if c2 = CHR ''}'' then Some ([(k, v)], r3) else None)))))"

text \<open>\<open>maxNestingDepth\<close> of the decoder's scanner.\<close>

definition max_depth :: nat where "max_depth = 10000"

definition parse_json :: "string \<Rightarrow> json option" where
  "parse_json s =
     (case parse_value (Suc (2 * length s)) max_depth s of
        Some (v, r) \<Rightarrow> if skip_ws r = [] then Some v else None
      | None \<Rightarrow> None)"

section \<open>Printing\<close>

definition hexdigit :: "nat \<Rightarrow> char" where
  "hexdigit n = ''0123456789abcdef'' ! (n mod 16)"

definition u00 :: "nat \<Rightarrow> string" where
  "u00 n = CHR 0x5C # ''u00'' @ [hexdigit (n div 16), hexdigit n]"

text \<open>One ASCII character in a string literal; the flag is \<open>escapeHTML\<close>.\<close>

definition quote_ascii :: "bool \<Rightarrow> char \<Rightarrow> string" where
  "quote_ascii html c =
     (if c = CHR 0x22 \<or> c = CHR 0x5C then [CHR 0x5C, c]
      else if cn c = 10 then [CHR 0x5C, CHR ''n'']
      else if cn c = 13 then [CHR 0x5C, CHR ''r'']
      else if cn c = 9 then [CHR 0x5C, CHR ''t'']
      else if cn c < 32 \<or> html \<and> c \<in> set ''<>&'' then u00 (cn c)
      else [c])"

fun quote_chars :: "bool \<Rightarrow> nat \<Rightarrow> string \<Rightarrow> string" where
  "quote_chars html skip [] = []"
| "quote_chars html (Suc k) (c # cs) = quote_chars html k cs"
| "quote_chars html 0 (c # cs) =
     (if cn c < 128 then quote_ascii html c @ quote_chars html 0 cs
      else (case DecodeRune c cs of
        (r, k) \<Rightarrow>
          (if k = 1 then CHR 0x5C # ''ufffd''
           else if r = 8232 then CHR 0x5C # ''u2028''
           else if r = 8233 then CHR 0x5C # ''u2029''
           else take k (c # cs)) @ quote_chars html (k - 1) cs))"

definition print_string :: "bool \<Rightarrow> string \<Rightarrow> string" where
  "print_string html s = CHR 0x22 # quote_chars html 0 s @ [CHR 0x22]"

fun join :: "char \<Rightarrow> string list \<Rightarrow> string" where
  "join sep [] = []"
| "join sep [x] = x"
| "join sep (x # y # zs) = x @ sep # join sep (y # zs)"

fun print_json :: "bool \<Rightarrow> json \<Rightarrow> string" where
  "print_json html JNull = ''null''"
| "print_json html (JBool b) = (if b then ''true'' else ''false'')"
| "print_json html (JNum t) = t"
| "print_json html (JStr s) = print_string html s"
| "print_json html (JArr vs) = CHR ''['' # join CHR '','' (map (print_json html) vs) @ [CHR '']'']"
| "print_json html (JObj kvs) =
     CHR ''{'' # join CHR '','' (map (\<lambda>(k, v). print_string html k @ CHR '':'' # print_json html v) kvs) @ [CHR ''}'']"


section \<open>Fuel\<close>

lemma parse_chars_shorter: "parse_chars s = Some (x, r) \<Longrightarrow> length r < length s"
proof (induction s arbitrary: x r rule: parse_chars.induct)
  case (2 c cs)
  show ?case
  proof (cases "c = CHR 0x22 \<or> c = CHR 0x5C")
    case True
    with "2.prems" "2.IH"(1,2) show ?thesis
      by (fastforce split: if_splits list.splits option.splits prod.splits)
  next
    case False
    obtain rune k where "DecodeRune c cs = (rune, k)" by fastforce
    with "2.prems" "2.IH"(3) False show ?thesis by (fastforce split: if_splits)
  qed
qed simp

lemma parse_atom_shorter: "parse_atom s = Some (v, r) \<Longrightarrow> length r < length s"
proof (cases s)
  case (Cons c cs)
  assume "parse_atom s = Some (v, r)"
  then consider "\<exists>x. parse_chars cs = Some (x, r)" | "\<exists>w. r = drop (Suc w) s"
    | "num_ok (takeWhile num_char s) \<and> r = dropWhile num_char s"
    using Cons by (auto simp: parse_atom_def lit_def split: if_splits)
  then show ?thesis
  proof cases
    case 3
    then have "takeWhile num_char s \<noteq> []" by (auto simp: num_ok_def)
    moreover have "length s = length (takeWhile num_char s) + length (dropWhile num_char s)"
      by (metis length_append takeWhile_dropWhile_id)
    ultimately show ?thesis using 3 by simp
  qed (use Cons parse_chars_shorter in \<open>fastforce+\<close>)
qed (simp add: parse_atom_def)


lemma skip_ws_length: "length (skip_ws s) \<le> length s"
  by (simp add: skip_ws_def length_dropWhile_le)

lemma skip_ws_Cons_length: "skip_ws s = c # r \<Longrightarrow> length r < length s"
  using skip_ws_length [of s] by simp

text \<open>What a parser leaves is shorter than what it got.\<close>

definition shortens :: "(nat \<Rightarrow> string \<Rightarrow> ('a \<times> string) option) \<Rightarrow> bool" where
  "shortens p \<longleftrightarrow> (\<forall>d s v r. p d s = Some (v, r) \<longrightarrow> length r < length s)"

lemma parse_value_shortens:
  assumes "shortens (parse_elems n)" and "shortens (parse_members n)"
  shows "shortens (parse_value (Suc n))"
  unfolding shortens_def
proof (intro allI impI)
  fix d s v r assume v: "parse_value (Suc n) d s = Some (v, r)"
  then obtain c cs where s: "skip_ws s = c # cs" by (auto split: list.splits)
  note len = skip_ws_Cons_length [OF s]
  show "length r < length s"
  proof (cases "c = CHR ''['' \<or> c = CHR ''{''")
    case True
    then obtain d' x r' where d': "d = Suc d'" "skip_ws cs = x # r'"
      using v s by (auto split: nat.splits list.splits if_splits)
    with True s v len skip_ws_Cons_length [OF d'(2)] assms show ?thesis
      by (fastforce simp: shortens_def split: if_splits)
  next
    case False
    with s v have "parse_atom (c # cs) = Some (v, r)" by simp
    from parse_atom_shorter [OF this] len show ?thesis by simp
  qed
qed

lemma parse_elems_shortens:
  assumes "shortens (parse_value n)" and "shortens (parse_elems n)"
  shows "shortens (parse_elems (Suc n))"
  unfolding shortens_def
proof (intro allI impI)
  fix d s vs r assume vs: "parse_elems (Suc n) d s = Some (vs, r)"
  then obtain v0 r0 c r1 where v0: "parse_value n d s = Some (v0, r0)" "skip_ws r0 = c # r1"
    by (auto split: option.splits list.splits)
  from v0(1) assms(1) have "length r0 < length s" by (simp add: shortens_def)
  with vs v0 skip_ws_Cons_length [OF v0(2)] assms(2) show "length r < length s"
    by (fastforce simp: shortens_def split: if_splits)
qed

lemma parse_members_shortens:
  assumes "shortens (parse_value n)" and "shortens (parse_members n)"
  shows "shortens (parse_members (Suc n))"
  unfolding shortens_def
proof (intro allI impI)
  fix d s kvs r assume kvs: "parse_members (Suc n) d s = Some (kvs, r)"
  then obtain q cs where q: "skip_ws s = q # cs" "q = CHR 0x22" by (auto split: list.splits if_splits)
  with kvs obtain k r0 where k: "parse_chars cs = Some (k, r0)" by (auto split: option.splits)
  with kvs q obtain c r1 where c: "skip_ws r0 = c # r1" "c = CHR '':''" by (auto split: list.splits if_splits)
  with kvs q k obtain v0 r2 where v0: "parse_value n d r1 = Some (v0, r2)" by (auto split: option.splits)
  with kvs q k c obtain c2 r3 where c2: "skip_ws r2 = c2 # r3" by (auto split: list.splits)
  have "length r2 < length r1" using v0 assms(1) by (simp add: shortens_def)
  then have "length r3 < length s"
    using skip_ws_Cons_length [OF q(1)] parse_chars_shorter [OF k] skip_ws_Cons_length [OF c(1)]
      skip_ws_Cons_length [OF c2] by simp
  with kvs q k c v0 c2 assms(2) show "length r < length s"
    by (fastforce simp: shortens_def split: if_splits)
qed

lemma parsers_shorten: "shortens (parse_value n) \<and> shortens (parse_elems n) \<and> shortens (parse_members n)"
proof (induction n)
  case (Suc n)
  then show ?case using parse_value_shortens parse_elems_shortens parse_members_shortens by blast
qed (simp add: shortens_def)

lemma parse_shorter:
  "parse_value n d s = Some (v, r) \<Longrightarrow> length r < length s"
  "parse_elems n d s = Some (vs, r) \<Longrightarrow> length r < length s"
  "parse_members n d s = Some (kvs, r) \<Longrightarrow> length r < length s"
  using parsers_shorten [of n] by (simp_all add: shortens_def)

text \<open>One unfolding with two amounts of fuel: equal on what it calls, equal on the whole.\<close>

lemma parse_value_step:
  assumes "\<And>c cs d'. skip_ws s = c # cs \<Longrightarrow> parse_elems n d' cs = parse_elems m d' cs"
    and "\<And>c cs d'. skip_ws s = c # cs \<Longrightarrow> parse_members n d' cs = parse_members m d' cs"
  shows "parse_value (Suc n) d s = parse_value (Suc m) d s"
  using assms by (auto split: list.splits nat.splits)

lemma parse_elems_step:
  assumes "parse_value n d s = parse_value m d s"
    and "\<And>v r c r'. parse_value m d s = Some (v, r) \<Longrightarrow> skip_ws r = c # r' \<Longrightarrow> parse_elems n d r' = parse_elems m d r'"
  shows "parse_elems (Suc n) d s = parse_elems (Suc m) d s"
  using assms by (auto split: option.splits list.splits)

lemma parse_members_step:
  assumes "\<And>r. length r < length s \<Longrightarrow> parse_value n d r = parse_value m d r"
    and "\<And>r. length r < length s \<Longrightarrow> parse_members n d r = parse_members m d r"
  shows "parse_members (Suc n) d s = parse_members (Suc m) d s"
proof -
  have "parse_value n d r1 = parse_value m d r1"
    if "skip_ws s = q # cs" "parse_chars cs = Some (k, r)" "skip_ws r = c # r1" for q cs k r c r1
    using skip_ws_Cons_length [OF that(1)] parse_chars_shorter [OF that(2)] skip_ws_Cons_length [OF that(3)]
    by (intro assms(1)) linarith
  moreover have "parse_members n d r3 = parse_members m d r3"
    if "skip_ws s = q # cs" "parse_chars cs = Some (k, r)" "skip_ws r = c # r1"
      "parse_value m d r1 = Some (v, r2)" "skip_ws r2 = c2 # r3" for q cs k r c r1 v r2 c2 r3
    using skip_ws_Cons_length [OF that(1)] parse_chars_shorter [OF that(2)] skip_ws_Cons_length [OF that(3)]
      parse_shorter(1) [OF that(4)] skip_ws_Cons_length [OF that(5)]
    by (intro assms(2)) linarith
  ultimately show ?thesis by (auto split: list.splits option.splits)
qed

lemma parse_fuel:
  "(\<forall>n m d. 2 * length s < n \<longrightarrow> 2 * length s < m \<longrightarrow> parse_value n d s = parse_value m d s) \<and>
   (\<forall>n m d. 2 * length s + 1 < n \<longrightarrow> 2 * length s + 1 < m \<longrightarrow> parse_elems n d s = parse_elems m d s) \<and>
   (\<forall>n m d. 2 * length s + 1 < n \<longrightarrow> 2 * length s + 1 < m \<longrightarrow> parse_members n d s = parse_members m d s)"
proof (induction s rule: length_induct)
  case (1 s)
  have IH: "parse_value n d r = parse_value m d r" "parse_elems n d r = parse_elems m d r"
    "parse_members n d r = parse_members m d r"
    if "length r < length s" "2 * length s \<le> n" "2 * length s \<le> m" for r n m d
  proof -
    have "2 * length r < n" "2 * length r < m" "2 * length r + 1 < n" "2 * length r + 1 < m" using that by linarith+
    with "1.IH" [rule_format, OF that(1)]
    show "parse_value n d r = parse_value m d r" "parse_elems n d r = parse_elems m d r"
      "parse_members n d r = parse_members m d r" by blast+
  qed
  have val: "parse_value n d s = parse_value m d s" if "2 * length s < n" "2 * length s < m" for n m d
  proof -
    from that obtain n' m' where n: "n = Suc n'" "m = Suc m'" by (metis less_imp_Suc_add)
    show ?thesis unfolding n
      by (rule parse_value_step) (rule IH; use that n skip_ws_Cons_length in fastforce)+
  qed
  have "parse_elems n d s = parse_elems m d s" if "2 * length s + 1 < n" "2 * length s + 1 < m" for n m d
  proof -
    from that obtain n' m' where n: "n = Suc n'" "m = Suc m'" by (metis less_imp_Suc_add)
    have "parse_value n' d s = parse_value m' d s" by (rule val) (use that n in simp_all)
    then show ?thesis unfolding n
    proof (rule parse_elems_step)
      fix v r c r' assume "parse_value m' d s = Some (v, r)" "skip_ws r = c # r'"
      from parse_shorter(1) [OF this(1)] skip_ws_Cons_length [OF this(2)]
      show "parse_elems n' d r' = parse_elems m' d r'" using that n by (intro IH) auto
    qed
  qed
  moreover have "parse_members n d s = parse_members m d s" if "2 * length s + 1 < n" "2 * length s + 1 < m" for n m d
  proof -
    from that obtain n' m' where n: "n = Suc n'" "m = Suc m'" by (metis less_imp_Suc_add)
    show ?thesis unfolding n by (rule parse_members_step) (rule IH; use that n in simp)+
  qed
  ultimately show ?case using val by blast
qed


section \<open>The printer's output is read back\<close>

fun jdepth :: "json \<Rightarrow> nat" where
  "jdepth (JArr vs) = Suc (fold max (map jdepth vs) 0)"
| "jdepth (JObj kvs) = Suc (fold max (map (\<lambda>(k, v). jdepth v) kvs) 0)"
| "jdepth _ = 0"

text \<open>Every string is valid UTF-8 and every number is one of the grammar.\<close>

fun jplain :: "json \<Rightarrow> bool" where
  "jplain (JNum t) = (num_ok t \<and> list_all num_char t)"
| "jplain (JStr s) = utf8 s"
| "jplain (JArr vs) = (\<forall>v \<in> set vs. jplain v)"
| "jplain (JObj kvs) = (\<forall>(k, v) \<in> set kvs. utf8 k \<and> jplain v)"
| "jplain _ = True"

text \<open>What may follow a value: nothing, or a character that ends it.\<close>

definition ends :: "string \<Rightarrow> bool" where
  "ends s = (case s of [] \<Rightarrow> True | c # _ \<Rightarrow> c \<in> set '',]}'')"

lemma hexval_hexdigit: "hexval (hexdigit n) = Some (n mod 16)"
proof -
  have "\<forall>i \<in> set [0..<16]. hexval (''0123456789abcdef'' ! i) = Some i" by code_simp
  then show ?thesis by (simp add: hexdigit_def)
qed

lemma getu4_u00: "n < 256 \<Longrightarrow> getu4 (CHR ''0'' # CHR ''0'' # hexdigit (n div 16) # hexdigit n # rest) = Some n"
  using hexval_hexdigit [of "n div 16"] hexval_hexdigit [of n]
  by (simp add: getu4_def hexval_def [of "CHR ''0''"])

lemma append_single [simp]: "(@) [x] = (#) x"
  by (simp add: fun_eq_iff)

lemma parse_chars_plain:
  assumes "cn c < 128" "c \<noteq> CHR 0x22" "c \<noteq> CHR 0x5C" "\<not> cn c < 32"
  shows "parse_chars (c # cs) = map_option (apfst ((#) c)) (parse_chars cs)"
  using assms by (simp add: DecodeRune_def EncodeRune_def Let_def)

lemma parse_chars_u00:
  "n < 128 \<Longrightarrow> parse_chars (u00 n @ cs) = map_option (apfst ((#) (char_of n))) (parse_chars cs)"
  using getu4_u00 [of n cs] by (simp add: u00_def u_escape_def EncodeRune_def)

lemma parse_chars_escapes:
  "parse_chars (CHR 0x5C # CHR ''n'' # cs) = map_option (apfst ((#) (CHR 0x0A))) (parse_chars cs)"
  "parse_chars (CHR 0x5C # CHR ''r'' # cs) = map_option (apfst ((#) (CHR 0x0D))) (parse_chars cs)"
  "parse_chars (CHR 0x5C # CHR ''t'' # cs) = map_option (apfst ((#) (CHR 0x09))) (parse_chars cs)"
  by (simp_all add: simple_escape_def)

lemma quote_ascii_escapes:
  "quote_ascii html (CHR 0x0A) = [CHR 0x5C, CHR ''n'']"
  "quote_ascii html (CHR 0x0D) = [CHR 0x5C, CHR ''r'']"
  "quote_ascii html (CHR 0x09) = [CHR 0x5C, CHR ''t'']"
  by (simp_all add: quote_ascii_def)

lemma parse_chars_quote_ascii:
  assumes "cn c < 128"
  shows "parse_chars (quote_ascii html c @ cs) = map_option (apfst ((#) c)) (parse_chars cs)"
proof -
  consider "c = CHR 0x22 \<or> c = CHR 0x5C" | "cn c = 10 \<or> cn c = 13 \<or> cn c = 9"
    | "cn c \<noteq> 10" "cn c \<noteq> 13" "cn c \<noteq> 9" "c \<noteq> CHR 0x22" "c \<noteq> CHR 0x5C" by blast
  then show ?thesis
  proof cases
    case 1
    then show ?thesis by (auto simp: quote_ascii_def simple_escape_def)
  next
    case 2
    then have "cn c = cn CHR 0x0A \<or> cn c = cn CHR 0x0D \<or> cn c = cn CHR 0x09" by simp
    then have "c = CHR 0x0A \<or> c = CHR 0x0D \<or> c = CHR 0x09" by (simp only: of_char_eq_iff)
    then show ?thesis by (elim disjE) (simp_all only: quote_ascii_escapes parse_chars_escapes append_Cons append_Nil)
  next
    case 3
    then show ?thesis
      using assms parse_chars_u00 [of "cn c" cs] parse_chars_plain [of c cs] by (auto simp: quote_ascii_def)
  qed
qed

lemma quote_chars_skip: "quote_chars html n cs = quote_chars html 0 (drop n cs)"
proof (induction n arbitrary: cs)
  case (Suc n)
  then show ?case by (cases cs) simp_all
qed simp

lemma quote_chars_multi:
  assumes "128 \<le> cn c" "\<forall>rest. DecodeRune c (as @ rest) = (r, Suc (length as))" "as \<noteq> []"
  shows "quote_chars html 0 (c # as @ cs) =
    (if r = 8232 then CHR 0x5C # ''u2028'' else if r = 8233 then CHR 0x5C # ''u2029'' else c # as) @ quote_chars html 0 cs"
  using assms quote_chars_skip [of html "length as" "as @ cs"] by simp

lemma parse_chars_multi:
  assumes "128 \<le> cn c" "\<forall>rest. DecodeRune c (as @ rest) = (r, Suc (length as))"
  shows "parse_chars (c # as @ rest) = map_option (apfst ((@) (EncodeRune r))) (parse_chars rest)"
proof -
  have "c \<noteq> CHR 0x22" "c \<noteq> CHR 0x5C" using assms(1) by auto
  with assms show ?thesis by simp
qed

lemma parse_chars_sep:
  "parse_chars ((CHR 0x5C # ''u2028'') @ rest) = map_option (apfst ((@) (EncodeRune 8232))) (parse_chars rest)"
  "parse_chars ((CHR 0x5C # ''u2029'') @ rest) = map_option (apfst ((@) (EncodeRune 8233))) (parse_chars rest)"
  by (simp_all add: getu4_def hexval_def u_escape_def)

lemma parse_chars_quote:
  assumes "utf8 s"
  shows "parse_chars (quote_chars html 0 s @ CHR 0x22 # rest) = Some (s, rest)"
  using assms
proof (induction s rule: utf8_induct)
  case (single c cs)
  then show ?case by (simp add: parse_chars_quote_ascii)
next
  case (multi c as cs r)
  let ?q = "if r = 8232 then CHR 0x5C # ''u2028'' else if r = 8233 then CHR 0x5C # ''u2029'' else c # as"
  have "parse_chars (?q @ x) = map_option (apfst ((@) (EncodeRune r))) (parse_chars x)" for x
  proof -
    have "parse_chars ((c # as) @ x) = map_option (apfst ((@) (EncodeRune r))) (parse_chars x)"
      using parse_chars_multi [OF multi(1,5), of x] by (simp only: append_Cons)
    then show ?thesis by (simp add: parse_chars_sep del: parse_chars.simps append_Cons)
  qed
  then show ?case
    unfolding quote_chars_multi [OF multi(1,5,2)] append_assoc using multi(4,6) by simp
qed simp

lemma skip_ws_id: "\<not> is_ws c \<Longrightarrow> skip_ws (c # cs) = c # cs"
  by (simp add: skip_ws_def)

lemma num_ok_head:
  assumes "num_ok t"
  obtains c r where "t = c # r" "is_digit c \<or> c = CHR ''-''"
  using assms that by (cases t) (auto simp: num_ok_def Let_def split: if_splits list.splits)

lemma digit_facts:
  "is_digit c \<or> c = CHR ''-'' \<Longrightarrow>
     \<not> is_ws c \<and> c \<noteq> CHR '']'' \<and> c \<noteq> CHR ''}'' \<and> c \<noteq> CHR ''['' \<and> c \<noteq> CHR ''{'' \<and> c \<noteq> CHR 0x22 \<and>
     c \<noteq> CHR ''t'' \<and> c \<noteq> CHR ''f'' \<and> c \<noteq> CHR ''n''"
  by (auto simp: is_digit_def is_ws_def)

text \<open>How a printed value begins.\<close>

lemma print_head:
  assumes "jplain v"
  obtains c r where "print_json html v = c # r" "\<not> is_ws c" "c \<noteq> CHR '']''" "c \<noteq> CHR ''}''"
proof (cases v)
  case (JNum t)
  with assms obtain c r where "t = c # r" "is_digit c \<or> c = CHR ''-''" by (auto elim: num_ok_head)
  with JNum digit_facts [OF this(2)] that show ?thesis by simp
next
  case (JBool b)
  with that show ?thesis by (cases b) (simp_all add: is_ws_def)
qed (use that in \<open>auto simp: print_string_def is_ws_def\<close>)

lemma ends_takeWhile:
  "list_all num_char t \<Longrightarrow> ends rest \<Longrightarrow> takeWhile num_char (t @ rest) = t \<and> dropWhile num_char (t @ rest) = rest"
  by (induction t) (auto simp: ends_def num_char_def is_digit_def split: list.splits)

lemma parse_num:
  assumes "num_ok t" "list_all num_char t" "ends rest"
  shows "parse_value (Suc n) d (t @ rest) = Some (JNum t, rest)"
proof -
  from assms(1) obtain c r where t: "t = c # r" "is_digit c \<or> c = CHR ''-''" by (rule num_ok_head)
  from digit_facts [OF t(2)] t(1) ends_takeWhile [OF assms(2,3)] assms(1) show ?thesis
    by (simp add: skip_ws_id parse_atom_def)
qed

lemma parse_str:
  assumes "utf8 s"
  shows "parse_value (Suc n) d (print_string html s @ rest) = Some (JStr s, rest)"
  using parse_chars_quote [OF assms, of html rest]
  by (simp add: print_string_def skip_ws_id is_ws_def parse_atom_def)

lemma ends_simps [simp]: "ends (CHR '','' # s)" "ends (CHR '']'' # s)" "ends (CHR ''}'' # s)" "ends []"
  by (simp_all add: ends_def)

lemma skip_delims [simp]:
  "skip_ws (CHR '','' # s) = CHR '','' # s" "skip_ws (CHR '']'' # s) = CHR '']'' # s"
  "skip_ws (CHR ''}'' # s) = CHR ''}'' # s" "skip_ws (CHR '':'' # s) = CHR '':'' # s"
  "skip_ws (CHR 0x22 # s) = CHR 0x22 # s" "skip_ws (CHR ''['' # s) = CHR ''['' # s" "skip_ws (CHR ''{'' # s) = CHR ''{'' # s"
  by (simp_all add: skip_ws_id is_ws_def)

definition reads :: "bool \<Rightarrow> nat \<Rightarrow> json \<Rightarrow> bool" where
  "reads html d v \<longleftrightarrow>
     (\<forall>n rest. ends rest \<longrightarrow> 2 * length (print_json html v @ rest) < n \<longrightarrow>
        parse_value n d (print_json html v @ rest) = Some (v, rest))"

lemma parse_elems_print:
  assumes "vs \<noteq> []" "\<forall>v \<in> set vs. reads html d v"
    and "2 * length (join CHR '','' (map (print_json html) vs) @ CHR '']'' # rest) + 1 < n"
  shows "parse_elems n d (join CHR '','' (map (print_json html) vs) @ CHR '']'' # rest) = Some (vs, rest)"
  using assms
proof (induction vs arbitrary: n rule: list_nonempty_induct)
  case (single v)
  then obtain m where n: "n = Suc m" by (cases n) auto
  have "parse_value m d (print_json html v @ CHR '']'' # rest) = Some (v, CHR '']'' # rest)"
    using single by (simp add: reads_def n)
  then show ?case by (simp add: n)
next
  case (cons v vs)
  then obtain m where n: "n = Suc m" by (cases n) auto
  obtain u us where vs: "vs = u # us" using cons.hyps by (cases vs) auto
  let ?r = "join CHR '','' (map (print_json html) vs) @ CHR '']'' # rest"
  have sp: "join CHR '','' (map (print_json html) (v # vs)) @ CHR '']'' # rest =
      print_json html v @ CHR '','' # ?r" by (simp add: vs)
  have "parse_value m d (print_json html v @ CHR '','' # ?r) = Some (v, CHR '','' # ?r)"
    using cons.prems sp by (simp add: reads_def n)
  moreover have "parse_elems m d ?r = Some (vs, rest)"
    using cons.IH [of m] cons.prems sp by (simp add: n)
  ultimately show ?case unfolding sp n by simp
qed

lemma parse_members_print:
  assumes "kvs \<noteq> []" "\<forall>(k, v) \<in> set kvs. utf8 k \<and> reads html d v"
    and "2 * length (join CHR '','' (map (\<lambda>(k, v). print_string html k @ CHR '':'' # print_json html v) kvs) @ CHR ''}'' # rest) + 1 < n"
  shows "parse_members n d (join CHR '','' (map (\<lambda>(k, v). print_string html k @ CHR '':'' # print_json html v) kvs) @ CHR ''}'' # rest) = Some (kvs, rest)"
  using assms
proof (induction kvs arbitrary: n rule: list_nonempty_induct)
  case (single kv)
  obtain k v where kv: "kv = (k, v)" by fastforce
  from single obtain m where n: "n = Suc m" by (cases n) auto
  have "parse_value m d (print_json html v @ CHR ''}'' # rest) = Some (v, CHR ''}'' # rest)"
    using single by (simp add: reads_def n kv)
  then show ?case
    using single parse_chars_quote [of k html "CHR '':'' # print_json html v @ CHR ''}'' # rest"]
    by (simp add: n kv print_string_def)
next
  case (cons kv kvs)
  obtain k v where kv: "kv = (k, v)" by fastforce
  from cons obtain m where n: "n = Suc m" by (cases n) auto
  obtain u us where kvs: "kvs = u # us" using cons.hyps by (cases kvs) auto
  let ?j = "\<lambda>xs. join CHR '','' (map (\<lambda>(k, v). print_string html k @ CHR '':'' # print_json html v) xs)"
  let ?r = "?j kvs @ CHR ''}'' # rest"
  have sp: "?j (kv # kvs) @ CHR ''}'' # rest =
      CHR 0x22 # quote_chars html 0 k @ CHR 0x22 # CHR '':'' # print_json html v @ CHR '','' # ?r"
    by (simp add: kvs kv print_string_def)
  have "parse_value m d (print_json html v @ CHR '','' # ?r) = Some (v, CHR '','' # ?r)"
    using cons.prems sp by (simp add: reads_def n kv)
  moreover have "parse_members m d ?r = Some (kvs, rest)"
    using cons.IH [of m] cons.prems sp by (simp add: n)
  moreover have "parse_chars (quote_chars html 0 k @ CHR 0x22 # CHR '':'' # print_json html v @ CHR '','' # ?r) =
      Some (k, CHR '':'' # print_json html v @ CHR '','' # ?r)"
    using cons.prems kv parse_chars_quote by simp
  ultimately show ?case unfolding sp n by (simp add: kv)
qed


lemma fold_max_le: "fold max xs (a :: nat) \<le> d \<longleftrightarrow> a \<le> d \<and> (\<forall>x \<in> set xs. x \<le> d)"
  by (induction xs arbitrary: a) auto

lemma reads_atom:
  assumes "\<And>m rest. ends rest \<Longrightarrow> parse_value (Suc m) d (print_json html v @ rest) = Some (v, rest)"
  shows "reads html d v"
  unfolding reads_def by (metis assms less_nat_zero_code not0_implies_Suc)

lemma reads_JArr:
  assumes "\<forall>v \<in> set vs. jplain v \<and> reads html d v"
  shows "reads html (Suc d) (JArr vs)"
  unfolding reads_def
proof (intro allI impI)
  fix n rest assume "ends rest" and fuel: "2 * length (print_json html (JArr vs) @ rest) < n"
  from fuel obtain m where n: "n = Suc m" by (cases n) auto
  show "parse_value n (Suc d) (print_json html (JArr vs) @ rest) = Some (JArr vs, rest)"
  proof (cases vs)
    case (Cons v us)
    with assms obtain c r where hd: "print_json html v = c # r" "\<not> is_ws c" "c \<noteq> CHR '']''"
      using print_head [of v html] by (metis list.set_intros(1))
    let ?e = "join CHR '','' (map (print_json html) vs) @ CHR '']'' # rest"
    have e: "\<exists>r'. ?e = c # r'" using hd(1) Cons by (cases us) auto
    have "parse_elems m d ?e = Some (vs, rest)"
      using assms fuel Cons n by (intro parse_elems_print) auto
    with hd e show ?thesis by (auto simp: n skip_ws_id)
  qed (simp add: n)
qed

lemma reads_JObj:
  assumes "\<forall>(k, v) \<in> set kvs. utf8 k \<and> reads html d v"
  shows "reads html (Suc d) (JObj kvs)"
  unfolding reads_def
proof (intro allI impI)
  fix n rest assume "ends rest" and fuel: "2 * length (print_json html (JObj kvs) @ rest) < n"
  from fuel obtain m where n: "n = Suc m" by (cases n) auto
  show "parse_value n (Suc d) (print_json html (JObj kvs) @ rest) = Some (JObj kvs, rest)"
  proof (cases kvs)
    case (Cons kv us)
    let ?e = "join CHR '','' (map (\<lambda>(k, v). print_string html k @ CHR '':'' # print_json html v) kvs) @ CHR ''}'' # rest"
    have e: "\<exists>r'. ?e = CHR 0x22 # r'" using Cons by (cases kv; cases us) (auto simp: print_string_def)
    have "parse_members m d ?e = Some (kvs, rest)"
      using assms fuel Cons n by (intro parse_members_print) auto
    with e show ?thesis by (auto simp: n)
  qed (simp add: n)
qed

lemma parse_print: "jplain v \<Longrightarrow> jdepth v \<le> d \<Longrightarrow> reads html d v"
proof (induction v arbitrary: d)
  case (JArr vs)
  from JArr.prems(2) obtain d' where d: "d = Suc d'" "\<forall>v \<in> set vs. jdepth v \<le> d'"
    by (cases d) (auto simp: fold_max_le)
  then show ?case using JArr by (auto intro: reads_JArr)
next
  case (JObj kvs)
  from JObj.prems(2) obtain d' where d: "d = Suc d'" "\<forall>(k, v) \<in> set kvs. jdepth v \<le> d'"
    by (cases d) (auto simp: fold_max_le case_prod_beta)
  then show ?case using JObj by (fastforce intro: reads_JObj)
next
  case (JNum t)
  then show ?case by (intro reads_atom) (simp add: parse_num del: parse_value.simps)
next
  case (JStr s)
  then show ?case by (intro reads_atom) (simp add: parse_str del: parse_value.simps)
next
  case (JBool b)
  then show ?case by (intro reads_atom, cases b) (simp_all add: skip_ws_id is_ws_def parse_atom_def lit_def)
next
  case JNull
  then show ?case by (intro reads_atom) (simp add: skip_ws_id is_ws_def parse_atom_def lit_def)
qed

lemma parse_json_print:
  assumes "jplain v" "jdepth v \<le> max_depth"
  shows "parse_json (print_json html v) = Some v"
  using parse_print [OF assms, of html, unfolded reads_def, rule_format, of "[]" "Suc (2 * length (print_json html v))"]
  by (simp add: parse_json_def skip_ws_def)

end
