(* ===== verification/Encoding.thy ===== *)
theory Encoding
  imports Json Pb
begin

text \<open>
  Package \<open>encoding\<close> (\<^verbatim>\<open>pb/encoding/json.go\<close>): the JSON that clients receive. Results are
  converted into structs and rows of \<open>any\<close>, and those are encoded as \<^verbatim>\<open>encoding/json\<close> does:
  fields in the order of the struct, fields with \<open>omitempty\<close> left out when they are zero or
  empty, a \<open>[]byte\<close> in base64, a nil row or cell as \<open>null\<close>.

  The text of a \<open>float64\<close> is the parameter \<open>ff\<close> (\<open>None\<close> for NaN and the infinities, which the
  encoder rejects).
\<close>

section \<open>Decimal and base64\<close>

fun show_nat :: "nat \<Rightarrow> string" where
  "show_nat n = (if n < 10 then [char_of (48 + n)] else show_nat (n div 10) @ [char_of (48 + n mod 10)])"

declare show_nat.simps [simp del]

definition show_int :: "int \<Rightarrow> string" where
  "show_int i = (if i < 0 then CHR ''-'' # show_nat (nat (- i)) else show_nat (nat i))"

definition b64char :: "nat \<Rightarrow> char" where
  "b64char n = ''ABCDEFGHIJKLMNOPQRSTUVWXYZabcdefghijklmnopqrstuvwxyz0123456789+/'' ! (n mod 64)"

fun base64 :: "nat list \<Rightarrow> string" where
  "base64 [] = []"
| "base64 [a] = [b64char (a div 4), b64char (a mod 4 * 16), CHR ''='', CHR ''='']"
| "base64 [a, b] =
     [b64char (a div 4), b64char (a mod 4 * 16 + b div 16), b64char (b mod 16 * 4), CHR ''='']"
| "base64 (a # b # c # bs) =
     b64char (a div 4) # b64char (a mod 4 * 16 + b div 16) # b64char (b mod 16 * 4 + c div 64) #
     b64char (c mod 64) # base64 bs"

section \<open>Conversions\<close>

record Result =
  er_LastInsertID :: int64
  er_RowsAffected :: int64
  er_Error :: string
  er_Time :: float64

text \<open>The dynamic values of a row.\<close>

datatype any = AInt64 int64 | AFloat64 float64 | ABool bool | ABytes bytes | AString string | ANil

record EncQueryRes =
  eq_Columns :: "string list"
  eq_Types :: "string list"
  eq_Values :: "any list option list"
  eq_Error :: string

definition convertExecuteResult :: "ExecRes \<Rightarrow> Result" where
  "convertExecuteResult res =
     \<lparr>er_LastInsertID = eres_LastInsertId res, er_RowsAffected = eres_RowsAffected res,
      er_Error = eres_Error res, er_Time = 0\<rparr>"

fun convert_param :: "Parameter_Value option \<Rightarrow> any" where
  "convert_param (Some (Parameter_I i)) = AInt64 i"
| "convert_param (Some (Parameter_D d)) = AFloat64 d"
| "convert_param (Some (Parameter_B b)) = ABool b"
| "convert_param (Some (Parameter_Y y)) = ABytes y"
| "convert_param (Some (Parameter_S s)) = AString s"
| "convert_param None = ANil"

definition convertValues :: "Values option list \<Rightarrow> any list option list" where
  "convertValues v =
     map (\<lambda>vals. map_option (map (\<lambda>p. convert_param (GetValue p))) (GetParams vals)) v"

definition convertQueryRes :: "QueryRes \<Rightarrow> EncQueryRes" where
  "convertQueryRes q =
     \<lparr>eq_Columns = qres_Columns q, eq_Types = qres_Types q,
      eq_Values = convertValues (qres_Values q), eq_Error = qres_Error q\<rparr>"

section \<open>The encoder\<close>

fun mapE :: "('a \<Rightarrow> goerr + 'b) \<Rightarrow> 'a list \<Rightarrow> goerr + 'b list" where
  "mapE f [] = Inr []"
| "mapE f (x # xs) =
     (case f x of Inl e \<Rightarrow> Inl e | Inr y \<Rightarrow> (case mapE f xs of Inl e \<Rightarrow> Inl e | Inr ys \<Rightarrow> Inr (y # ys)))"

definition enc_int64 :: "int64 \<Rightarrow> json" where
  "enc_int64 n = JNum (show_int (sint n))"

definition enc_float :: "(float64 \<Rightarrow> string option) \<Rightarrow> float64 \<Rightarrow> goerr + json" where
  "enc_float ff d =
     (case ff d of None \<Rightarrow> Inl (ErrMsg ''json: unsupported value'') | Some t \<Rightarrow> Inr (JNum t))"

fun enc_any :: "(float64 \<Rightarrow> string option) \<Rightarrow> any \<Rightarrow> goerr + json" where
  "enc_any ff (AInt64 n) = Inr (enc_int64 n)"
| "enc_any ff (AFloat64 d) = enc_float ff d"
| "enc_any ff (ABool b) = Inr (JBool b)"
| "enc_any ff (ABytes y) = Inr (JStr (base64 (map unat y)))"
| "enc_any ff (AString s) = Inr (JStr s)"
| "enc_any ff ANil = Inr JNull"

definition enc_row :: "(float64 \<Rightarrow> string option) \<Rightarrow> any list option \<Rightarrow> goerr + json" where
  "enc_row ff row =
     (case row of
        None \<Rightarrow> Inr JNull
      | Some cells \<Rightarrow> (case mapE (enc_any ff) cells of Inl e \<Rightarrow> Inl e | Inr js \<Rightarrow> Inr (JArr js)))"

text \<open>A field with \<open>omitempty\<close>.\<close>

definition field :: "bool \<Rightarrow> string \<Rightarrow> json \<Rightarrow> (string \<times> json) list" where
  "field present name v = (if present then [(name, v)] else [])"

text \<open>\<open>Time\<close> is never set, so its field is never written.\<close>

definition enc_Result :: "Result \<Rightarrow> json" where
  "enc_Result r =
     JObj (field (er_LastInsertID r \<noteq> 0) ''last_insert_id'' (enc_int64 (er_LastInsertID r)) @
           field (er_RowsAffected r \<noteq> 0) ''rows_affected'' (enc_int64 (er_RowsAffected r)) @
           field (er_Error r \<noteq> '''') ''error'' (JStr (er_Error r)))"

definition enc_EncQueryRes :: "(float64 \<Rightarrow> string option) \<Rightarrow> EncQueryRes \<Rightarrow> goerr + json" where
  "enc_EncQueryRes ff q =
     (case mapE (enc_row ff) (eq_Values q) of
        Inl e \<Rightarrow> Inl e
      | Inr rows \<Rightarrow>
          Inr (JObj (field (eq_Columns q \<noteq> []) ''columns'' (JArr (map JStr (eq_Columns q))) @
                     field (eq_Types q \<noteq> []) ''types'' (JArr (map JStr (eq_Types q))) @
                     field (eq_Values q \<noteq> []) ''values'' (JArr rows) @
                     field (eq_Error q \<noteq> '''') ''error'' (JStr (eq_Error q)))))"

text \<open>The dynamic types \<open>ProtoToJSON\<close> distinguishes; \<open>structToJson\<close> prints without \<open>escapeHTML\<close>.\<close>

datatype protoval =
    PExecRes ExecRes
  | PExecRess "ExecRes list"
  | PQueryRes QueryRes
  | PQueryRess "QueryRes list"
  | PValuess "Values option list"

fun proto_json :: "(float64 \<Rightarrow> string option) \<Rightarrow> protoval \<Rightarrow> goerr + json" where
  "proto_json ff (PExecRes r) = Inr (enc_Result (convertExecuteResult r))"
| "proto_json ff (PExecRess rs) = Inr (JArr (map (\<lambda>r. enc_Result (convertExecuteResult r)) rs))"
| "proto_json ff (PQueryRes q) = enc_EncQueryRes ff (convertQueryRes q)"
| "proto_json ff (PQueryRess qs) =
     (case mapE (\<lambda>q. enc_EncQueryRes ff (convertQueryRes q)) qs of Inl e \<Rightarrow> Inl e | Inr js \<Rightarrow> Inr (JArr js))"
| "proto_json ff (PValuess vs) =
     (case mapE (enc_row ff) (convertValues vs) of Inl e \<Rightarrow> Inl e | Inr js \<Rightarrow> Inr (JArr js))"

definition ProtoToJSON :: "(float64 \<Rightarrow> string option) \<Rightarrow> protoval \<Rightarrow> goerr + string" where
  "ProtoToJSON ff v = (case proto_json ff v of Inl e \<Rightarrow> Inl e | Inr j \<Rightarrow> Inr (print_json False j))"

section \<open>Lemmas\<close>

lemma digit_char: "n < 10 \<Longrightarrow> cn (char_of (48 + n)) = 48 + n"
  by simp

lemma show_nat_digits: "list_all is_digit (show_nat n) \<and> show_nat n \<noteq> []"
proof (induction n rule: show_nat.induct)
  case (1 n)
  show ?case
  proof (cases "n < 10")
    case True
    then show ?thesis by (simp add: show_nat.simps [of n] is_digit_def)
  next
    case False
    with 1 have "list_all is_digit (show_nat (n div 10))" by simp
    moreover have "n mod 10 < 10" by simp
    ultimately show ?thesis using False by (subst (1 2) show_nat.simps) (simp add: is_digit_def)
  qed
qed

lemma show_nat_head: "0 < n \<Longrightarrow> hd (show_nat n) \<noteq> CHR ''0''"
proof (induction n rule: show_nat.induct)
  case (1 n)
  show ?case
  proof (cases "n < 10")
    case True
    have "char_of (48 + n) \<noteq> CHR ''0''"
    proof
      assume "char_of (48 + n) = CHR ''0''"
      then have "cn (char_of (48 + n)) = cn CHR ''0''" by simp
      with True "1.prems" show False by simp
    qed
    with True show ?thesis by (simp add: show_nat.simps [of n])
  next
    case False
    with 1 have "hd (show_nat (n div 10)) \<noteq> CHR ''0''" by simp
    with False show_nat_digits [of "n div 10"] show ?thesis by (subst show_nat.simps) simp
  qed
qed

lemma digits_num_frac: "list_all is_digit s \<Longrightarrow> num_frac (dropWhile is_digit s)"
  by (induction s) (auto simp: num_frac_def)

lemma num_ok_show_nat: "num_ok (show_nat n)"
proof (cases "n = 0")
  case True
  moreover have "num_ok (show_nat 0)" by code_simp
  ultimately show ?thesis by simp
next
  case False
  then obtain c r where s: "show_nat n = c # r" "is_digit c" "list_all is_digit r" "c \<noteq> CHR ''0''"
    using show_nat_digits [of n] show_nat_head [of n] by (cases "show_nat n") auto
  moreover have "c \<noteq> CHR ''-''" using s(2) by (auto simp: is_digit_def)
  ultimately show ?thesis using digits_num_frac [of r] by (simp add: num_ok_def)
qed

lemma enc_int64_plain: "jplain (enc_int64 n)"
proof -
  have "num_ok (CHR ''-'' # show_nat k)" for k
  proof -
    obtain c r where "show_nat k = c # r" using show_nat_digits [of k] by (cases "show_nat k") auto
    moreover have "c \<noteq> CHR ''-''" using calculation show_nat_digits [of k] by (auto simp: is_digit_def)
    ultimately show ?thesis using num_ok_show_nat [of k] by (simp add: num_ok_def)
  qed
  moreover have "list_all num_char (show_nat k)" for k
    using show_nat_digits [of k] by (auto simp: list_all_iff num_char_def)
  ultimately show ?thesis
    by (simp add: enc_int64_def show_int_def num_ok_show_nat num_char_def)
qed


section \<open>A client that reads the response\<close>

text \<open>
  The reading of a result by a client: numbers by their decimal text, absent fields as zero
  values.
\<close>

definition read_nat :: "string \<Rightarrow> nat" where
  "read_nat s = foldl (\<lambda>a c. 10 * a + (cn c - 48)) 0 s"

definition read_int :: "string \<Rightarrow> int" where
  "read_int s = (case s of c # r \<Rightarrow> if c = CHR ''-'' then - int (read_nat r) else int (read_nat s) | [] \<Rightarrow> 0)"

definition client_int :: "json option \<Rightarrow> int64" where
  "client_int j = (case j of Some (JNum t) \<Rightarrow> word_of_int (read_int t) | _ \<Rightarrow> 0)"

definition client_str :: "json option \<Rightarrow> string" where
  "client_str j = (case j of Some (JStr s) \<Rightarrow> s | _ \<Rightarrow> '''')"

fun client_result :: "json \<Rightarrow> ExecRes" where
  "client_result (JObj kvs) =
     \<lparr>eres_LastInsertId = client_int (map_of kvs ''last_insert_id''),
      eres_RowsAffected = client_int (map_of kvs ''rows_affected''),
      eres_Error = client_str (map_of kvs ''error'')\<rparr>"
| "client_result _ = new_ExecRes"

fun client_results :: "json \<Rightarrow> ExecRes list" where
  "client_results (JArr js) = map client_result js"
| "client_results _ = []"

lemma read_nat_show_nat: "read_nat (show_nat n) = n"
proof (induction n rule: show_nat.induct)
  case (1 n)
  show ?case
  proof (cases "n < 10")
    case True
    then show ?thesis by (simp add: show_nat.simps [of n] read_nat_def)
  next
    case False
    have "n mod 10 < 10" by simp
    then have d: "cn (char_of (48 + n mod 10)) = 48 + n mod 10" by (rule digit_char)
    have "read_nat (show_nat n) = 10 * read_nat (show_nat (n div 10)) + n mod 10"
      using False by (subst show_nat.simps) (simp only: read_nat_def foldl_append foldl.simps d if_False diff_add_inverse)
    with 1 False show ?thesis by simp
  qed
qed

lemma read_int_show_int: "read_int (show_int i) = i"
proof -
  have "read_int (show_nat k) = int k" for k
  proof -
    obtain c r where s: "show_nat k = c # r" using show_nat_digits [of k] by (cases "show_nat k") auto
    moreover have "c \<noteq> CHR ''-''" using s show_nat_digits [of k] by (auto simp: is_digit_def)
    ultimately show ?thesis using read_nat_show_nat [of k] by (simp add: read_int_def)
  qed
  then show ?thesis by (simp add: show_int_def read_int_def [of "CHR ''-'' # _"] read_nat_show_nat)
qed

lemma client_int_enc: "client_int (Some (enc_int64 n)) = n"
  by (simp add: client_int_def enc_int64_def read_int_show_int)

lemma client_result_enc: "client_result (enc_Result (convertExecuteResult r)) = r"
proof -
  have "client_int None = 0" "client_str None = ''''" "\<And>s. client_str (Some (JStr s)) = s"
    by (simp_all add: client_int_def client_str_def)
  then show ?thesis
    by (cases r) (auto simp: enc_Result_def convertExecuteResult_def field_def client_int_enc)
qed

lemma enc_Result_plain: "utf8 (er_Error r) \<Longrightarrow> jplain (enc_Result r) \<and> jdepth (enc_Result r) \<le> 1"
  by (auto simp: enc_Result_def field_def enc_int64_plain ascii_def) (simp_all add: enc_int64_def)

lemma exec_results_json:
  assumes "\<forall>r \<in> set rs. utf8 (eres_Error r)"
  shows "proto_json ff (PExecRess rs) = Inr (JArr (map (\<lambda>r. enc_Result (convertExecuteResult r)) rs))"
    and "jplain (JArr (map (\<lambda>r. enc_Result (convertExecuteResult r)) rs))"
    and "jdepth (JArr (map (\<lambda>r. enc_Result (convertExecuteResult r)) rs)) \<le> 2"
    and "client_results (JArr (map (\<lambda>r. enc_Result (convertExecuteResult r)) rs)) = rs"
proof -
  have "jplain (enc_Result (convertExecuteResult r)) \<and> jdepth (enc_Result (convertExecuteResult r)) \<le> 1"
    if "r \<in> set rs" for r
    using assms that by (intro enc_Result_plain) (simp add: convertExecuteResult_def)
  then show "jplain (JArr (map (\<lambda>r. enc_Result (convertExecuteResult r)) rs))"
    "jdepth (JArr (map (\<lambda>r. enc_Result (convertExecuteResult r)) rs)) \<le> 2"
    by (auto simp: fold_max_le)
qed (simp_all add: client_result_enc comp_def)

section \<open>Properties\<close>

text \<open>
  The results of an execution survive the way to the client: whatever the results are (for
  errors that are valid UTF-8), the text that \<open>ProtoToJSON\<close> produces is valid JSON, and reading it with
  absent fields as zero values gives back every last insert id, row count and error, in
  order, also at the ends of the 64-bit range.
\<close>
theorem exec_results_roundtrip:
  assumes "\<forall>r \<in> set rs. utf8 (eres_Error r)"
  shows "\<exists>txt j. ProtoToJSON ff (PExecRess rs) = Inr txt \<and> parse_json txt = Some j \<and> client_results j = rs"
proof -
  note j = exec_results_json [OF assms]
  have "jdepth (JArr (map (\<lambda>r. enc_Result (convertExecuteResult r)) rs)) \<le> max_depth"
    using j(3) by (simp add: max_depth_def)
  from parse_json_print [OF j(2) this] j(1,4) show ?thesis by (simp add: ProtoToJSON_def)
qed

theorem exec_results_roundtrip_witness:
  "let r = \<lparr>eres_LastInsertId = - 7, eres_RowsAffected = 0, eres_Error = ''no \"x\"''\<rparr> in
   \<exists>txt j. ProtoToJSON (\<lambda>_. None) (PExecRess [r]) = Inr txt \<and> parse_json txt = Some j \<and> client_results j = [r]"
proof -
  let ?r = "\<lparr>eres_LastInsertId = - 7, eres_RowsAffected = 0, eres_Error = ''no \"x\"''\<rparr>"
  have "\<forall>r \<in> set [?r]. utf8 (eres_Error r)" by (simp add: ascii_def)
  from exec_results_roundtrip [OF this] show ?thesis by (simp add: Let_def)
qed

end
