(* ===== verification/Http.thy ===== *)
theory Http
  imports Json
begin

text \<open>
  What package \<open>service\<close> uses of \<^verbatim>\<open>net/http\<close>, \<^verbatim>\<open>net/url\<close> and \<^verbatim>\<open>strings\<close> (Go 1.21): requests and
  responses, query strings, forms, \<open>http.Error\<close>, \<open>http.Redirect\<close> and \<open>strings.TrimSpace\<close>.

  A request carries what the handlers read of it: the method, the path and the raw query of
  its URL, the result of \<open>mime.ParseMediaType\<close> on its content type, and what \<open>io.ReadAll\<close>
  on its body returns. A response is its status, the two headers the program sets and its
  body.
\<close>

section \<open>Strings\<close>

fun runes :: "nat \<Rightarrow> string \<Rightarrow> (nat \<times> string) list" where
  "runes skip [] = []"
| "runes (Suc k) (c # cs) = runes k cs"
| "runes 0 (c # cs) = (case DecodeRune c cs of (r, k) \<Rightarrow> (r, take k (c # cs)) # runes (k - 1) cs)"

text \<open>\<open>unicode.IsSpace\<close>\<close>

definition IsSpace :: "nat \<Rightarrow> bool" where
  "IsSpace r \<longleftrightarrow>
     (9 \<le> r \<and> r \<le> 13) \<or> r = 32 \<or> r = 133 \<or> r = 160 \<or> r = 5760 \<or> (8192 \<le> r \<and> r \<le> 8202) \<or>
     r = 8232 \<or> r = 8233 \<or> r = 8239 \<or> r = 8287 \<or> r = 12288"

definition TrimSpace :: "string \<Rightarrow> string" where
  "TrimSpace s =
     (let sp = (\<lambda>(r, _). IsSpace r) in
      concat (map snd (rev (dropWhile sp (rev (dropWhile sp (runes 0 s)))))))"

lemma runes_ascii: "ascii s \<Longrightarrow> runes 0 s = map (\<lambda>c. (cn c, [c])) s"
  by (induction s) (auto simp: ascii_def DecodeRune_def)

lemma TrimSpace_ascii:
  assumes "ascii s" and "\<not> IsSpace (cn (hd s))" and "\<not> IsSpace (cn (last s))"
  shows "TrimSpace s = s"
proof (cases s rule: rev_cases)
  case (snoc xs c)
  let ?rs = "map (\<lambda>c. (cn c, [c])) s" and ?sp = "\<lambda>(r, _ :: string). IsSpace r"
  have "dropWhile ?sp ?rs = ?rs" using assms(2) by (cases s) simp_all
  moreover have "dropWhile ?sp (rev ?rs) = rev ?rs" using assms(3) snoc by simp
  ultimately show ?thesis using assms(1) by (simp add: TrimSpace_def runes_ascii comp_def)
qed (simp add: TrimSpace_def)

section \<open>Query strings\<close>

text \<open>\<open>url.QueryUnescape\<close>\<close>

fun QueryUnescape :: "string \<Rightarrow> string option" where
  "QueryUnescape [] = Some []"
| "QueryUnescape (c # cs) =
     (if c = CHR ''%'' then
        (case cs of
          a # b # r \<Rightarrow>
            (case (hexval a, hexval b) of
              (Some x, Some y) \<Rightarrow> map_option ((#) (char_of (16 * x + y))) (QueryUnescape r)
            | _ \<Rightarrow> None)
        | _ \<Rightarrow> None)
      else map_option ((#) (if c = CHR ''+'' then CHR '' '' else c)) (QueryUnescape cs))"

text \<open>\<open>strings.Cut\<close>\<close>

definition Cut :: "char \<Rightarrow> string \<Rightarrow> string \<times> string" where
  "Cut sep s = (takeWhile ((\<noteq>) sep) s, drop 1 (dropWhile ((\<noteq>) sep) s))"

text \<open>The pieces between separators.\<close>

fun split_add :: "char \<Rightarrow> char \<Rightarrow> string list \<Rightarrow> string list" where
  "split_add sep c [] = [[c]]"
| "split_add sep c (w # ws) = (if c = sep then [] # w # ws else (c # w) # ws)"

definition split_on :: "char \<Rightarrow> string \<Rightarrow> string list" where
  "split_on sep s = foldr (split_add sep) s [[]]"

text \<open>
  \<open>url.ParseQuery\<close>: the settings in order, without those that are malformed, and whether some
  setting was malformed.
\<close>

definition parse_setting :: "string \<Rightarrow> (string \<times> string) option" where
  "parse_setting kv =
     (if CHR '';'' \<in> set kv then None
      else (case Cut (CHR ''='') kv of
        (k, v) \<Rightarrow>
          (case (QueryUnescape k, QueryUnescape v) of
            (Some k', Some v') \<Rightarrow> Some (k', v')
          | _ \<Rightarrow> None)))"

definition ParseQuery :: "string \<Rightarrow> (string \<times> string) list \<times> bool" where
  "ParseQuery s =
     (let settings = filter (\<lambda>kv. kv \<noteq> []) (split_on (CHR ''&'') s)
      in (List.map_filter parse_setting settings, list_ex (\<lambda>kv. parse_setting kv = None) settings))"

definition values_Get :: "(string \<times> string) list \<Rightarrow> string \<Rightarrow> string" where
  "values_Get vs k = (case map_of vs k of Some v \<Rightarrow> v | None \<Rightarrow> '''')"

section \<open>Requests and responses\<close>

record request =
  rq_Method :: string
  rq_Path :: string
  rq_RawQuery :: string
  rq_MediaType :: "goerr option \<times> string"
  rq_Body :: "goerr + bytes"

record response =
  rs_Status :: nat
  rs_ContentType :: "string option"
  rs_Location :: "string option"
  rs_Body :: string

definition URL_Query :: "request \<Rightarrow> (string \<times> string) list" where
  "URL_Query r = fst (ParseQuery (rq_RawQuery r))"

text \<open>\<open>w.WriteHeader(code)\<close> with nothing written\<close>

definition WriteHeader :: "string option \<Rightarrow> nat \<Rightarrow> response" where
  "WriteHeader ct code = \<lparr>rs_Status = code, rs_ContentType = ct, rs_Location = None, rs_Body = ''''\<rparr>"

definition http_Error :: "string \<Rightarrow> nat \<Rightarrow> response" where
  "http_Error msg code =
     \<lparr>rs_Status = code, rs_ContentType = Some ''text/plain; charset=utf-8'', rs_Location = None,
      rs_Body = msg @ [CHR 0x0A]\<rparr>"

definition hexEscapeNonASCII :: "string \<Rightarrow> string" where
  "hexEscapeNonASCII s =
     concat (map (\<lambda>c. if cn c < 128 then [c] else [CHR ''%'', hexdigit (cn c div 16), hexdigit (cn c)]) s)"

text \<open>
  \<open>http.Redirect\<close> to a URL with a scheme, for a request that is a POST or a response whose
  content type is already set: no body is written.
\<close>

definition http_Redirect :: "string option \<Rightarrow> string \<Rightarrow> nat \<Rightarrow> response" where
  "http_Redirect ct url code =
     \<lparr>rs_Status = code, rs_ContentType = ct, rs_Location = Some (hexEscapeNonASCII url), rs_Body = ''''\<rparr>"

definition max_form :: nat where "max_form = 10485760"

text \<open>
  \<open>parsePostForm\<close>: a form in the body is read, and then the body is at its end.
\<close>

definition parse_post_form :: "request \<Rightarrow> (bool \<times> (string \<times> string) list) \<times> request" where
  "parse_post_form r =
     (case rq_MediaType r of
        (err, ct) \<Rightarrow>
          if ct = ''application/x-www-form-urlencoded'' then
            (case rq_Body r of
              Inl _ \<Rightarrow> ((True, []), r)
            | Inr b \<Rightarrow>
                if length b > max_form then ((True, []), r\<lparr>rq_Body := Inr (drop (max_form + 1) b)\<rparr>)
                else (case ParseQuery (string_of_bytes b) of
                  (vs, bad) \<Rightarrow> ((err \<noteq> None \<or> bad, vs), r\<lparr>rq_Body := Inr []\<rparr>)))
          else ((err \<noteq> None, []), r))"

text \<open>\<open>ParseForm\<close>: whether it failed, the form, and the request with its body as it is left.\<close>

definition ParseForm :: "request \<Rightarrow> (bool \<times> (string \<times> string) list) \<times> request" where
  "ParseForm r =
     (case (if rq_Method r \<in> {''POST'', ''PUT'', ''PATCH''} then parse_post_form r else ((False, []), r)) of
        ((bad, post), r') \<Rightarrow>
          (case ParseQuery (rq_RawQuery r) of
            (vs, bad2) \<Rightarrow> ((bad \<or> bad2, post @ vs), r')))"

text \<open>
  What \<open>http.Client\<close> sends after a 301 answer to a request that is not a GET or HEAD: a GET
  without a body.
\<close>

definition follow_redirect :: "request \<Rightarrow> request" where
  "follow_redirect r =
     (if rq_Method r = ''GET'' \<or> rq_Method r = ''HEAD'' then r
      else r\<lparr>rq_Method := ''GET'', rq_Body := Inr []\<rparr>)"


section \<open>A client's query string\<close>

text \<open>\<open>url.QueryEscape\<close>\<close>

definition unreserved :: "char \<Rightarrow> bool" where
  "unreserved c \<longleftrightarrow>
     48 \<le> cn c \<and> cn c \<le> 57 \<or> 65 \<le> cn c \<and> cn c \<le> 90 \<or> 97 \<le> cn c \<and> cn c \<le> 122 \<or> c \<in> set ''-_.~''"

definition upper_hex :: "nat \<Rightarrow> char" where
  "upper_hex n = ''0123456789ABCDEF'' ! (n mod 16)"

definition escape_char :: "char \<Rightarrow> string" where
  "escape_char c =
     (if unreserved c then [c] else if c = CHR '' '' then ''+''
      else [CHR ''%'', upper_hex (cn c div 16), upper_hex (cn c)])"

definition QueryEscape :: "string \<Rightarrow> string" where
  "QueryEscape s = concat (map escape_char s)"

lemma upper_hex_facts: "hexval (upper_hex n) = Some (n mod 16)" "upper_hex n \<notin> set ''&;=%+''"
proof -
  have "\<forall>i \<in> set [0..<16]. hexval (''0123456789ABCDEF'' ! i) = Some i \<and> ''0123456789ABCDEF'' ! i \<notin> set ''&;=%+''"
    by code_simp
  then show "hexval (upper_hex n) = Some (n mod 16)" "upper_hex n \<notin> set ''&;=%+''"
    by (auto simp: upper_hex_def)
qed

lemma unescape_char: "QueryUnescape (escape_char c @ s) = map_option ((#) c) (QueryUnescape s)"
proof -
  have "char_of (16 * (cn c div 16 mod 16) + cn c mod 16) = c"
  proof -
    have "cn c div 16 < 16" using nat_of_char_less_256 [of c] by linarith
    then have "16 * (cn c div 16 mod 16) + cn c mod 16 = cn c" by simp
    then show ?thesis by simp
  qed
  moreover have "unreserved c \<Longrightarrow> c \<noteq> CHR ''%'' \<and> c \<noteq> CHR ''+''" by (auto simp: unreserved_def)
  ultimately show ?thesis
    by (auto simp: escape_char_def upper_hex_facts(1) split: option.split)
qed

lemma QueryUnescape_escape: "QueryUnescape (QueryEscape s) = Some s"
  by (induction s) (simp_all add: QueryEscape_def unescape_char)

lemma escape_char_plain:
  assumes "x \<in> set (escape_char c)"
  shows "x \<notin> set ''&;=''"
proof -
  consider "unreserved c" "x = c" | "x = CHR ''+''" | "x = CHR ''%''" | n where "x = upper_hex n"
    using assms by (auto simp: escape_char_def split: if_splits)
  then show ?thesis
  proof cases
    case 1
    then show ?thesis by (auto simp: unreserved_def)
  next
    case (4 n)
    with upper_hex_facts(2) [of n] show ?thesis by simp
  qed simp_all
qed

lemma QueryEscape_plain: "x \<in> set (QueryEscape s) \<Longrightarrow> x \<notin> set ''&;=''"
  unfolding QueryEscape_def using escape_char_plain by fastforce

lemma split_on_Cons: "\<exists>w ws. split_on sep s = w # ws"
proof (induction s)
  case (Cons c s)
  then show ?case by (auto simp: split_on_def)
qed (simp add: split_on_def)

lemma split_on_sep: "sep \<notin> set s \<Longrightarrow> split_on sep (s @ sep # t) = s # split_on sep t"
proof (induction s)
  case Nil
  then show ?case using split_on_Cons [of sep t] by (auto simp: split_on_def)
qed (auto simp: split_on_def)

lemma split_on_end: "sep \<notin> set s \<Longrightarrow> split_on sep s = [s]"
  by (induction s) (auto simp: split_on_def)


lemma split_on_join:
  "\<forall>w \<in> set ws. w \<noteq> [] \<and> sep \<notin> set w \<Longrightarrow> filter (\<lambda>w. w \<noteq> []) (split_on sep (join sep ws)) = ws"
proof (induction sep ws rule: join.induct)
  case (1 sep)
  then show ?case by (simp add: split_on_def)
qed (simp_all add: split_on_end split_on_sep)


text \<open>What \<open>ParseQuery\<close> makes of settings that a client escaped.\<close>

lemma parse_setting_escaped:
  assumes "set k \<inter> set ''&;='' = {}" and "QueryUnescape k = Some k"
  shows "parse_setting (k @ CHR ''='' # QueryEscape v) = Some (k, v)"
proof -
  have "CHR ''='' \<notin> set k" "CHR '';'' \<notin> set k" using assms(1) by auto
  moreover from this have "\<forall>x \<in> set k. CHR ''='' \<noteq> x" by auto
  ultimately have "Cut (CHR ''='') (k @ CHR ''='' # QueryEscape v) = (k, QueryEscape v)"
    by (simp add: Cut_def takeWhile_append2 dropWhile_append2)
  with \<open>CHR '';'' \<notin> set k\<close> assms(2) QueryUnescape_escape [of v] QueryEscape_plain [of "CHR '';''" v] show ?thesis
    by (auto simp: parse_setting_def)
qed

definition query_string :: "(string \<times> string) list \<Rightarrow> string" where
  "query_string kvs = join (CHR ''&'') (map (\<lambda>(k, v). k @ CHR ''='' # QueryEscape v) kvs)"

lemma ParseQuery_escaped:
  assumes "\<forall>(k, v) \<in> set kvs. set k \<inter> set ''&;='' = {} \<and> QueryUnescape k = Some k"
  shows "ParseQuery (query_string kvs) = (kvs, False)"
proof -
  let ?s = "\<lambda>(k, v). k @ CHR ''='' # QueryEscape v"
  have "\<forall>w \<in> set (map ?s kvs). w \<noteq> [] \<and> CHR ''&'' \<notin> set w"
    using assms QueryEscape_plain [of "CHR ''&''"] by fastforce
  then have "filter (\<lambda>kv. kv \<noteq> []) (split_on (CHR ''&'') (query_string kvs)) = map ?s kvs"
    unfolding query_string_def by (rule split_on_join)
  moreover have "List.map_filter parse_setting (map ?s kvs) = kvs"
    "list_ex (\<lambda>kv. parse_setting kv = None) (map ?s kvs) = False"
    using assms by (induction kvs) (auto simp: List.map_filter_def parse_setting_escaped)
  ultimately show ?thesis by (simp add: ParseQuery_def)
qed

end
