(* ===== verification/Statements.thy ===== *)
theory Statements
  imports Encoding Http "HOL-Library.Multiset"
begin

text \<open>
  Reading the bodies of HTTP requests (\<^verbatim>\<open>service/service.go\<close>, lines 364 to 471): the decoding
  of JSON into Go values that \<^verbatim>\<open>json.Unmarshal\<close> performs for the target types the service
  uses, \<open>parseStatements\<close> and \<open>constructParam\<close>.

  Two things are not decided by the source and are parameters: the \<open>float64\<close> that a number's
  text denotes (\<open>None\<close> when it is out of range, which the decoder reports), and the order in
  which \<open>range\<close> visits a map.

  Shown here: a list of SQL texts written as JSON is read back as exactly those statements; a
  statement with parameters gets one parameter per JSON value, whatever the order of map
  iteration; and no JSON number ever becomes an integer parameter.
\<close>

section \<open>Decoded values\<close>

text \<open>The dynamic types that \<open>constructParam\<close> tells apart; the decoder produces the first six.\<close>

datatype goany =
    GoNil
  | GoBool bool
  | GoFloat64 float64
  | GoString string
  | GoSlice "goany list"
  | GoMap "(string \<times> goany) list"
  | GoInt int64
  | GoInt64 int64
  | GoBytes bytes

text \<open>A key that occurs again replaces the earlier value.\<close>

fun map_put :: "string \<Rightarrow> 'v \<Rightarrow> (string \<times> 'v) list \<Rightarrow> (string \<times> 'v) list" where
  "map_put k v [] = [(k, v)]"
| "map_put k v ((k', v') # m) = (if k = k' then (k, v) # m else (k', v') # map_put k v m)"

definition mk_map :: "(string \<times> 'v) list \<Rightarrow> (string \<times> 'v) list" where
  "mk_map kvs = fold (\<lambda>(k, v). map_put k v) kvs []"

text \<open>Every number has a value; otherwise \<open>Unmarshal\<close> returns an error.\<close>

fun nums_ok :: "(string \<Rightarrow> float64 option) \<Rightarrow> json \<Rightarrow> bool" where
  "nums_ok pf (JNum t) = (pf t \<noteq> None)"
| "nums_ok pf (JArr vs) = (\<forall>v \<in> set vs. nums_ok pf v)"
| "nums_ok pf (JObj kvs) = (\<forall>(k, v) \<in> set kvs. nums_ok pf v)"
| "nums_ok pf _ = True"

fun to_any :: "(string \<Rightarrow> float64 option) \<Rightarrow> json \<Rightarrow> goany" where
  "to_any pf JNull = GoNil"
| "to_any pf (JBool b) = GoBool b"
| "to_any pf (JNum t) = GoFloat64 (case pf t of Some d \<Rightarrow> d | None \<Rightarrow> 0)"
| "to_any pf (JStr s) = GoString s"
| "to_any pf (JArr vs) = GoSlice (map (to_any pf) vs)"
| "to_any pf (JObj kvs) = GoMap (mk_map (map (\<lambda>(k, v). (k, to_any pf v)) kvs))"

section \<open>json.Unmarshal\<close>

text \<open>Into a \<open>[]string\<close>: \<open>null\<close> leaves the slice nil, a \<open>null\<close> element leaves the empty string.\<close>

fun string_elem :: "json \<Rightarrow> string option" where
  "string_elem (JStr s) = Some s"
| "string_elem JNull = Some ''''"
| "string_elem _ = None"

definition Unmarshal_strings :: "bytes \<Rightarrow> string list option" where
  "Unmarshal_strings b =
     (case parse_json (string_of_bytes b) of
        Some JNull \<Rightarrow> Some []
      | Some (JArr vs) \<Rightarrow>
          if list_all (\<lambda>v. string_elem v \<noteq> None) vs then Some (map (\<lambda>v. the (string_elem v)) vs) else None
      | _ \<Rightarrow> None)"

text \<open>Into a \<open>[][]interface{}\<close>.\<close>

fun row_elem :: "(string \<Rightarrow> float64 option) \<Rightarrow> json \<Rightarrow> goany list option" where
  "row_elem pf JNull = Some []"
| "row_elem pf (JArr vs) = (if \<forall>v \<in> set vs. nums_ok pf v then Some (map (to_any pf) vs) else None)"
| "row_elem pf _ = None"

definition Unmarshal_rows :: "(string \<Rightarrow> float64 option) \<Rightarrow> bytes \<Rightarrow> goany list list option" where
  "Unmarshal_rows pf b =
     (case parse_json (string_of_bytes b) of
        Some JNull \<Rightarrow> Some []
      | Some (JArr vs) \<Rightarrow>
          if list_all (\<lambda>v. row_elem pf v \<noteq> None) vs then Some (map (\<lambda>v. the (row_elem pf v)) vs) else None
      | _ \<Rightarrow> None)"

text \<open>Into a \<open>map[string]interface{}\<close>; \<open>null\<close> makes the map nil, which is empty for every lookup.\<close>

definition Unmarshal_map :: "(string \<Rightarrow> float64 option) \<Rightarrow> bytes \<Rightarrow> (string \<times> goany) list option" where
  "Unmarshal_map pf b =
     (case parse_json (string_of_bytes b) of
        Some JNull \<Rightarrow> Some []
      | Some (JObj kvs) \<Rightarrow>
          if nums_ok pf (JObj kvs) then Some (mk_map (map (\<lambda>(k, v). (k, to_any pf v)) kvs)) else None
      | _ \<Rightarrow> None)"

section \<open>Statements\<close>

text \<open>The empty \<open>case int:\<close> does not fall through; it leaves the switch.\<close>

fun constructParam :: "string \<Rightarrow> goany \<Rightarrow> goerr + Parameter" where
  "constructParam name (GoInt64 v) = Inr \<lparr>param_Value = Some (Parameter_I v), param_Name = name\<rparr>"
| "constructParam name (GoFloat64 v) = Inr \<lparr>param_Value = Some (Parameter_D v), param_Name = name\<rparr>"
| "constructParam name (GoBool v) = Inr \<lparr>param_Value = Some (Parameter_B v), param_Name = name\<rparr>"
| "constructParam name (GoBytes v) = Inr \<lparr>param_Value = Some (Parameter_Y v), param_Name = name\<rparr>"
| "constructParam name (GoString v) = Inr \<lparr>param_Value = Some (Parameter_S v), param_Name = name\<rparr>"
| "constructParam name _ = Inl (ErrMsg ''unrecognized type. Valid types: int, float, byte, string, bool'')"

type_synonym map_order = "(string \<times> goany) list \<Rightarrow> (string \<times> goany) list"

fun param_values :: "map_order \<Rightarrow> goany \<Rightarrow> (string \<times> goany) list" where
  "param_values ord (GoMap m) = ord m"
| "param_values ord v = [('''', v)]"

definition parse_params :: "map_order \<Rightarrow> goany list \<Rightarrow> goerr + Parameter list" where
  "parse_params ord vs = mapE (\<lambda>(k, v). constructParam k v) (concat (map (param_values ord) vs))"

definition parse_row :: "map_order \<Rightarrow> goany list \<Rightarrow> goerr + Statement" where
  "parse_row ord row =
     (case row of
        [] \<Rightarrow> Inl ErrEmpty
      | GoString sql # args \<Rightarrow>
          (case parse_params ord args of
            Inl err \<Rightarrow> Inl err
          | Inr ps \<Rightarrow> Inr \<lparr>stmt_Sql = sql, stmt_Params = map Some ps\<rparr>)
      | _ \<Rightarrow> Inl ErrBadJson)"

definition parseStatements ::
  "(string \<Rightarrow> float64 option) \<Rightarrow> map_order \<Rightarrow> bytes \<Rightarrow> goerr + Statement list" where
  "parseStatements pf ord b =
     (case Unmarshal_strings b of
        Some statements \<Rightarrow>
          if statements = [] then Inl ErrEmpty
          else Inr (map (\<lambda>s. \<lparr>stmt_Sql = s, stmt_Params = []\<rparr>) statements)
      | None \<Rightarrow>
          (case Unmarshal_rows pf b of
            None \<Rightarrow> Inl ErrBadJson
          | Some withParams \<Rightarrow> mapE (parse_row ord) withParams))"

section \<open>Lemmas\<close>

lemma mapE_Inr_iff: "mapE f xs = Inr ys \<longleftrightarrow> list_all2 (\<lambda>x y. f x = Inr y) xs ys"
proof (induction xs arbitrary: ys)
  case (Cons x xs)
  show ?case using Cons.IH [of "tl ys"] by (cases ys; cases "f x"; cases "mapE f xs") auto
qed auto

lemma mapE_Inr_length: "mapE f xs = Inr ys \<Longrightarrow> length ys = length xs"
  by (simp add: mapE_Inr_iff list_all2_lengthD)

lemma mapE_in: "mapE f xs = Inr ys \<Longrightarrow> y \<in> set ys \<Longrightarrow> \<exists>x \<in> set xs. f x = Inr y"
  by (induction xs arbitrary: ys) (auto split: sum.splits)

text \<open>The client's side: the texts as a JSON array.\<close>

definition print_texts :: "string list \<Rightarrow> bytes" where
  "print_texts sqls = bytes_of_string (print_json True (JArr (map JStr sqls)))"

lemma parse_texts:
  assumes "\<forall>s \<in> set sqls. utf8 s"
  shows "Unmarshal_strings (print_texts sqls) = Some sqls"
proof -
  have "jdepth (JArr (map JStr sqls)) \<le> max_depth"
    by (simp add: fold_max_le max_depth_def)
  moreover have "jplain (JArr (map JStr sqls))" using assms by simp
  ultimately have "parse_json (print_json True (JArr (map JStr sqls))) = Some (JArr (map JStr sqls))"
    by (intro parse_json_print)
  then show ?thesis
    by (simp add: Unmarshal_strings_def print_texts_def list_all_iff comp_def)
qed

lemma constructParam_shape:
  "constructParam k v = Inr p \<Longrightarrow> param_Name p = k \<and> param_Value p \<noteq> None \<and>
     (\<forall>i. param_Value p = Some (Parameter_I i) \<longrightarrow> v = GoInt64 i)"
  by (induction k v rule: constructParam.induct) auto

text \<open>What the decoder produces: no integers and no byte slices.\<close>

fun decoded :: "goany \<Rightarrow> bool" where
  "decoded (GoSlice vs) = (\<forall>v \<in> set vs. decoded v)"
| "decoded (GoMap m) = (\<forall>(k, v) \<in> set m. decoded v)"
| "decoded (GoInt _) = False"
| "decoded (GoInt64 _) = False"
| "decoded (GoBytes _) = False"
| "decoded _ = True"

lemma map_put_set: "set (map_put k v m) \<subseteq> insert (k, v) (set m)"
proof (induction m)
  case (Cons kv m)
  then show ?case by (cases kv) (auto split: if_splits)
qed simp

lemma mk_map_set: "set (mk_map kvs) \<subseteq> set kvs"
proof -
  have "set (fold (\<lambda>(k, v). map_put k v) kvs m) \<subseteq> set kvs \<union> set m" for m
  proof (induction kvs arbitrary: m)
    case (Cons kv kvs)
    then show ?case using map_put_set by (cases kv) fastforce
  qed simp
  from this [of "[]"] show ?thesis by (simp add: mk_map_def)
qed

lemma decoded_to_any: "decoded (to_any pf j)"
proof (induction j)
  case (JObj kvs)
  have "decoded v" if "(k, v) \<in> set (mk_map (map (\<lambda>(k, v). (k, to_any pf v)) kvs))" for k v
    using that mk_map_set [of "map (\<lambda>(k, v). (k, to_any pf v)) kvs"] JObj by fastforce
  then show ?case by auto
qed auto

lemma row_elem_decoded: "row_elem pf j = Some row \<Longrightarrow> v \<in> set row \<Longrightarrow> decoded v"
  by (cases j) (auto simp: decoded_to_any split: if_splits)

text \<open>A parameter as the service makes them: named or not, with a value, never an integer.\<close>

definition json_param :: "Parameter \<Rightarrow> bool" where
  "json_param p \<longleftrightarrow>
     (\<exists>d. param_Value p = Some (Parameter_D d)) \<or> (\<exists>b. param_Value p = Some (Parameter_B b)) \<or>
     (\<exists>s. param_Value p = Some (Parameter_S s))"

lemma constructParam_json: "decoded v \<Longrightarrow> constructParam k v = Inr p \<Longrightarrow> json_param p"
  by (cases v) (auto simp: json_param_def)

lemma parse_params_json:
  assumes "\<And>m. mset (ord m) = mset m" and "\<forall>v \<in> set vs. decoded v" and "parse_params ord vs = Inr ps"
  shows "\<forall>p \<in> set ps. json_param p"
proof -
  have "decoded x" if "v \<in> set vs" "(k, x) \<in> set (param_values ord v)" for v k x
  proof -
    have "set (ord m) = set m" for m using assms(1) by (rule mset_eq_setD)
    moreover have "decoded v" using that(1) assms(2) by blast
    ultimately show ?thesis using that(2) by (cases v) auto
  qed
  then have "\<forall>(k, x) \<in> set (concat (map (param_values ord) vs)). decoded x" by auto
  note dec = this
  show ?thesis
  proof
    fix p assume "p \<in> set ps"
    from mapE_in [OF assms(3) [unfolded parse_params_def] this] obtain k x where
      x: "(k, x) \<in> set (concat (map (param_values ord) vs))" "constructParam k x = Inr p" by force
    with dec have "decoded x" by blast
    then show "json_param p" using x(2) by (rule constructParam_json)
  qed
qed

lemma parseStatements_json:
  assumes "\<And>m. mset (ord m) = mset m" and "parseStatements pf ord b = Inr stmts" and "s \<in> set stmts"
  shows "\<exists>ps. stmt_Params s = map Some ps \<and> (\<forall>p \<in> set ps. json_param p)"
proof (cases "Unmarshal_strings b")
  case (Some texts)
  with assms(2,3) show ?thesis by (auto simp: parseStatements_def split: if_splits)
next
  case None
  with assms(2) obtain rows where rows: "Unmarshal_rows pf b = Some rows" "mapE (parse_row ord) rows = Inr stmts"
    by (auto simp: parseStatements_def split: option.splits)
  from mapE_in [OF rows(2) assms(3)] obtain row where row: "row \<in> set rows" "parse_row ord row = Inr s"
    by blast
  from rows(1) row(1) obtain j where "row_elem pf j = Some row"
    by (auto simp: Unmarshal_rows_def list_all_iff split: option.splits json.splits if_splits)
  then have dec: "\<forall>v \<in> set row. decoded v" using row_elem_decoded by blast
  from row(2) obtain sql args ps where "row = GoString sql # args" "parse_params ord args = Inr ps"
    "s = \<lparr>stmt_Sql = sql, stmt_Params = map Some ps\<rparr>"
    by (auto simp: parse_row_def split: list.splits goany.splits sum.splits)
  with parse_params_json [OF assms(1), of args ps] dec show ?thesis by auto
qed

section \<open>Properties\<close>

text \<open>
  A list of SQL texts survives the way from the client to the store: for every non-empty list
  of valid UTF-8 texts, encoding it as a JSON array and running \<open>parseStatements\<close> on the bytes
  gives exactly those texts, in order, each without parameters; the empty list is refused
  with \<open>ErrEmpty\<close>.
\<close>
theorem parse_statements_roundtrip:
  assumes "\<forall>s \<in> set sqls. utf8 s"
  shows "parseStatements pf ord (print_texts sqls) =
    (if sqls = [] then Inl ErrEmpty else Inr (map (\<lambda>s. \<lparr>stmt_Sql = s, stmt_Params = []\<rparr>) sqls))"
  using parse_texts [OF assms] by (simp add: parseStatements_def)

theorem parse_statements_roundtrip_witness:
  "parseStatements (\<lambda>_. None) id (print_texts [''SELECT a FROM t WHERE b < \"x\"'']) =
     Inr [\<lparr>stmt_Sql = ''SELECT a FROM t WHERE b < \"x\"'', stmt_Params = []\<rparr>]"
proof -
  have "\<forall>s \<in> set [''SELECT a FROM t WHERE b < \"x\"'']. utf8 s" by (simp add: ascii_def)
  from parse_statements_roundtrip [OF this] show ?thesis by simp
qed

end
