(* ===== verification/Service.thy ===== *)
theory Service
  imports Store Statements "HOL-Library.Char_ord" "HOL-Library.List_Lexorder"
begin

text \<open>
  Package \<open>service\<close> (\<^verbatim>\<open>service/service.go\<close>): the HTTP front. A handler maps a request and the
  state of the store to a response and the new state; a panic in a handler (a failed type
  assertion, a panic of the store) is \<open>Panic\<close>: no response is written.

  The handlers work on any \<open>Store\<close>; what they do on a store that is not the leader is
  proved in the context of the locale \<open>store\<close> and then read off for the consensus node.

  Parameters: the number conversions and map order of theory \<open>Statements\<close>, the Go runtime's
  figures, the handlers of \<open>net/http/pprof\<close>, and the network and TLS calls of \<open>Start\<close>.
\<close>

section \<open>The service\<close>

datatype chan = ChanNil | ChanOpen | ChanClosed

text \<open>The life of a channel as an order: made, then closed.\<close>

fun chan_age :: "chan \<Rightarrow> nat" where
  "chan_age ChanNil = 0"
| "chan_age ChanOpen = 1"
| "chan_age ChanClosed = 2"

instantiation chan :: linorder
begin

definition less_eq_chan :: "chan \<Rightarrow> chan \<Rightarrow> bool" where
  "less_eq_chan a b \<longleftrightarrow> chan_age a \<le> chan_age b"

definition less_chan :: "chan \<Rightarrow> chan \<Rightarrow> bool" where
  "less_chan a b \<longleftrightarrow> chan_age a < chan_age b"

instance
proof
  fix a b :: chan
  show "a \<le> b \<Longrightarrow> b \<le> a \<Longrightarrow> a = b" by (cases a; cases b) (simp_all add: less_eq_chan_def)
qed (auto simp: less_eq_chan_def less_chan_def)

end

lemma ChanClosed_top [simp]: "c \<le> ChanClosed" "ChanClosed \<le> c \<longleftrightarrow> c = ChanClosed"
  by (cases c; simp add: less_eq_chan_def)+

record Service =
  sv_listener :: "string option"    \<comment> \<open>the address it listens on\<close>
  sv_addr :: string
  sv_manager :: "(string \<Rightarrow> goerr + string) option"    \<comment> \<open>\<open>GetNodeAPIAddr\<close>\<close>
  sv_closeChan :: chan
  sv_CAFile :: string
  sv_CertFile :: string
  sv_KeyFile :: string
  sv_pprof :: bool

record svcenv =
  x_ParseFloat :: "string \<Rightarrow> float64 option"
  x_FormatFloat :: "float64 \<Rightarrow> string option"
  x_order :: map_order
  x_GOARCH :: string
  x_GOOS :: string
  x_version :: string
  x_GOMAXPROCS :: int
  x_NumCPU :: int
  x_NumGoroutine :: int
  x_pprof :: "string \<Rightarrow> request \<Rightarrow> response"
  x_Listen :: "string \<Rightarrow> goerr + string"
  x_LoadKeyPair :: "string \<Rightarrow> string \<Rightarrow> goerr option"
  x_ReadFile :: "string \<Rightarrow> goerr + bytes"
  x_AppendPEM :: "bytes \<Rightarrow> bool"

text \<open>The service is returned along with the error of \<open>zap.NewProduction\<close>; the store is apart.\<close>

definition NewService :: "goerr option \<Rightarrow> string \<Rightarrow> bool \<Rightarrow> Service \<times> goerr option" where
  "NewService zap addr enablePPROF =
     (\<lparr>sv_listener = None, sv_addr = addr, sv_manager = None, sv_closeChan = ChanNil, sv_CAFile = '''',
       sv_CertFile = '''', sv_KeyFile = '''', sv_pprof = enablePPROF\<rparr>, zap)"

text \<open>\<open>close(s.closeChan)\<close> panics on a nil and on a closed channel.\<close>

definition Service_Close :: "(string \<Rightarrow> goerr option) \<Rightarrow> Service \<Rightarrow> (goerr option \<times> Service) go" where
  "Service_Close ln_Close s =
     (case sv_closeChan s of
        ChanNil \<Rightarrow> Panic ''close of nil channel''
      | ChanClosed \<Rightarrow> Panic ''close of closed channel''
      | ChanOpen \<Rightarrow>
          (case sv_listener s of
            None \<Rightarrow> Panic ''invalid memory address or nil pointer dereference''
          | Some ln \<Rightarrow> Ret (ln_Close ln, s\<lparr>sv_closeChan := ChanClosed\<rparr>)))"

definition IsHTTPS :: "Service \<Rightarrow> bool" where
  "IsHTTPS s \<longleftrightarrow> sv_KeyFile s \<noteq> '''' \<and> sv_CertFile s \<noteq> ''''"

record tlsConfig =
  tc_NextProtos :: "string list"
  tc_Certificate :: "string \<times> string"
  tc_RootCAs :: "bytes option"

definition createTLS :: "svcenv \<Rightarrow> string \<Rightarrow> string \<Rightarrow> string \<Rightarrow> goerr + tlsConfig" where
  "createTLS x certFile keyFile caFile =
     (let config = \<lparr>tc_NextProtos = [''h2'', ''http/1.1''], tc_Certificate = (certFile, keyFile), tc_RootCAs = None\<rparr> in
      case x_LoadKeyPair x certFile keyFile of
        Some err \<Rightarrow> Inl err
      | None \<Rightarrow>
          if caFile \<noteq> '''' then
            (case x_ReadFile x caFile of
              Inl err \<Rightarrow> Inl err
            | Inr ca \<Rightarrow>
                if \<not> x_AppendPEM x ca then Inl (ErrMsg ''failed to parse root certificate'')
                else Inr (config\<lparr>tc_RootCAs := Some ca\<rparr>))
          else Inr config)"

definition StartWithListener :: "string \<Rightarrow> Service \<Rightarrow> goerr option \<times> Service" where
  "StartWithListener ln s = (None, s\<lparr>sv_listener := Some ln, sv_closeChan := ChanOpen\<rparr>)"

definition Start :: "svcenv \<Rightarrow> Service \<Rightarrow> goerr option \<times> Service" where
  "Start x s =
     (if sv_CertFile s = '''' \<or> sv_KeyFile s = '''' then
        (case x_Listen x (sv_addr s) of
          Inl err \<Rightarrow> (Some err, s)
        | Inr ln \<Rightarrow> StartWithListener ln s)
      else
        (case createTLS x (sv_CertFile s) (sv_KeyFile s) (sv_CAFile s) of
          Inl err \<Rightarrow> (Some err, s)
        | Inr conf \<Rightarrow>
            (case x_Listen x (sv_addr s) of
              Inl err \<Rightarrow> (Some err, s)
            | Inr ln \<Rightarrow> StartWithListener ln s)))"

section \<open>Responses\<close>

record DBResponse =
  db_ExecRes :: "ExecRes list option"
  db_QueryRes :: "QueryRes list option"

record DataResponse =
  dr_Results :: DBResponse
  dr_Error :: string

definition MarshalJSON :: "svcenv \<Rightarrow> DBResponse \<Rightarrow> goerr + string" where
  "MarshalJSON x d =
     (case db_ExecRes d of
        Some rs \<Rightarrow> ProtoToJSON (x_FormatFloat x) (PExecRess rs)
      | None \<Rightarrow>
          (case db_QueryRes d of
            Some qs \<Rightarrow> ProtoToJSON (x_FormatFloat x) (PQueryRess qs)
          | None \<Rightarrow> Inr (print_json True (JArr []))))"

text \<open>
  \<open>json.Marshal\<close> compacts what \<open>MarshalJSON\<close> returned and escapes it for HTML; the encoder
  leaves no white space and no raw line separator in it.
\<close>

definition html_escape :: "string \<Rightarrow> string" where
  "html_escape s = concat (map (\<lambda>c. if c \<in> set ''<>&'' then u00 (cn c) else [c]) s)"

definition marshal_response :: "svcenv \<Rightarrow> DataResponse \<Rightarrow> goerr + string" where
  "marshal_response x resp =
     (case MarshalJSON x (dr_Results resp) of
        Inl err \<Rightarrow>
          Inl (ErrMsg (''json: error calling MarshalJSON for type *service.DBResponse: '' @ err_text err))
      | Inr txt \<Rightarrow>
          Inr (''{\"results\":'' @ html_escape txt @
               (if dr_Error resp = '''' then '''' else '',\"error\":'' @ print_string True (dr_Error resp)) @ ''}''))"

definition json_type :: string where
  "json_type = ''application/json; charset=utf-8''"

definition writeResponse :: "svcenv \<Rightarrow> DataResponse \<Rightarrow> response" where
  "writeResponse x resp =
     (case marshal_response x resp of
        Inl err \<Rightarrow> http_Error (err_text err) 500
      | Inr b \<Rightarrow> \<lparr>rs_Status = 200, rs_ContentType = Some json_type, rs_Location = None, rs_Body = b\<rparr>)"

definition redirectAddr :: "request \<Rightarrow> string \<Rightarrow> string" where
  "redirectAddr r url =
     ''http://'' @ url @ rq_Path r @ (if rq_RawQuery r \<noteq> '''' then CHR ''?'' # rq_RawQuery r else '''')"

text \<open>What every handler does with \<open>ErrNotLeader\<close>.\<close>

definition not_leader :: "'s StoreOps \<Rightarrow> string option \<Rightarrow> request \<Rightarrow> 's \<Rightarrow> response" where
  "not_leader ops ct r s =
     (let leaderAddr = st_LeaderAddr ops s in
      if leaderAddr = '''' then http_Error (err_text ErrNotLeader) 503
      else http_Redirect ct (redirectAddr r leaderAddr) 301)"

definition Service_Addr :: "Service \<Rightarrow> string go" where
  "Service_Addr s =
     (case sv_listener s of
        None \<Rightarrow> Panic ''invalid memory address or nil pointer dereference''
      | Some ln \<Rightarrow> Ret ln)"

definition GetLeaderAPIAddr :: "'s StoreOps \<Rightarrow> Service \<Rightarrow> 's \<Rightarrow> string go" where
  "GetLeaderAPIAddr ops sv s =
     (let nAddr = st_LeaderAddr ops s in
      case sv_manager sv of
        None \<Rightarrow> Panic ''invalid memory address or nil pointer dereference''
      | Some getNodeAPIAddr \<Rightarrow>
          (case getNodeAPIAddr nAddr of Inl _ \<Rightarrow> Ret '''' | Inr apiAddr \<Rightarrow> Ret apiAddr))"

section \<open>Membership handlers\<close>

text \<open>\<open>id.(string)\<close>\<close>

fun assert_string :: "goany \<Rightarrow> string go" where
  "assert_string (GoString s) = Ret s"
| "assert_string _ = Panic ''interface conversion: interface {} is not string''"

definition join_handler :: "svcenv \<Rightarrow> 's StoreOps \<Rightarrow> request \<Rightarrow> 's \<Rightarrow> (response \<times> 's) go" where
  "join_handler x ops r s =
     (if rq_Method r \<noteq> ''POST'' then Ret (WriteHeader None 405, s)
      else (case rq_Body r of
        Inl _ \<Rightarrow> Ret (WriteHeader None 400, s)
      | Inr b \<Rightarrow>
     (case Unmarshal_map (x_ParseFloat x) b of
        None \<Rightarrow> Ret (WriteHeader None 400, s)
      | Some jsonMap \<Rightarrow>
     (case map_of jsonMap ''id'' of
        None \<Rightarrow> Ret (WriteHeader None 400, s)
      | Some i \<Rightarrow>
     (case map_of jsonMap ''addr'' of
        None \<Rightarrow> Ret (WriteHeader None 400, s)
      | Some addr \<Rightarrow>
          go_bind (assert_string i) (\<lambda>i'. go_bind (assert_string addr) (\<lambda>addr'.
            case st_Join ops i' addr' s of
              (None, s') \<Rightarrow> Ret (WriteHeader None 200, s')
            | (Some err, s') \<Rightarrow>
                if err = ErrNotLeader then Ret (not_leader ops None r s', s')
                else Ret (http_Error (err_text err) 500, s'))))))))"

definition leave_handler :: "svcenv \<Rightarrow> 's StoreOps \<Rightarrow> request \<Rightarrow> 's \<Rightarrow> (response \<times> 's) go" where
  "leave_handler x ops r s =
     (if rq_Method r \<noteq> ''POST'' then Ret (WriteHeader None 405, s)
      else (case rq_Body r of
        Inl _ \<Rightarrow> Ret (WriteHeader None 400, s)
      | Inr b \<Rightarrow>
     (case Unmarshal_map (x_ParseFloat x) b of
        None \<Rightarrow> Ret (WriteHeader None 400, s)
      | Some jsonMap \<Rightarrow>
     (case map_of jsonMap ''id'' of
        None \<Rightarrow> Ret (WriteHeader None 400, s)
      | Some i \<Rightarrow>
          go_bind (assert_string i) (\<lambda>i'.
            case st_Leave ops i' s of
              (None, s') \<Rightarrow> Ret (WriteHeader None 200, s')
            | (Some err, s') \<Rightarrow>
                if err = ErrNotLeader then Ret (not_leader ops None r s', s')
                else Ret (WriteHeader None 500, s'))))))"

section \<open>Execute and query handlers\<close>

definition execHandler :: "svcenv \<Rightarrow> 's StoreOps \<Rightarrow> request \<Rightarrow> 's \<Rightarrow> (response \<times> 's) go" where
  "execHandler x ops r s =
     (case rq_Body r of
        Inl err \<Rightarrow> Ret (http_Error (err_text err) 400, s)
      | Inr b \<Rightarrow>
     (case parseStatements (x_ParseFloat x) (x_order x) b of
        Inl err \<Rightarrow> Ret (http_Error (err_text err) 400, s)
      | Inr statements \<Rightarrow>
          go_bind (st_Exec ops \<lparr>req_Transaction = False, req_Statements = statements\<rparr> s) (\<lambda>((res, e), s').
            case e of
              Some err \<Rightarrow>
                if err = ErrNotLeader then Ret (not_leader ops (Some json_type) r s', s')
                else Ret (writeResponse x
                       \<lparr>dr_Results = \<lparr>db_ExecRes = None, db_QueryRes = None\<rparr>, dr_Error = err_text err\<rparr>, s')
            | None \<Rightarrow>
                Ret (writeResponse x
                       \<lparr>dr_Results = \<lparr>db_ExecRes = res, db_QueryRes = None\<rparr>, dr_Error = ''''\<rparr>, s'))))"

definition checkBoolParam :: "request \<Rightarrow> string \<Rightarrow> bool option \<times> request" where
  "checkBoolParam r param =
     (case ParseForm r of
        ((bad, form), r') \<Rightarrow> (if bad then None else Some (param \<in> fst ` set form), r'))"

text \<open>False = no strong consistency; True = strong consistency.\<close>

definition determineConsistency :: "request \<Rightarrow> bool" where
  "determineConsistency r \<longleftrightarrow> ToLower (TrimSpace (values_Get (URL_Query r) ''consistency'')) = ''strong''"

definition getReqQueries :: "svcenv \<Rightarrow> request \<Rightarrow> goerr + Statement list" where
  "getReqQueries x r =
     (if rq_Method r = ''GET'' then
        (let stmt = TrimSpace (values_Get (URL_Query r) ''q'') in
         if stmt = '''' then Inl (ErrMsg ''bad query GET request'')
         else Inr [\<lparr>stmt_Sql = stmt, stmt_Params = []\<rparr>])
      else (case rq_Body r of
        Inl _ \<Rightarrow> Inl (ErrMsg ''bad query POST request'')
      | Inr body \<Rightarrow> parseStatements (x_ParseFloat x) (x_order x) body))"

text \<open>The request that \<open>queryHandler\<close> makes of an HTTP request, or its answer to a bad one.\<close>

definition query_request :: "svcenv \<Rightarrow> request \<Rightarrow> response + QueryReq" where
  "query_request x r =
     (if rq_Method r \<noteq> ''GET'' \<and> rq_Method r \<noteq> ''POST'' then Inl (WriteHeader (Some json_type) 405)
      else (case checkBoolParam r ''transaction'' of
        (None, _) \<Rightarrow> Inl (WriteHeader (Some json_type) 400)
      | (Some isTransaction, r') \<Rightarrow>
     (case getReqQueries x r' of
        Inl err \<Rightarrow> Inl (http_Error (err_text err) 400)
      | Inr queries \<Rightarrow>
          Inr \<lparr>qreq_Request = Some \<lparr>req_Transaction = isTransaction, req_Statements = queries\<rparr>,
               qreq_StrongConsistency = determineConsistency r\<rparr>)))"

definition queryHandler :: "svcenv \<Rightarrow> 's StoreOps \<Rightarrow> request \<Rightarrow> 's \<Rightarrow> (response \<times> 's) go" where
  "queryHandler x ops r s =
     (case query_request x r of
        Inl resp \<Rightarrow> Ret (resp, s)
      | Inr qr \<Rightarrow>
          go_bind (st_Query ops qr s) (\<lambda>((results, e), s').
            case e of
              Some err \<Rightarrow>
                if err = ErrNotLeader then Ret (not_leader ops (Some json_type) r s', s')
                else Ret (writeResponse x
                       \<lparr>dr_Results = \<lparr>db_ExecRes = None, db_QueryRes = None\<rparr>, dr_Error = err_text err\<rparr>, s')
            | None \<Rightarrow>
                Ret (writeResponse x
                       \<lparr>dr_Results = \<lparr>db_ExecRes = None, db_QueryRes = results\<rparr>, dr_Error = ''''\<rparr>, s')))"

section \<open>The other handlers and the dispatcher\<close>

definition pprofHandler :: "svcenv \<Rightarrow> request \<Rightarrow> response" where
  "pprofHandler x r =
     (if rq_Path r = ''/pprof/cmdline'' then x_pprof x ''Cmdline'' r
      else if rq_Path r = ''/pprof/profile'' then x_pprof x ''Profile'' r
      else if rq_Path r = ''/pprof/symbol'' then x_pprof x ''Symbol'' r
      else x_pprof x ''Index'' r)"

text \<open>A Go map is encoded with its keys in order.\<close>

definition enc_map :: "(string \<times> json) list \<Rightarrow> json" where
  "enc_map kvs = JObj (sort_key fst kvs)"

definition metric_json :: "svcenv \<Rightarrow> NodeMetrics \<Rightarrow> json" where
  "metric_json x m =
     enc_map
       [(''runtime'',
         enc_map [(''GOARCH'', JStr (x_GOARCH x)), (''GOOS'', JStr (x_GOOS x)),
                  (''GOMAXPROCS'', JNum (show_int (x_GOMAXPROCS x))),
                  (''cpu_count'', JNum (show_int (x_NumCPU x))),
                  (''goroutine_count'', JNum (show_int (x_NumGoroutine x))),
                  (''version'', JStr (x_version x))]),
        (''store'',
         enc_map [(''node_id'', JStr (nm_node_id m)), (''leader'', JStr (nm_leader m)),
                  (''directory'', JStr (nm_directory m)),
                  (''raft_directory_size'', enc_int64 (nm_raft_directory_size m)),
                  (''database_size'', enc_int64 (nm_database_size m))])]"

definition metricHandler :: "svcenv \<Rightarrow> 's StoreOps \<Rightarrow> request \<Rightarrow> 's \<Rightarrow> (response \<times> 's) go" where
  "metricHandler x ops r s =
     (if rq_Method r \<noteq> ''GET'' then Ret (WriteHeader (Some json_type) 405, s)
      else go_bind (st_Metrics ops s) (\<lambda>(m, s').
        case m of
          Inl err \<Rightarrow> Ret (http_Error (err_text err) 500, s')
        | Inr storeMetrics \<Rightarrow>
            Ret (\<lparr>rs_Status = 200, rs_ContentType = Some json_type, rs_Location = None,
                  rs_Body = print_json True (metric_json x storeMetrics)\<rparr>, s')))"

definition ServeHTTP :: "svcenv \<Rightarrow> Service \<Rightarrow> 's StoreOps \<Rightarrow> request \<Rightarrow> 's \<Rightarrow> (response \<times> 's) go" where
  "ServeHTTP x sv ops r s =
     (if HasPrefix (rq_Path r) ''/join'' then join_handler x ops r s
      else if HasPrefix (rq_Path r) ''/leave'' then leave_handler x ops r s
      else if HasPrefix (rq_Path r) ''/execute'' then execHandler x ops r s
      else if HasPrefix (rq_Path r) ''/query'' then queryHandler x ops r s
      else if HasPrefix (rq_Path r) ''/pprof'' \<and> sv_pprof sv then Ret (pprofHandler x r, s)
      else if HasPrefix (rq_Path r) ''/metric'' then metricHandler x ops r s
      else Ret (WriteHeader None 404, s))"

section \<open>Routing\<close>

text \<open>Two prefixes of one path, the shorter is a prefix of the other.\<close>

lemma HasPrefix_both: "HasPrefix s p \<Longrightarrow> HasPrefix s q \<Longrightarrow> length p \<le> length q \<Longrightarrow> take (length p) q = p"
  unfolding HasPrefix_def by (metis min.absorb1 take_take)

lemma route_execute:
  assumes "HasPrefix (rq_Path r) ''/execute''"
  shows "ServeHTTP x sv ops r s = execHandler x ops r s"
  using HasPrefix_both [of "rq_Path r" "''/join''", OF _ assms] HasPrefix_both [of "rq_Path r" "''/leave''", OF _ assms] assms
  by (auto simp: ServeHTTP_def)

section \<open>Escaping for HTML\<close>

lemma html_escape_append [simp]: "html_escape (s @ t) = html_escape s @ html_escape t"
  by (simp add: html_escape_def)

lemma html_escape_Cons [simp]:
  "html_escape (c # s) = (if c \<in> set ''<>&'' then u00 (cn c) else [c]) @ html_escape s"
  by (simp add: html_escape_def)

lemma html_escape_Nil [simp]: "html_escape [] = []"
  by (simp add: html_escape_def)

lemma html_escape_id: "\<forall>c \<in> set s. c \<notin> set ''<>&'' \<Longrightarrow> html_escape s = s"
  by (induction s) auto

lemma hexdigit_plain: "hexdigit n \<notin> set ''<>&''"
proof -
  have "\<forall>k \<in> set [0..<16]. hexdigit k \<notin> set ''<>&''" by code_simp
  moreover have "hexdigit n = hexdigit (n mod 16)" by (simp add: hexdigit_def)
  ultimately show ?thesis by (metis atLeastLessThan_iff mod_less_divisor set_upt zero_le zero_less_numeral)
qed

lemma html_escape_u00: "html_escape (u00 n) = u00 n"
  using hexdigit_plain by (intro html_escape_id) (auto simp: u00_def)

lemma html_escape_quote: "utf8 s \<Longrightarrow> html_escape (quote_chars False 0 s) = quote_chars True 0 s"
proof (induction s rule: utf8_induct)
  case (single c s)
  moreover have "html_escape (quote_ascii False c) = quote_ascii True c"
    by (auto simp: quote_ascii_def html_escape_u00)
  ultimately show ?case by simp
next
  case (multi c as cs r)
  have "\<forall>x \<in> set (c # as). x \<notin> set ''<>&''"
    using EncodeRune_tail [OF multi(4)] multi(1) by fastforce
  then have "html_escape (c # as) = c # as" by (rule html_escape_id)
  with multi(6) show ?case
    unfolding quote_chars_multi [OF multi(1,5,2)] by (simp del: html_escape_Cons) simp
qed simp

lemma html_escape_join: "html_escape (join CHR '','' ss) = join CHR '','' (map html_escape ss)"
  by (induction "CHR '',''" ss rule: join.induct) auto

lemma html_escape_print: "jplain j \<Longrightarrow> html_escape (print_json False j) = print_json True j"
proof (induction j)
  case (JNum t)
  have "c \<notin> set ''<>&''" if "num_char c" for c using that by (auto simp: num_char_def is_digit_def)
  with JNum have "\<forall>c \<in> set t. c \<notin> set ''<>&''" unfolding list_all_iff jplain.simps by blast
  then show ?case by (simp only: print_json.simps html_escape_id)
next
  case (JArr vs)
  then have "map (\<lambda>v. html_escape (print_json False v)) vs = map (print_json True) vs" by simp
  from arg_cong [OF this, of "join CHR '',''"] show ?case by (simp add: html_escape_join comp_def)
next
  case (JObj kvs)
  then have "map (\<lambda>(k, v). html_escape (print_string False k @ CHR '':'' # print_json False v)) kvs =
      map (\<lambda>(k, v). print_string True k @ CHR '':'' # print_json True v) kvs"
    by (auto simp: print_string_def html_escape_quote)
  from arg_cong [OF this, of "join CHR '',''"] show ?case
    by (simp add: html_escape_join comp_def case_prod_unfold)
qed (auto simp: print_string_def html_escape_quote)

section \<open>A store that is not the leader\<close>

declare join_handler_def [service_defs] leave_handler_def [service_defs] execHandler_def [service_defs]
  queryHandler_def [service_defs] metricHandler_def [service_defs]

context store
begin

lemma join_handler_refused:
  "\<not> leader s \<Longrightarrow> join_handler x ops r s = Ret (resp, s') \<Longrightarrow> s' = s"
  by (auto simp: join_handler_def join_refused split: if_splits sum.splits option.splits)

lemma leave_handler_refused:
  "\<not> leader s \<Longrightarrow> leave_handler x ops r s = Ret (resp, s') \<Longrightarrow> s' = s"
  by (auto simp: leave_handler_def leave_refused split: if_splits sum.splits option.splits)

lemma execHandler_refused:
  assumes "\<not> leader s"
  shows "execHandler x ops r s =
    (case rq_Body r of
       Inl err \<Rightarrow> Ret (http_Error (err_text err) 400, s)
     | Inr b \<Rightarrow>
         (case parseStatements (x_ParseFloat x) (x_order x) b of
           Inl err \<Rightarrow> Ret (http_Error (err_text err) 400, s)
         | Inr stmts \<Rightarrow> Ret (not_leader ops (Some json_type) r s, s)))"
  using assms by (auto simp: execHandler_def exec_refused split: sum.splits)

lemma queryHandler_refused:
  assumes "\<not> leader s" and "determineConsistency r"
  shows "queryHandler x ops r s =
    (case query_request x r of
       Inl resp \<Rightarrow> Ret (resp, s)
     | Inr q \<Rightarrow> Ret (not_leader ops (Some json_type) r s, s))"
proof -
  have "qreq_StrongConsistency q" if "query_request x r = Inr q" for q
    using that assms(2)
    by (auto simp: query_request_def split: if_splits prod.splits option.splits sum.splits)
  with assms(1) show ?thesis by (auto simp: queryHandler_def query_refused split: sum.splits)
qed

end

context serving_store
begin

lemma queryHandler_weak:
  assumes "ok s" and "\<not> determineConsistency r" and "queryHandler x ops r s = Ret (resp, s')"
  shows "data s' = data s"
proof (cases "query_request x r")
  case (Inl resp)
  with assms(3) show ?thesis by (simp add: queryHandler_def)
next
  case (Inr q)
  then have "\<not> qreq_StrongConsistency q"
    using assms(2) by (auto simp: query_request_def split: if_splits prod.splits option.splits sum.splits)
  moreover from assms(3) Inr obtain out s1 where run: "st_Query ops q s = Ret (out, s1)"
    by (auto simp: queryHandler_def)
  moreover have "s1 = s'" using assms(3) Inr run
    by (auto simp: queryHandler_def split: prod.splits option.splits if_splits)
  ultimately show ?thesis using weak_query_data [OF assms(1)] by blast
qed

lemma metricHandler_data:
  assumes "ok s" and "metricHandler x ops r s = Ret (resp, s')"
  shows "data s' = data s"
proof (cases "rq_Method r = ''GET''")
  case True
  with assms(2) obtain m s1 where run: "st_Metrics ops s = Ret (m, s1)" by (auto simp: metricHandler_def)
  moreover have "s1 = s'" using assms(2) True run by (auto simp: metricHandler_def split: sum.splits)
  ultimately show ?thesis using metrics_data [OF assms(1)] by blast
qed (use assms in \<open>simp add: metricHandler_def\<close>)

lemma not_leader_serves_data:
  assumes "\<not> leader s" and "ok s" and "ServeHTTP x sv ops r s = Ret (resp, s')"
  shows "data s' = data s"
proof -
  have q: "data s' = data s" if "queryHandler x ops r s = Ret (resp, s')"
  proof (cases "determineConsistency r")
    case True
    with that queryHandler_refused [OF assms(1) True] show ?thesis by (auto split: sum.splits)
  next
    case False
    with that assms(2) show ?thesis by (blast intro: queryHandler_weak)
  qed
  have e: "s' = s" if "execHandler x ops r s = Ret (resp, s')"
    using that execHandler_refused [OF assms(1)] by (auto split: sum.splits)
  show ?thesis
    using assms(3)
    by (auto simp: ServeHTTP_def split: if_splits intro: q metricHandler_data [OF assms(2)]
        dest: e join_handler_refused [OF assms(1)] leave_handler_refused [OF assms(1)])
qed

end

section \<open>Environment to evaluate on\<close>

definition sample_svc :: svcenv where
  "sample_svc =
     \<lparr>x_ParseFloat = (\<lambda>_. Some 0), x_FormatFloat = (\<lambda>_. None), x_order = id, x_GOARCH = ''amd64'',
      x_GOOS = ''linux'', x_version = ''go1.21'', x_GOMAXPROCS = 8, x_NumCPU = 8, x_NumGoroutine = 3,
      x_pprof = (\<lambda>_ _. WriteHeader None 200), x_Listen = (\<lambda>a. Inr a), x_LoadKeyPair = (\<lambda>_ _. None),
      x_ReadFile = (\<lambda>_. Inr []), x_AppendPEM = (\<lambda>_. True)\<rparr>"

definition sample_service :: Service where
  "sample_service = fst (NewService None ''h:1'' True)"

definition post :: "string \<Rightarrow> string \<Rightarrow> bytes \<Rightarrow> request" where
  "post path query body =
     \<lparr>rq_Method = ''POST'', rq_Path = path, rq_RawQuery = query,
      rq_MediaType = (None, ''application/json''), rq_Body = Inr body\<rparr>"

definition get :: "string \<Rightarrow> string \<Rightarrow> request" where
  "get path query =
     \<lparr>rq_Method = ''GET'', rq_Path = path, rq_RawQuery = query, rq_MediaType = (None, ''''), rq_Body = Inr []\<rparr>"

section \<open>Properties\<close>

text \<open>
  (C11) A node that is not the leader is read-only over HTTP: whatever request it receives, on any
  path and with any method and body, if a response is sent then the content of its
  database, raft's state (the membership included) and the applied index are what they
  were.
\<close>
theorem follower_is_read_only:
  assumes "\<not> IsLeader env c" and "readable_node env content c"
    and "ServeHTTP x sv (consensus_ops env) r c = Ret (resp, c')"
  shows "content (c_world c') = content (c_world c) \<and> c_raft c' = c_raft c \<and> c_lastIdx c' = c_lastIdx c"
  using css.not_leader_serves_data [OF assms] by simp

lemma sample_query_request:
  "query_request sample_svc (get ''/query'' ''q=DELETE+FROM+t&transaction'') =
     Inr \<lparr>qreq_Request = Some (sample_request True [''DELETE FROM t'']), qreq_StrongConsistency = False\<rparr>"
proof -
  let ?vs = "[(''q'', ''DELETE FROM t''), (''transaction'', '''')]"
  have q: "ParseQuery ''q=DELETE+FROM+t&transaction'' = (?vs, False)" by code_simp
  have t: "TrimSpace ''DELETE FROM t'' = ''DELETE FROM t''"
    by (rule TrimSpace_ascii) (simp_all add: ascii_def IsSpace_def)
  have t0: "TrimSpace '''' = ''''" by (simp add: TrimSpace_def)
  show ?thesis
    by (simp add: query_request_def checkBoolParam_def ParseForm_def getReqQueries_def get_def URL_Query_def
        values_Get_def determineConsistency_def ToLower_def q t t0 sample_request_def)
qed

theorem follower_is_read_only_witness:
  "let env = (sample_env [] [])\<lparr>e_drv := sample_reader\<rparr>; c = sample_follower [''I0''];
       r = get ''/query'' ''q=DELETE+FROM+t&transaction''
   in \<exists>resp c'. ServeHTTP sample_svc sample_service (consensus_ops env) r c = Ret (resp, c') \<and>
        sm_base (conns (c_world c')) = [''I0''] \<and> c_raft c' = c_raft c"
proof -
  let ?env = "(sample_env [] [])\<lparr>e_drv := sample_reader\<rparr>"
  let ?c = "sample_follower [''I0'']"
  let ?q = "\<lparr>qreq_Request = Some (sample_request True [''DELETE FROM t'']), qreq_StrongConsistency = False\<rparr>"
  let ?r = "get ''/query'' ''q=DELETE+FROM+t&transaction''"
  let ?x = "ServeHTTP sample_svc sample_service (consensus_ops ?env) ?r ?c"
  have nl: "\<not> IsLeader ?env ?c" by code_simp
  have rd: "readable_node ?env (\<lambda>w. sm_base (conns w)) ?c" by (simp add: readable_node_def sample_read_laws)
  have b: "sm_base (conns (c_world ?c)) = [''I0'']" by code_simp
  have "(case Query ?env ?q ?c of Ret ((_, e), _) \<Rightarrow> e = None | Panic _ \<Rightarrow> False)" by code_simp
  then obtain res c1 where "Query ?env ?q ?c = Ret ((res, None), c1)" by (auto split: go.splits)
  then obtain resp c' where x: "?x = Ret (resp, c')"
    using sample_query_request
    by (simp add: ServeHTTP_def HasPrefix_def get_def queryHandler_def consensus_ops_def)
  from follower_is_read_only [OF nl rd x] b x show ?thesis by (simp add: Let_def)
qed


text \<open>
  A write that reaches a follower is answered with the leader's place: a body that parses,
  posted to \<open>/execute\<close> on a node that is not the leader, is answered with 503 when no leader
  is known and otherwise with 301 to the same path and query on the leader's address, and
  the node is unchanged.
\<close>
theorem follower_redirects_writes:
  assumes "\<not> IsLeader env c" and "HasPrefix (rq_Path r) ''/execute''"
    and "rq_Body r = Inr b" and "parseStatements (x_ParseFloat x) (x_order x) b = Inr stmts"
  shows "ServeHTTP x sv (consensus_ops env) r c =
    Ret (if LeaderAddr env c = '''' then http_Error ''not raft leader'' 503
         else \<lparr>rs_Status = 301, rs_ContentType = Some json_type,
               rs_Location = Some (hexEscapeNonASCII (redirectAddr r (LeaderAddr env c))), rs_Body = ''''\<rparr>, c)"
proof -
  have "ServeHTTP x sv (consensus_ops env) r c = execHandler x (consensus_ops env) r c"
    using assms(2) by (rule route_execute)
  also have "\<dots> = Ret (not_leader (consensus_ops env) (Some json_type) r c, c)"
    using cs.execHandler_refused [OF assms(1)] assms(3,4) by simp
  finally show ?thesis by (simp add: not_leader_def consensus_ops_def http_Redirect_def Let_def)
qed

lemma parse_json_Nil: "parse_json '''' = None"
  by (simp add: parse_json_def skip_ws_def)

lemma parseStatements_Nil: "parseStatements pf ord [] = Inl ErrBadJson"
  using parse_json_Nil
  by (simp add: parseStatements_def Unmarshal_strings_def Unmarshal_rows_def string_of_bytes_def)

lemma redirected_write:
  assumes "rq_Method r = ''POST''"
    and "HasPrefix (rq_Path r) ''/execute'' \<or> HasPrefix (rq_Path r) ''/join'' \<or> HasPrefix (rq_Path r) ''/leave''"
  shows "ServeHTTP x sv ops (follow_redirect r) s =
    Ret (if HasPrefix (rq_Path r) ''/execute'' then http_Error (err_text ErrBadJson) 400 else WriteHeader None 405, s)"
proof -
  let ?r = "follow_redirect r"
  have r: "rq_Path ?r = rq_Path r" "rq_Method ?r = ''GET''" "rq_Body ?r = Inr []"
    using assms(1) by (simp_all add: follow_redirect_def)
  show ?thesis
  proof (cases "HasPrefix (rq_Path r) ''/execute''")
    case True
    with route_execute [of ?r x sv ops s] r show ?thesis
      by (simp add: execHandler_def parseStatements_Nil)
  next
    case False
    with assms(2) r show ?thesis
      by (auto simp: ServeHTTP_def join_handler_def leave_handler_def)
  qed
qed

text \<open>
  (C27) Following the redirect loses the write: a client that obeys the 301 as \<open>http.Client\<close> does
  repeats a POST as a GET without a body, and every store, the leader's too, then answers
  400 on \<open>/execute\<close> and 405 on \<open>/join\<close> and \<open>/leave\<close> and does nothing.
\<close>
theorem redirected_write_is_lost:
  assumes "rq_Method r = ''POST''"
    and "HasPrefix (rq_Path r) ''/execute'' \<or> HasPrefix (rq_Path r) ''/join'' \<or> HasPrefix (rq_Path r) ''/leave''"
  shows "ServeHTTP x sv ops (follow_redirect r) s =
    Ret (if HasPrefix (rq_Path r) ''/execute'' then http_Error (err_text ErrBadJson) 400 else WriteHeader None 405, s)"
  using assms by (rule redirected_write)


text \<open>What the client reads of a response whose results marshal to plain JSON.\<close>

lemma response_reads:
  assumes "dr_Error d = ''''" and "MarshalJSON x (dr_Results d) = Inr (print_json False j)"
    and "jplain j" and "jdepth j < max_depth"
  shows "\<exists>body. writeResponse x d =
      \<lparr>rs_Status = 200, rs_ContentType = Some json_type, rs_Location = None, rs_Body = body\<rparr> \<and>
    parse_json body = Some (JObj [(''results'', j)])"
proof -
  let ?r = "JObj [(''results'', j)]"
  have "jplain ?r" "jdepth ?r \<le> max_depth" using assms(3,4) by (simp_all add: ascii_def)
  then have p: "parse_json (print_json True ?r) = Some ?r" by (rule parse_json_print)
  have "print_string True ''results'' = ''\"results\"''" by code_simp
  then have "print_json True ?r = ''{\"results\":'' @ html_escape (print_json False j) @ ''}''"
    using html_escape_print [OF assms(3)] by simp
  with assms(1,2) p show ?thesis
    by (simp add: writeResponse_def marshal_response_def del: print_json.simps)
qed

text \<open>A successful execution as the client reads it.\<close>

lemma exec_response:
  assumes "\<forall>r \<in> set rs. utf8 (eres_Error r)"
  shows "\<exists>body j. writeResponse x \<lparr>dr_Results = \<lparr>db_ExecRes = Some rs, db_QueryRes = None\<rparr>, dr_Error = ''''\<rparr> =
        \<lparr>rs_Status = 200, rs_ContentType = Some json_type, rs_Location = None, rs_Body = body\<rparr> \<and>
      parse_json body = Some (JObj [(''results'', j)]) \<and> client_results j = rs"
proof -
  let ?j = "JArr (map (\<lambda>r. enc_Result (convertExecuteResult r)) rs)"
  let ?d = "\<lparr>dr_Results = \<lparr>db_ExecRes = Some rs, db_QueryRes = None\<rparr>, dr_Error = ''''\<rparr>"
  note j = exec_results_json [OF assms]
  have "MarshalJSON x (dr_Results ?d) = Inr (print_json False ?j)"
    using j(1) by (simp add: MarshalJSON_def ProtoToJSON_def del: print_json.simps)
  moreover have "jdepth ?j < max_depth" using j(3) by (simp add: max_depth_def)
  ultimately show ?thesis using j(2,4) response_reads [of ?d x ?j] by auto
qed

text \<open>
  (C7) A write over HTTP, end to end: when the leader receives SQL texts as a JSON array and raft
  commits the entry, the engine runs exactly those statements, in order and without a
  transaction, on the database left by the earlier entries; the client gets a 200 whose body
  is valid JSON and whose results are the engine's, and of the node only raft's state, the
  applied index and the world have moved.
\<close>
theorem http_exec_end_to_end:
  assumes "pb_laws (e_pb env)" and "IsLeader env c"
    and "HasPrefix (rq_Path r) ''/execute''" and "rq_Body r = Inr (print_texts sqls)"
    and "sqls \<noteq> []" and "\<forall>s \<in> set sqls. utf8 s"
    and req: "req = \<lparr>req_Transaction = False, req_Statements = map (\<lambda>s. \<lparr>stmt_Sql = s, stmt_Params = []\<rparr>) sqls\<rparr>"
    and "pb_Marshal_Request (e_pb env) req = Inr b"
    and "pb_Marshal_Action (e_pb env) \<lparr>act_Type = Action_ACTION_EXECUTE, act_Body = b\<rparr> = Inr d"
    and "rf_Apply (e_raft env) d (c_raft c) = (Inr (earlier, idx), r')"
    and "apply_entries env earlier (c\<lparr>c_raft := r'\<rparr>) = Ret c1"
    and run: "Engine_Exec (e_drv env) (c_db c) req (c_world c1) = ((Some rs, None), w')"
    and "\<forall>r \<in> set rs. utf8 (eres_Error r)"
  shows "\<exists>body j. ServeHTTP x sv (consensus_ops env) r c =
        Ret (\<lparr>rs_Status = 200, rs_ContentType = Some json_type, rs_Location = None, rs_Body = body\<rparr>,
             c\<lparr>c_raft := r', c_lastIdx := idx, c_world := w'\<rparr>) \<and>
      parse_json body = Some (JObj [(''results'', j)]) \<and> client_results j = rs"
proof -
  have "no_nil_params req" by (simp add: req no_nil_params_def)
  from Exec_committed [OF assms(1) this assms(2,8-11)] run
  have "st_Exec (consensus_ops env) req c = Ret ((Some rs, None), c\<lparr>c_raft := r', c_lastIdx := idx, c_world := w'\<rparr>)"
    by (simp add: consensus_ops_def)
  moreover have "parseStatements pf ord (print_texts sqls) = Inr (req_Statements req)" for pf ord
    using parse_texts [OF assms(6)] assms(5) by (simp add: parseStatements_def req)
  ultimately have "execHandler x (consensus_ops env) r c =
      Ret (writeResponse x \<lparr>dr_Results = \<lparr>db_ExecRes = Some rs, db_QueryRes = None\<rparr>, dr_Error = ''''\<rparr>,
           c\<lparr>c_raft := r', c_lastIdx := idx, c_world := w'\<rparr>)"
    using assms(4) by (simp add: execHandler_def req)
  with route_execute [OF assms(3), of x sv "consensus_ops env" c] exec_response [OF assms(13), of x] show ?thesis
    by auto
qed


lemma sample_exec_utf8:
  assumes "Engine_Exec sample_driver sample_engine (sample_request False [''I1'', ''I2'']) (sample_world [''I0'']) =
    ((Some rs, None), w')"
  shows "\<forall>r \<in> set rs. utf8 (eres_Error r)"
proof -
  have "case fst (Engine_Exec sample_driver sample_engine (sample_request False [''I1'', ''I2'']) (sample_world [''I0'']))
      of (res, _) \<Rightarrow> list_all (\<lambda>r. eres_Error r = '''') (case res of Some rs \<Rightarrow> rs | None \<Rightarrow> [])"
    by code_simp
  with assms show ?thesis by (simp add: list_all_iff ascii_def)
qed

theorem http_exec_end_to_end_witness:
  "let req = sample_request False [''I1'', ''I2''] in
   \<exists>resp c'. ServeHTTP sample_svc sample_service (consensus_ops (sample_env [req] []))
       (post ''/execute'' '''' (print_texts [''I1'', ''I2''])) (sample_node [''I0'']) = Ret (resp, c') \<and>
     rs_Status resp = 200 \<and> sp_base sample_spec (c_world c') = [''I0'', ''I1'', ''I2'']"
proof -
  let ?req = "sample_request False [''I1'', ''I2'']"
  let ?env = "sample_env [?req] []" and ?c = "sample_node [''I0'']"
  let ?r' = "(c_raft ?c)\<lparr>sr_next := 2\<rparr>"
  let ?x = "Engine_Exec (e_drv ?env) (c_db ?c) ?req (c_world (?c\<lparr>c_raft := ?r'\<rparr>))"
  let ?r = "post ''/execute'' '''' (print_texts [''I1'', ''I2''])"
  note laws = sample_commit(1) [OF sample_env_parts] and ld = sample_commit(2) [OF sample_env_parts]
    and m = sample_commit_exec [OF sample_env_parts(1)] and ap = sample_commit(3) [OF sample_env_parts]
  have r: "HasPrefix (rq_Path ?r) ''/execute''" "rq_Body ?r = Inr (print_texts [''I1'', ''I2''])"
    by (simp_all add: post_def HasPrefix_def)
  have asc: "\<forall>s \<in> set [''I1'', ''I2'']. utf8 s" by (simp add: ascii_def)
  have req: "?req = \<lparr>req_Transaction = False,
      req_Statements = map (\<lambda>s. \<lparr>stmt_Sql = s, stmt_Params = []\<rparr>) [''I1'', ''I2'']\<rparr>"
    by (simp add: sample_request_def)
  have v: "snd (fst ?x) = None" "fst (fst ?x) \<noteq> None" "sp_base sample_spec (snd ?x) = [''I0'', ''I1'', ''I2'']"
    by code_simp+
  then obtain rs w' where x: "?x = ((Some rs, None), w')" by (cases ?x) auto
  then have "\<forall>r \<in> set rs. utf8 (eres_Error r)"
    by (intro sample_exec_utf8) (simp add: sample_env_def sample_node_def)
  from http_exec_end_to_end [OF laws ld r _ asc req m ap apply_entries.simps(1) x this] v(3) x show ?thesis
    by (force simp: Let_def)
qed


theorem follower_redirects_writes_witness:
  "let env = sample_env [] []; env' = env\<lparr>e_raft := (e_raft env)\<lparr>rf_Leader := \<lambda>_. ''n0:9''\<rparr>\<rparr>;
       r = post ''/execute'' ''a=1'' (print_texts [''I1''])
   in ServeHTTP sample_svc sample_service (consensus_ops env') r (sample_follower []) =
        Ret (\<lparr>rs_Status = 301, rs_ContentType = Some json_type,
              rs_Location = Some ''http://n0:9/execute?a=1'', rs_Body = ''''\<rparr>, sample_follower [])"
proof -
  let ?env = "(sample_env [] [])\<lparr>e_raft := (e_raft (sample_env [] []))\<lparr>rf_Leader := \<lambda>_. ''n0:9''\<rparr>\<rparr>"
  let ?r = "post ''/execute'' ''a=1'' (print_texts [''I1''])"
  have nl: "\<not> IsLeader ?env (sample_follower [])" by code_simp
  have ad: "LeaderAddr ?env (sample_follower []) = ''n0:9''" by code_simp
  have r: "HasPrefix (rq_Path ?r) ''/execute''" "rq_Body ?r = Inr (print_texts [''I1''])"
    by (simp_all add: post_def HasPrefix_def)
  have p: "parseStatements pf ord (print_texts [''I1'']) = Inr [\<lparr>stmt_Sql = ''I1'', stmt_Params = []\<rparr>]" for pf ord
    using parse_texts [of "[''I1'']"] by (simp add: parseStatements_def ascii_def)
  have l: "hexEscapeNonASCII (redirectAddr ?r ''n0:9'') = ''http://n0:9/execute?a=1''"
    by (simp add: redirectAddr_def post_def hexEscapeNonASCII_def)
  show ?thesis using follower_redirects_writes [OF nl r p] ad l by (simp add: Let_def)
qed

theorem redirected_write_is_lost_witness:
  "let ops = consensus_ops (sample_env [] []); r = post ''/execute'' '''' (print_texts [''I1''])
   in ServeHTTP sample_svc sample_service ops (follow_redirect r) (sample_node [''I0'']) =
        Ret (http_Error (err_text ErrBadJson) 400, sample_node [''I0''])"
proof -
  let ?r = "post ''/execute'' '''' (print_texts [''I1''])"
  have "HasPrefix (rq_Path ?r) ''/execute''" "rq_Method ?r = ''POST''" by (simp_all add: post_def HasPrefix_def)
  then show ?thesis using redirected_write_is_lost [of ?r] by (simp add: Let_def)
qed

lemma convertParamsToSQL_json:
  "\<forall>p \<in> set ps. json_param p \<Longrightarrow>
   convertParamsToSQL (map Some ps) = Inr (map (\<lambda>p. \<lparr>arg_Name = param_Name p, arg_Value = the (param_Value p)\<rparr>) ps)"
  by (induction ps) (auto simp: json_param_def)




text \<open>What a client posts to join or leave: a JSON object of strings.\<close>

lemma Unmarshal_map_strings:
  assumes "\<forall>(k, v) \<in> set kvs. utf8 k \<and> utf8 v" and "distinct (map fst kvs)"
  shows "Unmarshal_map pf (bytes_of_string (print_json True (JObj (map (\<lambda>(k, v). (k, JStr v)) kvs)))) =
    Some (map (\<lambda>(k, v). (k, GoString v)) kvs)"
proof -
  let ?j = "JObj (map (\<lambda>(k, v). (k, JStr v)) kvs)"
  have "jplain ?j" using assms(1) by auto
  moreover have "jdepth ?j \<le> max_depth" by (auto simp: fold_max_le max_depth_def)
  ultimately have p: "parse_json (print_json True ?j) = Some ?j" by (rule parse_json_print)
  have put: "map_put k v m = m @ [(k, v)]" if "k \<notin> fst ` set m" for k v and m :: "(string \<times> goany) list"
    using that by (induction k v m rule: map_put.induct) auto
  have mk: "fold (\<lambda>(k, v). map_put k v) (xs :: (string \<times> goany) list) m = m @ xs"
    if "distinct (map fst xs)" "fst ` set xs \<inter> fst ` set m = {}" for xs m
    using that
  proof (induction xs arbitrary: m)
    case (Cons x xs)
    obtain k v where x: "x = (k, v)" by (cases x)
    with Cons.prems have "k \<notin> fst ` set m" by auto
    moreover have "fst ` set xs \<inter> fst ` set (m @ [(k, v)]) = {}" using Cons.prems x by auto
    ultimately show ?case using Cons x by (simp add: put)
  qed simp
  have "mk_map (map (\<lambda>(k, v). (k, to_any pf v)) (map (\<lambda>(k, v). (k, JStr v)) kvs)) = map (\<lambda>(k, v). (k, GoString v)) kvs"
    using mk [of "map (\<lambda>(k, v). (k, GoString v)) kvs" "[]"] assms(2)
    by (simp add: mk_map_def comp_def case_prod_unfold)
  with p show ?thesis by (auto simp: Unmarshal_map_def simp del: print_json.simps)
qed

text \<open>
  The bodies of \<open>/join\<close> requests are trusted to hold strings: when \<open>id\<close> and \<open>addr\<close> are both
  present but one of them is anything else than a string, a number or \<open>null\<close> say, the type
  assertion panics in the handler and no answer is written.
\<close>
theorem membership_body_must_be_strings:
  assumes "rq_Method r = ''POST''" and "HasPrefix (rq_Path r) ''/join''" and "rq_Body r = Inr b"
    and "Unmarshal_map (x_ParseFloat x) b = Some m" and "map_of m ''id'' = Some i" and "map_of m ''addr'' = Some a"
    and "i \<notin> range GoString \<or> a \<notin> range GoString"
  shows "ServeHTTP x sv ops r s = Panic ''interface conversion: interface {} is not string''"
  using assms by (cases i; cases a) (auto simp: ServeHTTP_def join_handler_def)

theorem membership_body_must_be_strings_witness:
  "ServeHTTP sample_svc sample_service (consensus_ops (sample_env [] []))
     (post ''/join'' '''' (bytes_of_string (print_json True (JObj [(''addr'', JNull), (''id'', JStr ''n1'')]))))
     (sample_node []) = Panic ''interface conversion: interface {} is not string''"
proof -
  let ?j = "JObj [(''addr'', JNull), (''id'', JStr ''n1'')]"
  let ?r = "post ''/join'' '''' (bytes_of_string (print_json True ?j))"
  have "jplain ?j" by (simp add: ascii_def)
  moreover have "jdepth ?j \<le> max_depth" by (simp add: max_depth_def)
  ultimately have "parse_json (print_json True ?j) = Some ?j" by (rule parse_json_print)
  then have u: "Unmarshal_map (x_ParseFloat sample_svc) (bytes_of_string (print_json True ?j)) =
      Some [(''addr'', GoNil), (''id'', GoString ''n1'')]"
    by (simp add: Unmarshal_map_def mk_map_def del: print_json.simps)
  have r: "rq_Method ?r = ''POST''" "HasPrefix (rq_Path ?r) ''/join''"
    "rq_Body ?r = Inr (bytes_of_string (print_json True ?j))"
    by (simp_all add: post_def HasPrefix_def)
  show ?thesis by (rule membership_body_must_be_strings [OF r u]) auto
qed

end
