(* ===== verification/Manager.thy ===== *)
theory Manager
  imports Membership
begin

text \<open>
  Package \<open>manager\<close> (\<^verbatim>\<open>manager/manager.go\<close>): service discovery. Serf's events about members
  that joined or left are turned into calls on a handler, which in the program is the
  consensus node; errors are logged and dropped.

  The interface \<open>Handler\<close> is the locale \<open>handler\<close>: the two operations with what a caller may
  rely on about the membership they keep. What the event loop does to the membership is
  proved in it, and the locale is interpreted on \<open>Join\<close> and \<open>Leave\<close> of the consensus node.
  Serf and the resolver are parameters.
\<close>

section \<open>The manager\<close>

record Member =
  mem_Name :: string
  mem_Tags :: "string \<rightharpoonup> string"

datatype Event = EventMemberJoin "Member list" | EventMemberLeave "Member list" | EventOther

record LogLine =
  ll_msg :: string
  ll_error :: goerr
  ll_name :: string
  ll_rcp_addr :: string

record ManagerConfig =
  mc_NodeName :: string
  mc_BindAddr :: string
  mc_Tags :: "string \<rightharpoonup> string"
  mc_StartJoinAddrs :: "string list option"

record 's Handler =
  h_Join :: "string \<Rightarrow> string \<Rightarrow> 's \<Rightarrow> goerr option \<times> 's"
  h_Leave :: "string \<Rightarrow> 's \<Rightarrow> goerr option \<times> 's"

text \<open>Reading a missing key of a \<open>map[string]string\<close> gives the empty string.\<close>

definition tag :: "Member \<Rightarrow> string \<Rightarrow> string" where
  "tag m k = (case mem_Tags m k of Some v \<Rightarrow> v | None \<Rightarrow> '''')"

definition logError :: "goerr \<Rightarrow> string \<Rightarrow> Member \<Rightarrow> LogLine" where
  "logError err msg member =
     \<lparr>ll_msg = msg, ll_error = err, ll_name = mem_Name member, ll_rcp_addr = tag member ''rcp_addr''\<rparr>"

definition handleJoin :: "'s Handler \<Rightarrow> Member \<Rightarrow> 's \<times> LogLine list \<Rightarrow> 's \<times> LogLine list" where
  "handleJoin h member st =
     (case st of (s, lg) \<Rightarrow>
       (case h_Join h (mem_Name member) (tag member ''rpc_addr'') s of
         (Some err, s') \<Rightarrow> (s', lg @ [logError err ''failed to join'' member])
       | (None, s') \<Rightarrow> (s', lg)))"

definition handleLeave :: "'s Handler \<Rightarrow> Member \<Rightarrow> 's \<times> LogLine list \<Rightarrow> 's \<times> LogLine list" where
  "handleLeave h member st =
     (case st of (s, lg) \<Rightarrow>
       (case h_Leave h (mem_Name member) s of
         (Some err, s') \<Rightarrow> (s', lg @ [logError err ''failed to leave'' member])
       | (None, s') \<Rightarrow> (s', lg)))"

definition isLocal :: "string \<Rightarrow> Member \<Rightarrow> bool" where
  "isLocal localName member \<longleftrightarrow> localName = mem_Name member"

fun handleEvent :: "'s Handler \<Rightarrow> string \<Rightarrow> Event \<Rightarrow> 's \<times> LogLine list \<Rightarrow> 's \<times> LogLine list" where
  "handleEvent h localName (EventMemberJoin ms) st =
     fold (\<lambda>member st. if isLocal localName member then st else handleJoin h member st) ms st"
| "handleEvent h localName (EventMemberLeave ms) st =
     fold (\<lambda>member st. if isLocal localName member then st else handleLeave h member st) ms st"
| "handleEvent h localName EventOther st = st"

definition eventHandler ::
  "'s Handler \<Rightarrow> string \<Rightarrow> Event list \<Rightarrow> 's \<times> LogLine list \<Rightarrow> 's \<times> LogLine list" where
  "eventHandler h localName events st = fold (handleEvent h localName) events st"

section \<open>Setting it up\<close>

record serfConfig =
  sc_BindAddr :: string
  sc_BindPort :: int
  sc_Tags :: "string \<rightharpoonup> string"
  sc_NodeName :: string

record serf =
  sf_ResolveTCPAddr :: "string \<Rightarrow> goerr + (string \<times> int)"
  sf_Create :: "serfConfig \<Rightarrow> goerr option"
  sf_Join :: "string list \<Rightarrow> goerr option"
  sf_Members :: "Member list"
  sf_Leave :: "goerr option"

definition setupSerf :: "serf \<Rightarrow> ManagerConfig \<Rightarrow> goerr option" where
  "setupSerf sf conf =
     (case sf_ResolveTCPAddr sf (mc_BindAddr conf) of
        Inl err \<Rightarrow> Some err
      | Inr (ip, port) \<Rightarrow>
     (case sf_Create sf \<lparr>sc_BindAddr = ip, sc_BindPort = port, sc_Tags = mc_Tags conf,
                          sc_NodeName = mc_NodeName conf\<rparr> of
        Some err \<Rightarrow> Some err
      | None \<Rightarrow>
     (case mc_StartJoinAddrs conf of
        None \<Rightarrow> None
      | Some addrs \<Rightarrow> sf_Join sf addrs)))"

record 's Manager =
  mg_Config :: ManagerConfig
  mg_handler :: "'s Handler"

definition Manager_Members :: "serf \<Rightarrow> Member list" where
  "Manager_Members sf = sf_Members sf"

definition Manager_Leave :: "serf \<Rightarrow> goerr option" where
  "Manager_Leave sf = sf_Leave sf"

definition Manager_New :: "serf \<Rightarrow> 's Handler \<Rightarrow> ManagerConfig \<Rightarrow> goerr + 's Manager" where
  "Manager_New sf handler config =
     (case setupSerf sf config of
        Some err \<Rightarrow> Inl err
      | None \<Rightarrow> Inr \<lparr>mg_Config = config, mg_handler = handler\<rparr>)"

section \<open>The contract of a handler\<close>

locale handler =
  fixes h :: "'s Handler"
    and entries :: "'s \<Rightarrow> (string \<times> string) set"
    and ok :: "'s \<Rightarrow> bool"
  assumes join_ok: "ok s \<Longrightarrow> h_Join h i a s = (e, s') \<Longrightarrow> ok s'"
    and leave_ok: "ok s \<Longrightarrow> h_Leave h i s = (e, s') \<Longrightarrow> ok s'"
    and join_others: "ok s \<Longrightarrow> h_Join h i a s = (e, s') \<Longrightarrow> j \<noteq> i \<Longrightarrow> (j, b) \<in> entries s' \<longleftrightarrow> (j, b) \<in> entries s"
    and leave_others: "ok s \<Longrightarrow> h_Leave h i s = (e, s') \<Longrightarrow> j \<noteq> i \<Longrightarrow> (j, b) \<in> entries s' \<longleftrightarrow> (j, b) \<in> entries s"
    and join_done: "ok s \<Longrightarrow> h_Join h i a s = (None, s') \<Longrightarrow> (i, a) \<in> entries s'"
    and leave_done: "ok s \<Longrightarrow> h_Leave h i s = (None, s') \<Longrightarrow> (i, b) \<notin> entries s'"
begin

lemma handleJoin_law:
  assumes "ok s" and "handleJoin h m (s, lg) = (s', lg')"
  shows "ok s' \<and> (j \<noteq> mem_Name m \<longrightarrow> ((j, b) \<in> entries s' \<longleftrightarrow> (j, b) \<in> entries s)) \<and>
    (lg' = lg \<longrightarrow> (mem_Name m, tag m ''rpc_addr'') \<in> entries s')"
  using assms join_ok join_others join_done
  by (fastforce simp: handleJoin_def split: prod.splits option.splits)

lemma handleLeave_law:
  assumes "ok s" and "handleLeave h m (s, lg) = (s', lg')"
  shows "ok s' \<and> (j \<noteq> mem_Name m \<longrightarrow> ((j, b) \<in> entries s' \<longleftrightarrow> (j, b) \<in> entries s)) \<and>
    (lg' = lg \<longrightarrow> (mem_Name m, b) \<notin> entries s')"
  using assms leave_ok leave_others leave_done
  by (fastforce simp: handleLeave_def split: prod.splits option.splits)

lemma fold_members_keeps:
  assumes step: "\<And>m s lg s' lg'. ok s \<Longrightarrow> f m (s, lg) = (s', lg') \<Longrightarrow> localName \<noteq> mem_Name m \<Longrightarrow>
    ok s' \<and> ((localName, b) \<in> entries s' \<longleftrightarrow> (localName, b) \<in> entries s)"
  shows "ok s \<Longrightarrow> fold (\<lambda>m st. if isLocal localName m then st else f m st) ms (s, lg) = (s', lg') \<Longrightarrow>
    ok s' \<and> ((localName, b) \<in> entries s' \<longleftrightarrow> (localName, b) \<in> entries s)"
proof (induction ms arbitrary: s lg)
  case (Cons m ms)
  obtain s1 lg1 where st: "f m (s, lg) = (s1, lg1)" by fastforce
  show ?case
  proof (cases "isLocal localName m")
    case False
    with Cons.prems(2) st have "fold (\<lambda>m st. if isLocal localName m then st else f m st) ms (s1, lg1) = (s', lg')"
      by simp
    with Cons.IH [OF _ this] step [OF Cons.prems(1) st] False show ?thesis by (simp add: isLocal_def)
  qed (use Cons in simp)
qed simp

lemma handleEvent_keeps:
  assumes "ok s" and "handleEvent h localName e (s, lg) = (s', lg')"
  shows "ok s' \<and> ((localName, b) \<in> entries s' \<longleftrightarrow> (localName, b) \<in> entries s)"
proof (cases e)
  case (EventMemberJoin ms)
  with assms fold_members_keeps [of "handleJoin h" localName b s ms lg s' lg'] handleJoin_law show ?thesis
    by auto
next
  case (EventMemberLeave ms)
  with assms fold_members_keeps [of "handleLeave h" localName b s ms lg s' lg'] handleLeave_law show ?thesis
    by auto
qed (use assms in simp)

lemma eventHandler_keeps:
  "ok s \<Longrightarrow> eventHandler h localName events (s, lg) = (s', lg') \<Longrightarrow>
     ok s' \<and> ((localName, b) \<in> entries s' \<longleftrightarrow> (localName, b) \<in> entries s)"
proof (induction events arbitrary: s lg)
  case (Cons e events)
  obtain s1 lg1 where st: "handleEvent h localName e (s, lg) = (s1, lg1)" by fastforce
  with Cons.prems(2) have "eventHandler h localName events (s1, lg1) = (s', lg')" by (simp add: eventHandler_def)
  with Cons.IH [OF _ this] handleEvent_keeps [OF Cons.prems(1) st] show ?case by auto
qed (simp add: eventHandler_def)

lemma single_join:
  assumes "ok s" and "mem_Name m \<noteq> localName"
    and "eventHandler h localName [EventMemberJoin [m]] (s, lg) = (s', lg')" and "lg' = lg"
  shows "(mem_Name m, tag m ''rpc_addr'') \<in> entries s'"
  using assms handleJoin_law [OF assms(1), of m lg s' lg'] by (simp add: eventHandler_def isLocal_def)

end


section \<open>The consensus node as a handler\<close>

definition node_handler :: "('c, 'r) env \<Rightarrow> ('c, 'r) Consensus Handler" where
  "node_handler env = \<lparr>h_Join = Join env, h_Leave = Leave env\<rparr>"

definition node_entries :: "('r \<Rightarrow> raftServer list) \<Rightarrow> ('c, 'r) Consensus \<Rightarrow> (string \<times> string) set" where
  "node_entries cfg c = (\<lambda>s. (rs_ID s, rs_Address s)) ` set (cfg (c_raft c))"

definition node_config_ok ::
  "('c, 'r) env \<Rightarrow> ('r \<Rightarrow> raftServer list) \<Rightarrow> ('c, 'r) Consensus \<Rightarrow> bool" where
  "node_config_ok env cfg c \<longleftrightarrow> raft_config_laws (e_raft env) cfg \<and> config_ok (cfg (c_raft c))"

lemma node_entries_others:
  fixes c c' :: "('c, 'r) Consensus"
  assumes "others i (cfg (c_raft c')) = others i (cfg (c_raft c))" and "j \<noteq> i"
  shows "(j, b) \<in> node_entries cfg c' \<longleftrightarrow> (j, b) \<in> node_entries cfg c"
proof -
  have "(j, b) \<in> node_entries cfg x \<longleftrightarrow> (\<exists>s \<in> others i (cfg (c_raft x)). rs_ID s = j \<and> rs_Address s = b)" for x :: "('c, 'r) Consensus"
    using assms(2) by (auto simp: node_entries_def others_def)
  with assms(1) show ?thesis by simp
qed

lemma Join_config:
  assumes "node_config_ok env cfg c" and "Join env i a c = (e, c')"
  shows "node_config_ok env cfg c' \<and> others i (cfg (c_raft c')) = others i (cfg (c_raft c))"
  using assms join_raft_config [of "e_raft env" cfg "c_raft c"]
  by (auto simp: Join_def node_config_ok_def split: if_splits prod.splits)

lemma Leave_config:
  assumes "node_config_ok env cfg c" and "Leave env i c = (e, c')"
  shows "node_config_ok env cfg c' \<and> others i (cfg (c_raft c')) = others i (cfg (c_raft c))"
  using assms config_laws(2,3) [of "e_raft env" cfg] config_ok_filter
  by (fastforce simp: Leave_def node_config_ok_def others_def split: if_splits prod.splits option.splits)

interpretation nh: handler "node_handler env" "node_entries cfg" "node_config_ok env cfg"
  for env :: "('c, 'r) env" and cfg
proof unfold_locales
  fix c c' :: "('c, 'r) Consensus" and i a e j b
  assume ok: "node_config_ok env cfg c"
  { assume "h_Join (node_handler env) i a c = (e, c')"
    then have jn: "Join env i a c = (e, c')" by (simp add: node_handler_def)
    note Join_config [OF ok jn]
    then show "node_config_ok env cfg c'" by simp
    show "j \<noteq> i \<Longrightarrow> (j, b) \<in> node_entries cfg c' \<longleftrightarrow> (j, b) \<in> node_entries cfg c"
      using node_entries_others Join_config [OF ok jn] by blast }
  { assume "h_Leave (node_handler env) i c = (e, c')"
    then have lv: "Leave env i c = (e, c')" by (simp add: node_handler_def)
    then show "node_config_ok env cfg c'" using Leave_config [OF ok lv] by simp
    show "j \<noteq> i \<Longrightarrow> (j, b) \<in> node_entries cfg c' \<longleftrightarrow> (j, b) \<in> node_entries cfg c"
      using node_entries_others Leave_config [OF ok lv] by blast }
  { assume "h_Join (node_handler env) i a c = (None, c')"
    then have "join_raft (e_raft env) i a (c_raft c) = (None, c_raft c')"
      by (auto simp: node_handler_def Join_def split: if_splits prod.splits)
    with join_raft_success ok have "\<lparr>rs_ID = i, rs_Address = a\<rparr> \<in> set (cfg (c_raft c'))"
      by (fastforce simp: node_config_ok_def)
    then show "(i, a) \<in> node_entries cfg c'" by (force simp: node_entries_def) }
  { assume "h_Leave (node_handler env) i c = (None, c')"
    then have "rf_RemoveServer (e_raft env) i (c_raft c) = (None, c_raft c')"
      by (auto simp: node_handler_def Leave_def split: if_splits prod.splits option.splits)
    with ok config_laws(2) have "cfg (c_raft c') = filter (\<lambda>s. rs_ID s \<noteq> i) (cfg (c_raft c))"
      by (fastforce simp: node_config_ok_def)
    then show "(i, b) \<notin> node_entries cfg c'" by (auto simp: node_entries_def) }
qed

section \<open>Properties\<close>

text \<open>
  (C24) Gossip never touches the local node's own membership: whatever join and leave events serf
  delivers, in whatever order, also about the local node itself, the consensus node's own
  entry in raft's configuration stays as it was, and the configuration stays free of
  duplicate ids and addresses.
\<close>
theorem event_loop_keeps_local_member:
  assumes "node_config_ok env cfg c"
    and "eventHandler (node_handler env) localName events (c, lg) = (c', lg')"
  shows "node_config_ok env cfg c' \<and>
    ((localName, a) \<in> node_entries cfg c' \<longleftrightarrow> (localName, a) \<in> node_entries cfg c)"
  using nh.eventHandler_keeps [OF assms] by blast

theorem event_loop_keeps_local_member_witness:
  "let m = (\<lambda>n. \<lparr>mem_Name = n, mem_Tags = [''rpc_addr'' \<mapsto> ''x:1'']\<rparr>);
       r = eventHandler (node_handler (sample_env [] [])) ''n0''
             [EventMemberLeave [m ''n0'', m ''n1''], EventMemberJoin [m ''n3'']] (sample_cluster, [])
   in (''n0'', ''h0:1'') \<in> node_entries sr_servers (fst r)"
proof -
  let ?m = "\<lambda>n. \<lparr>mem_Name = n, mem_Tags = [''rpc_addr'' \<mapsto> ''x:1'']\<rparr>"
  let ?r = "eventHandler (node_handler (sample_env [] [])) ''n0''
             [EventMemberLeave [?m ''n0'', ?m ''n1''], EventMemberJoin [?m ''n3'']] (sample_cluster, [])"
  have "config_ok (sr_servers (c_raft sample_cluster))" by code_simp
  then have ok: "node_config_ok (sample_env [] []) sr_servers sample_cluster"
    by (simp add: node_config_ok_def sample_env_def sample_raft_laws)
  have "(''n0'', ''h0:1'') \<in> node_entries sr_servers sample_cluster"
    by (auto simp: node_entries_def sample_cluster_def)
  with event_loop_keeps_local_member [OF ok, of "''n0''" _ "[]" "fst ?r" "snd ?r"] show ?thesis
    by (simp add: Let_def)
qed

text \<open>
  A member that serf reports as joined is either in raft's configuration afterwards, under its
  name and with the value of its tag \<open>rpc_addr\<close> as its address, or the failure has been
  logged; a member without that tag is added with the empty address.
\<close>
theorem join_event_adds_or_logs:
  assumes "node_config_ok env cfg c" and "mem_Name m \<noteq> localName"
    and "eventHandler (node_handler env) localName [EventMemberJoin [m]] (c, lg) = (c', lg')"
  shows "(mem_Name m, case mem_Tags m ''rpc_addr'' of Some a \<Rightarrow> a | None \<Rightarrow> '''') \<in> node_entries cfg c' \<or>
    (\<exists>err. lg' = lg @ [logError err ''failed to join'' m])"
proof (cases "lg' = lg")
  case True
  with nh.single_join [OF assms] show ?thesis by (simp add: tag_def)
next
  case False
  with assms(2,3) show ?thesis
    by (auto simp: eventHandler_def isLocal_def handleJoin_def split: prod.splits option.splits)
qed

theorem join_event_adds_or_logs_witness:
  "let r = eventHandler (node_handler (sample_env [] [])) ''n0''
             [EventMemberJoin [\<lparr>mem_Name = ''n3'', mem_Tags = [''addr'' \<mapsto> ''http://h3:1'']\<rparr>]] (sample_cluster, [])
   in (''n3'', '''') \<in> node_entries sr_servers (fst r) \<or> snd r \<noteq> []"
proof -
  let ?m = "\<lparr>mem_Name = ''n3'', mem_Tags = [''addr'' \<mapsto> ''http://h3:1'']\<rparr>"
  have "config_ok (sr_servers (c_raft sample_cluster))" by code_simp
  then have ok: "node_config_ok (sample_env [] []) sr_servers sample_cluster"
    by (simp add: node_config_ok_def sample_env_def sample_raft_laws)
  let ?r = "eventHandler (node_handler (sample_env [] [])) ''n0'' [EventMemberJoin [?m]] (sample_cluster, [])"
  have "mem_Name ?m \<noteq> ''n0''" by simp
  from join_event_adds_or_logs [OF ok this, of "[]" "fst ?r" "snd ?r"] show ?thesis
    by (auto simp: Let_def)
qed

end
