(* ===== verification/Transport.thy ===== *)
theory Transport
  imports Prelude
begin

text \<open>
  The raft transport (\<^verbatim>\<open>consensus/transport.go\<close>): connections between raft nodes start with
  an identifying byte, which \<open>Dial\<close> writes and \<open>Accept\<close> reads and checks.

  A \<open>net.Conn\<close> is the bytes that are still to be read from it, the bytes written to it and
  the errors its next read and write would meet; a TLS wrapper is recorded on top of it,
  after the identifying byte, as in the code. Dialling and the listener are parameters.
\<close>

section \<open>Connections\<close>

datatype tlsrole = TLSClient string | TLSServer string

record conn =
  cn_in :: bytes
  cn_out :: bytes
  cn_readfail :: "goerr option"
  cn_writefail :: "goerr option"
  cn_tls :: "tlsrole option"

definition conn_Write :: "bytes \<Rightarrow> conn \<Rightarrow> goerr option \<times> conn" where
  "conn_Write b c =
     (case cn_writefail c of
        Some e \<Rightarrow> (Some e, c)
      | None \<Rightarrow> (None, c\<lparr>cn_out := cn_out c @ b\<rparr>))"

text \<open>A read into a buffer of one byte.\<close>

definition conn_Read1 :: "conn \<Rightarrow> (goerr + byte) \<times> conn" where
  "conn_Read1 c =
     (case cn_readfail c of
        Some e \<Rightarrow> (Inl e, c)
      | None \<Rightarrow>
          (case cn_in c of
            [] \<Rightarrow> (Inl (ErrMsg ''EOF''), c)
          | b # bs \<Rightarrow> (Inr b, c\<lparr>cn_in := bs\<rparr>)))"

section \<open>The transport\<close>

text \<open>A listener is its address; a TLS configuration is its name, and a nil one is \<open>None\<close>.\<close>

record Transport =
  tn_ln :: string
  tn_servertls :: "string option"
  tn_peertls :: "string option"

definition NewTransport :: "string \<Rightarrow> Transport" where
  "NewTransport ln = \<lparr>tn_ln = ln, tn_servertls = None, tn_peertls = None\<rparr>"

definition NewTLSTransport :: "string \<Rightarrow> string option \<Rightarrow> string option \<Rightarrow> Transport" where
  "NewTLSTransport ln servertls peertls = \<lparr>tn_ln = ln, tn_servertls = servertls, tn_peertls = peertls\<rparr>"

definition Dial :: "Transport \<Rightarrow> (string \<Rightarrow> goerr + conn) \<Rightarrow> string \<Rightarrow> goerr + conn" where
  "Dial tn dialer addr =
     (case dialer addr of
        Inl err \<Rightarrow> Inl err
      | Inr c \<Rightarrow>
          (case conn_Write [1] c of
            (Some err, _) \<Rightarrow> Inl err
          | (None, c1) \<Rightarrow>
              (case tn_peertls tn of
                Some cfg \<Rightarrow> Inr (c1\<lparr>cn_tls := Some (TLSClient cfg)\<rparr>)
              | None \<Rightarrow> Inr c1)))"

definition Accept :: "Transport \<Rightarrow> goerr + conn \<Rightarrow> goerr + conn" where
  "Accept tn accepted =
     (case accepted of
        Inl err \<Rightarrow> Inl err
      | Inr c \<Rightarrow>
          (case conn_Read1 c of
            (Inl err, _) \<Rightarrow> Inl err
          | (Inr b, c1) \<Rightarrow>
              if b \<noteq> 1 then Inl (ErrMsg ''not raft rpc connection'')
              else (case tn_servertls tn of
                Some cfg \<Rightarrow> Inr (c1\<lparr>cn_tls := Some (TLSServer cfg)\<rparr>)
              | None \<Rightarrow> Inr c1)))"

definition Transport_Close :: "(string \<Rightarrow> goerr option) \<Rightarrow> Transport \<Rightarrow> goerr option" where
  "Transport_Close ln_Close tn = ln_Close (tn_ln tn)"

definition Transport_Addr :: "Transport \<Rightarrow> string" where
  "Transport_Addr tn = tn_ln tn"

section \<open>Properties\<close>

text \<open>The peer's end of a dialled connection: what was written is there to be read.\<close>

definition peer_end :: "conn \<Rightarrow> bytes \<Rightarrow> conn" where
  "peer_end c later =
     \<lparr>cn_in = cn_out c @ later, cn_out = [], cn_readfail = None, cn_writefail = None, cn_tls = None\<rparr>"

definition fresh_conn :: conn where
  "fresh_conn = \<lparr>cn_in = [], cn_out = [], cn_readfail = None, cn_writefail = None, cn_tls = None\<rparr>"

text \<open>
  The transport's handshake: a connection made by \<open>Dial\<close> is accepted by \<open>Accept\<close> at the other
  end, which then reads exactly what the peer sends after the handshake, with TLS at an end
  exactly when it is configured there; and a connection that starts with any other
  byte is refused.
\<close>
theorem transport_handshake:
  assumes "dialer addr = Inr c0" and "cn_out c0 = []" and "cn_tls c0 = None"
    and "Dial tn dialer addr = Inr c"
  shows "cn_tls c = map_option TLSClient (tn_peertls tn) \<and>
    (\<exists>c'. Accept tn2 (Inr (peer_end c later)) = Inr c' \<and> cn_in c' = later \<and>
       cn_tls c' = map_option TLSServer (tn_servertls tn2)) \<and>
    (\<forall>b rest. b \<noteq> 1 \<longrightarrow> isl (Accept tn2 (Inr (fresh_conn\<lparr>cn_in := b # rest\<rparr>))))"
  using assms
  by (auto simp: Dial_def Accept_def conn_Write_def conn_Read1_def peer_end_def fresh_conn_def
      split: option.splits)

theorem transport_handshake_witness:
  "\<exists>c c'. Dial (NewTLSTransport ''h0:1'' None (Some ''peer'')) (\<lambda>_. Inr fresh_conn) ''h1:9000'' = Inr c \<and>
     Accept (NewTransport ''h1:9000'') (Inr (peer_end c [7, 8])) = Inr c' \<and> cn_in c' = [7, 8]"
proof -
  let ?d = "Dial (NewTLSTransport ''h0:1'' None (Some ''peer'')) (\<lambda>_. Inr fresh_conn) ''h1:9000''"
  have "?d = Inr (projr ?d)" by code_simp
  from transport_handshake [OF _ _ _ this, of fresh_conn "NewTransport ''h1:9000''" "[7, 8]"] this show ?thesis
    by (auto simp: fresh_conn_def)
qed

end
