(* ===== verification/Coordinator.thy ===== *)
theory Coordinator
  imports Service Manager Transport
begin

text \<open>
  Package \<open>coordinator\<close> (\<^verbatim>\<open>coordinator/coordinator.go\<close>): a node of the system is a raft store and
  an HTTP service behind one port, told apart by the first byte of a connection.

  Parameters: the environment of the consensus node, the network (\<open>net.Listen\<close>, the HTTP
  client, the connection multiplexer's \<open>Serve\<close>), the logger's error, the rounds of
  \<open>WaitForLeader\<close>, and serf. The multiplexer (\<^verbatim>\<open>cmux\<close>) is what the code hands it: its root
  listener and the matchers in the order of the calls of \<open>Match\<close>.

  Shown here: which connections reach raft and which reach HTTP; that the addresses are well
  formed exactly when the host is not an IPv6 address; and, as an invariant of all reachable
  states, that \<open>Close\<close> never panics and is idempotent. How a node joins a cluster spans
  several components and is in the root theory.
\<close>

section \<open>Addresses\<close>

text \<open>\<open>net.SplitHostPort\<close>\<close>

definition addrErr :: "string \<Rightarrow> string \<Rightarrow> goerr" where
  "addrErr addr why = ErrMsg (if addr = '''' then why else ''address '' @ addr @ '': '' @ why)"

definition quoted :: "char \<Rightarrow> string" where
  "quoted c = [CHR 0x27, c, CHR 0x27]"

text \<open>The text before the last colon and the text after it.\<close>

definition last_colon :: "string \<Rightarrow> (string \<times> string) option" where
  "last_colon s =
     (if CHR '':'' \<in> set s then
        Some (rev (drop 1 (dropWhile ((\<noteq>) CHR '':'') (rev s))), rev (takeWhile ((\<noteq>) CHR '':'') (rev s)))
      else None)"

definition split_brackets :: "string \<Rightarrow> string \<Rightarrow> goerr + string" where
  "split_brackets hostport before =
     (if CHR '']'' \<notin> set hostport then Inl (addrErr hostport (''missing '' @ quoted CHR '']'' @ '' in address''))
      else (let host = takeWhile ((\<noteq>) CHR '']'') (drop 1 hostport); after = drop 1 (dropWhile ((\<noteq>) CHR '']'') hostport) in
        if after = '''' then Inl (addrErr hostport ''missing port in address'')
        else if before = CHR ''['' # host @ [CHR '']''] then Inr host
        else if hd after = CHR '':'' then Inl (addrErr hostport ''too many colons in address'')
        else Inl (addrErr hostport ''missing port in address'')))"

definition SplitHostPort :: "string \<Rightarrow> goerr + string \<times> string" where
  "SplitHostPort hostport =
     (case last_colon hostport of
        None \<Rightarrow> Inl (addrErr hostport ''missing port in address'')
      | Some (before, port) \<Rightarrow>
          if hd hostport = CHR ''['' then
            (case split_brackets hostport before of
              Inl err \<Rightarrow> Inl err
            | Inr host \<Rightarrow>
                if CHR ''['' \<in> set (drop 1 hostport) then Inl (addrErr hostport (''unexpected '' @ quoted CHR ''['' @ '' in address''))
                else if CHR '']'' \<in> set port then Inl (addrErr hostport (''unexpected '' @ quoted CHR '']'' @ '' in address''))
                else Inr (host, port))
          else if CHR '':'' \<in> set before then Inl (addrErr hostport ''too many colons in address'')
          else if CHR ''['' \<in> set hostport then Inl (addrErr hostport (''unexpected '' @ quoted CHR ''['' @ '' in address''))
          else if CHR '']'' \<in> set hostport then Inl (addrErr hostport (''unexpected '' @ quoted CHR '']'' @ '' in address''))
          else Inr (before, port))"


record CoordConfig =
  cc_DataDir :: string
  cc_BindAddr :: string
  cc_CommunicationPort :: int64
  cc_StartJoinAddrs :: "string list option"
  cc_Bootstrap :: bool
  cc_NodeName :: string
  cc_LeaderStartAddr :: string
  cc_ServerTLS :: "string option"
  cc_PeerTLS :: "string option"

definition host_port :: "string \<Rightarrow> int64 \<Rightarrow> string" where
  "host_port host port = host @ '':'' @ show_int (sint port)"

definition HTTPAddr :: "CoordConfig \<Rightarrow> goerr + string" where
  "HTTPAddr c =
     (case SplitHostPort (cc_BindAddr c) of
        Inl err \<Rightarrow> Inl err
      | Inr (host, _) \<Rightarrow> Inr (''http://'' @ host_port host (cc_CommunicationPort c)))"

definition RaftAddr :: "CoordConfig \<Rightarrow> goerr + string" where
  "RaftAddr c =
     (case SplitHostPort (cc_BindAddr c) of
        Inl err \<Rightarrow> Inl err
      | Inr (host, _) \<Rightarrow> Inr (host_port host (cc_CommunicationPort c)))"

section \<open>The coordinator\<close>

text \<open>A matcher reads the beginning of a connection; what it read is still there afterwards.\<close>

type_synonym matcher = "conn \<Rightarrow> bool"

record mux =
  mx_addr :: string
  mx_matchers :: "matcher list"

text \<open>
  The HTTP service and the transport are not fields of the struct: the code hands them to
  their goroutines and to raft. They are kept here so that it can be said what runs.
\<close>

record ('c, 'r) Coordinator =
  co_Config :: CoordConfig
  co_mux :: "mux option"
  co_manager :: "('c, 'r) Consensus Manager option"
  co_raft :: "('c, 'r) Consensus option"
  co_shutdown :: bool
  co_shutdowns :: chan
  co_http :: "Service option"
  co_transport :: "Transport option"

record ('c, 'r) coordenv =
  k_env :: "('c, 'r) env"
  k_world :: "'c world"
  k_Listen :: "string \<Rightarrow> goerr + string"
  k_zap :: "goerr option"
  k_wake :: "('c, 'r) Consensus \<Rightarrow> ('c, 'r) Consensus wake list"
  k_NewRequest :: "string \<Rightarrow> goerr option"
  k_Do :: "string \<Rightarrow> bytes \<Rightarrow> goerr + nat"
  k_serf :: serf
  k_Serve :: "mux \<Rightarrow> goerr option"

definition setupMux ::
  "('c, 'r) coordenv \<Rightarrow> ('c, 'r) Coordinator \<Rightarrow> goerr option \<times> ('c, 'r) Coordinator" where
  "setupMux k c =
     (case SplitHostPort (cc_BindAddr (co_Config c)) of
        Inl err \<Rightarrow> (Some err, c)
      | Inr (host, _) \<Rightarrow>
          (let addr = host_port host (cc_CommunicationPort (co_Config c)) in
           case k_Listen k addr of
             Inl err \<Rightarrow> (Some err, c)
           | Inr l \<Rightarrow> (None, c\<lparr>co_mux := Some \<lparr>mx_addr = l, mx_matchers = []\<rparr>\<rparr>)))"

text \<open>\<open>c.mux.Match\<close>, which returns a listener with the address of the root listener; a nil mux panics.\<close>

definition mux_Match ::
  "matcher \<Rightarrow> ('c, 'r) Coordinator \<Rightarrow> (string \<times> ('c, 'r) Coordinator) go" where
  "mux_Match f c =
     (case co_mux c of
        None \<Rightarrow> Panic ''invalid memory address or nil pointer dereference''
      | Some m \<Rightarrow> Ret (mx_addr m, c\<lparr>co_mux := Some (m\<lparr>mx_matchers := mx_matchers m @ [f]\<rparr>)\<rparr>))"

definition raft_matcher :: matcher where
  "raft_matcher reader = (case conn_Read1 reader of (Inl _, _) \<Rightarrow> False | (Inr b, _) \<Rightarrow> b = 1)"

definition cmux_Any :: matcher where
  "cmux_Any = (\<lambda>_. True)"

text \<open>The configuration handed to raft: only the id and the bootstrap flag are set.\<close>

definition raft_conf :: "CoordConfig \<Rightarrow> string \<Rightarrow> Config" where
  "raft_conf conf addr =
     \<lparr>cfg_Raft = \<lparr>rc_LocalID = cc_NodeName conf, rc_SnapshotThreshold = 0, rc_HeartbeatTimeout = 0,
        rc_ElectionTimeout = 0, rc_LeaderLeaseTimeout = 0, rc_CommitTimeout = 0\<rparr>,
      cfg_Bootstrap = cc_Bootstrap conf, cfg_SnapshotThreshold = 0, cfg_TransportAddr = addr\<rparr>"

text \<open>\<open>None\<close>: still waiting for a leader after the given rounds.\<close>

definition coord_setupRaft ::
  "('c, 'r) coordenv \<Rightarrow> ('c, 'r) Coordinator \<Rightarrow> (goerr option option \<times> ('c, 'r) Coordinator) go" where
  "coord_setupRaft k c =
     go_bind (mux_Match raft_matcher c) (\<lambda>(raftListener, c1).
       let conf = co_Config c;
           tn = NewTLSTransport raftListener (cc_ServerTLS conf) (cc_PeerTLS conf);
           c2 = c1\<lparr>co_transport := Some tn\<rparr> in
       case NewDB (k_env k) (cc_DataDir conf) (raft_conf conf (Transport_Addr tn)) (k_world k) of
         (Inl err, _) \<Rightarrow> Ret (Some (Some err), c2\<lparr>co_raft := None\<rparr>)
       | (Inr db, _) \<Rightarrow>
           Ret (if cc_Bootstrap conf then WaitForLeader (k_env k) (k_wake k db) else Some None,
                c2\<lparr>co_raft := Some db\<rparr>))"

definition setupHTTP ::
  "('c, 'r) coordenv \<Rightarrow> ('c, 'r) Coordinator \<Rightarrow> (goerr option \<times> ('c, 'r) Coordinator) go" where
  "setupHTTP k c =
     (case HTTPAddr (co_Config c) of
        Inl err \<Rightarrow> Ret (Some err, c)
      | Inr httpaddr \<Rightarrow>
          (case NewService (k_zap k) httpaddr True of
            (_, Some err) \<Rightarrow> Ret (Some err, c)
          | (httpserv, None) \<Rightarrow>
              go_bind (mux_Match cmux_Any c) (\<lambda>(ln, c1).
                case StartWithListener ln httpserv of
                  (Some err, _) \<Rightarrow> Ret (Some err, c1)
                | (None, httpserv') \<Rightarrow> Ret (None, c1\<lparr>co_http := Some httpserv'\<rparr>))))"

definition join_body :: "string \<Rightarrow> string \<Rightarrow> bytes" where
  "join_body name addr =
     bytes_of_string (print_json True (enc_map [(''id'', JStr name), (''addr'', JStr addr)]))"

definition joinToLeader :: "('c, 'r) coordenv \<Rightarrow> CoordConfig \<Rightarrow> goerr option" where
  "joinToLeader k conf =
     (if cc_LeaderStartAddr conf = '''' then None
      else (case RaftAddr conf of
        Inl err \<Rightarrow> Some err
      | Inr addr \<Rightarrow>
          (let reqBytes = join_body (cc_NodeName conf) addr; url = cc_LeaderStartAddr conf @ ''/join'' in
           case k_NewRequest k url of
             Some err \<Rightarrow> Some err
           | None \<Rightarrow>
               (case k_Do k url reqBytes of
                 Inl err \<Rightarrow> Some err
               | Inr code \<Rightarrow>
                   if code \<noteq> 200
                   then Some (ErrMsg (''failed to join leader cluster got code: '' @ show_nat code))
                   else None))))"

text \<open>\<open>None\<close>: \<open>New\<close> has not returned, because it is waiting for a leader.\<close>

definition coord_New ::
  "('c, 'r) coordenv \<Rightarrow> CoordConfig \<Rightarrow> (goerr + ('c, 'r) Coordinator) option go" where
  "coord_New k conf =
     (let c = \<lparr>co_Config = conf, co_mux = None, co_manager = None, co_raft = None, co_shutdown = False,
               co_shutdowns = ChanOpen, co_http = None, co_transport = None\<rparr> in
      case setupMux k c of
        (Some err, _) \<Rightarrow> Ret (Some (Inl err))
      | (None, c1) \<Rightarrow>
          go_bind (coord_setupRaft k c1) (\<lambda>(w, c2).
            case w of
              None \<Rightarrow> Ret None
            | Some (Some err) \<Rightarrow> Ret (Some (Inl err))
            | Some None \<Rightarrow>
                go_bind (setupHTTP k c2) (\<lambda>(e, c3).
                  case e of
                    Some err \<Rightarrow> Ret (Some (Inl err))
                  | None \<Rightarrow>
                      (case joinToLeader k conf of
                        Some err \<Rightarrow> Ret (Some (Inl err))
                      | None \<Rightarrow> Ret (Some (Inr c3))))))"

definition coord_Close ::
  "('c, 'r) coordenv \<Rightarrow> ('c, 'r) Coordinator \<Rightarrow> (goerr option \<times> ('c, 'r) Coordinator) go" where
  "coord_Close k c =
     (if co_shutdown c then Ret (None, c)
      else (case co_shutdowns c of
        ChanNil \<Rightarrow> Panic ''close of nil channel''
      | ChanClosed \<Rightarrow> Panic ''close of closed channel''
      | ChanOpen \<Rightarrow>
          (case co_raft c of
            None \<Rightarrow> Panic ''invalid memory address or nil pointer dereference''
          | Some db \<Rightarrow>
              (case Close (k_env k) db of
                (e, db') \<Rightarrow>
                  Ret (e, c\<lparr>co_shutdown := True, co_shutdowns := ChanClosed, co_raft := Some db'\<rparr>)))))"

definition serve ::
  "('c, 'r) coordenv \<Rightarrow> ('c, 'r) Coordinator \<Rightarrow> (goerr option \<times> ('c, 'r) Coordinator) go" where
  "serve k c =
     (case co_mux c of
        None \<Rightarrow> Panic ''invalid memory address or nil pointer dereference''
      | Some m \<Rightarrow>
          (case k_Serve k m of
            Some err \<Rightarrow> go_bind (coord_Close k c) (\<lambda>(_, c'). Ret (Some err, c'))
          | None \<Rightarrow> Ret (None, c)))"

text \<open>The serf configuration of a node; \<open>New\<close> does not call it.\<close>

definition setupManager ::
  "('c, 'r) coordenv \<Rightarrow> ('c, 'r) Coordinator \<Rightarrow> goerr option \<times> ('c, 'r) Coordinator" where
  "setupManager k c =
     (case HTTPAddr (co_Config c) of
        Inl err \<Rightarrow> (Some err, c)
      | Inr addr \<Rightarrow>
          (case Manager_New (k_serf k) (node_handler (k_env k))
                  \<lparr>mc_NodeName = cc_NodeName (co_Config c), mc_BindAddr = cc_BindAddr (co_Config c),
                   mc_Tags = [''addr'' \<mapsto> addr], mc_StartJoinAddrs = cc_StartJoinAddrs (co_Config c)\<rparr> of
            Inl err \<Rightarrow> (Some err, c\<lparr>co_manager := None\<rparr>)
          | Inr m \<Rightarrow> (None, c\<lparr>co_manager := Some m\<rparr>)))"


section \<open>The coordinator as a state machine\<close>

text \<open>
  One step of a running coordinator: \<open>Close\<close>, from a caller or from \<open>serve\<close>, setting up
  the manager, or a step of the raft node it runs.
\<close>

inductive coord_step :: "('c, 'r) coordenv \<Rightarrow> ('c, 'r) Coordinator \<Rightarrow> ('c, 'r) Coordinator \<Rightarrow> bool"
  for k where
  step_close: "coord_Close k c = Ret (e, c') \<Longrightarrow> coord_step k c c'"
| step_serve: "serve k c = Ret (e, c') \<Longrightarrow> coord_step k c c'"
| step_manager: "setupManager k c = (e, c') \<Longrightarrow> coord_step k c c'"
| step_node: "co_raft c = Some db \<Longrightarrow> node_step (k_env k) db db' \<Longrightarrow> coord_step k c (c\<lparr>co_raft := Some db'\<rparr>)"

inductive coord_reachable :: "('c, 'r) coordenv \<Rightarrow> CoordConfig \<Rightarrow> ('c, 'r) Coordinator \<Rightarrow> bool"
  for k conf where
  coord_start: "coord_New k conf = Ret (Some (Inr c)) \<Longrightarrow> coord_reachable k conf c"
| coord_go: "coord_reachable k conf c \<Longrightarrow> coord_step k c c' \<Longrightarrow> coord_reachable k conf c'"

text \<open>
  The channel is closed exactly after shutdown, the raft node is there, and what \<open>New\<close>
  registered with the multiplexer is what it holds.
\<close>

definition coord_ok :: "CoordConfig \<Rightarrow> ('c, 'r) Coordinator \<Rightarrow> bool" where
  "coord_ok conf c \<longleftrightarrow>
     co_shutdowns c = (if co_shutdown c then ChanClosed else ChanOpen) \<and> co_raft c \<noteq> None \<and>
     (\<exists>l. co_mux c = Some \<lparr>mx_addr = l, mx_matchers = [raft_matcher, cmux_Any]\<rparr> \<and>
        co_transport c = Some (NewTLSTransport l (cc_ServerTLS conf) (cc_PeerTLS conf))) \<and> co_http c \<noteq> None \<and>
     co_Config c = conf"

lemma setupMux_ok:
  "setupMux k c = (None, c') \<Longrightarrow> \<exists>m. co_mux c' = Some m \<and> mx_matchers m = [] \<and> co_Config c' = co_Config c \<and>
     co_shutdown c' = co_shutdown c \<and> co_shutdowns c' = co_shutdowns c"
  by (auto simp: setupMux_def Let_def split: sum.splits prod.splits)

lemma coord_setupRaft_ok:
  assumes "co_mux c = Some m"
  shows "\<exists>w c'. coord_setupRaft k c = Ret (w, c') \<and>
    co_mux c' = Some (m\<lparr>mx_matchers := mx_matchers m @ [raft_matcher]\<rparr>) \<and>
    co_transport c' = Some (NewTLSTransport (mx_addr m) (cc_ServerTLS (co_Config c)) (cc_PeerTLS (co_Config c))) \<and>
    (w = Some None \<longrightarrow> co_raft c' \<noteq> None) \<and> co_Config c' = co_Config c \<and>
    co_shutdown c' = co_shutdown c \<and> co_shutdowns c' = co_shutdowns c"
  using assms by (auto simp: coord_setupRaft_def mux_Match_def Let_def split: sum.splits prod.splits)

lemma setupHTTP_ok:
  assumes "co_mux c = Some m"
  shows "\<exists>e c'. setupHTTP k c = Ret (e, c') \<and>
    (e = None \<longrightarrow> co_mux c' = Some (m\<lparr>mx_matchers := mx_matchers m @ [cmux_Any]\<rparr>) \<and> co_http c' \<noteq> None) \<and>
    co_transport c' = co_transport c \<and> co_raft c' = co_raft c \<and> co_Config c' = co_Config c \<and>
    co_shutdown c' = co_shutdown c \<and> co_shutdowns c' = co_shutdowns c"
  using assms
  by (auto simp: setupHTTP_def mux_Match_def StartWithListener_def split: sum.splits prod.splits option.splits)

lemma coord_New_ok:
  "\<exists>res. coord_New k conf = Ret res \<and> (\<forall>c. res = Some (Inr c) \<longrightarrow> coord_ok conf c)"
proof -
  let ?c = "\<lparr>co_Config = conf, co_mux = None, co_manager = None, co_raft = None, co_shutdown = False,
               co_shutdowns = ChanOpen, co_http = None, co_transport = None\<rparr> :: ('a, 'b) Coordinator"
  obtain e1 c1 where m: "setupMux k ?c = (e1, c1)" by fastforce
  show ?thesis
  proof (cases e1)
    case (Some err)
    with m show ?thesis by (simp add: coord_New_def)
  next
    case None
    from setupMux_ok [OF m [unfolded None]] obtain m1 where m1: "co_mux c1 = Some m1" "mx_matchers m1 = []"
      and c1: "co_Config c1 = conf" "\<not> co_shutdown c1" "co_shutdowns c1 = ChanOpen"
      by auto
    from coord_setupRaft_ok [OF m1(1), of k] obtain w c2 where r: "coord_setupRaft k c1 = Ret (w, c2)"
      "co_mux c2 = Some (m1\<lparr>mx_matchers := [raft_matcher]\<rparr>)"
      "co_transport c2 = Some (NewTLSTransport (mx_addr m1) (cc_ServerTLS conf) (cc_PeerTLS conf))"
      "w = Some None \<longrightarrow> co_raft c2 \<noteq> None" "co_Config c2 = conf" "\<not> co_shutdown c2" "co_shutdowns c2 = ChanOpen"
      using m1(2) c1 by auto
    from setupHTTP_ok [OF r(2), of k] obtain e c3 where h: "setupHTTP k c2 = Ret (e, c3)"
      "e = None \<longrightarrow> co_mux c3 = Some (m1\<lparr>mx_matchers := [raft_matcher, cmux_Any]\<rparr>) \<and> co_http c3 \<noteq> None"
      "co_transport c3 = co_transport c2" "co_raft c3 = co_raft c2" "co_Config c3 = conf"
      "\<not> co_shutdown c3" "co_shutdowns c3 = ChanOpen"
      using r by auto
    have "coord_ok conf c3" if "w = Some None" "e = None"
      using that r h unfolding coord_ok_def by (cases m1) auto
    with m None r(1) h(1) show ?thesis
      by (cases w; cases "the w"; cases e; cases "joinToLeader k conf") (simp_all add: coord_New_def)
  qed
qed

lemma coord_Close_ok:
  assumes "coord_ok conf c"
  shows "\<exists>e c'. coord_Close k c = Ret (e, c') \<and> coord_ok conf c' \<and> co_shutdown c' \<and> co_mux c' = co_mux c \<and>
    co_http c' = co_http c"
proof (cases "co_shutdown c")
  case True
  with assms show ?thesis by (simp add: coord_Close_def)
next
  case False
  with assms obtain db where db: "co_raft c = Some db" "co_shutdowns c = ChanOpen" by (auto simp: coord_ok_def)
  obtain e db' where "Close (k_env k) db = (e, db')" by fastforce
  with False db have "coord_Close k c = Ret (e, c\<lparr>co_shutdown := True, co_shutdowns := ChanClosed, co_raft := Some db'\<rparr>)"
    by (simp add: coord_Close_def)
  with assms show ?thesis by (simp add: coord_ok_def)
qed

lemma serve_ok:
  assumes "coord_ok conf c"
  shows "\<exists>e c'. serve k c = Ret (e, c') \<and> coord_ok conf c'"
proof -
  from assms obtain m where "co_mux c = Some m" by (auto simp: coord_ok_def)
  with coord_Close_ok [OF assms, of k] assms show ?thesis
    by (cases "k_Serve k m") (auto simp: serve_def)
qed

lemma coord_reachable_ok:
  assumes "coord_reachable k conf c"
  shows "coord_ok conf c"
  using assms
proof (induction rule: coord_reachable.induct)
  case (coord_start c)
  with coord_New_ok [of k conf] show ?case by auto
next
  case (coord_go c c')
  from coord_go.hyps(2) show ?case
  proof (cases rule: coord_step.cases)
    case (step_close e)
    with coord_Close_ok [OF coord_go.IH, of k] show ?thesis by auto
  next
    case (step_serve e)
    with serve_ok [OF coord_go.IH, of k] show ?thesis by auto
  next
    case (step_manager e)
    with coord_go.IH show ?thesis
      by (auto simp: setupManager_def coord_ok_def split: sum.splits)
  next
    case (step_node db db')
    with coord_go.IH show ?thesis by (auto simp: coord_ok_def)
  qed
qed


section \<open>A coordinator to evaluate on\<close>

definition sample_conf :: CoordConfig where
  "sample_conf =
     \<lparr>cc_DataDir = ''d'', cc_BindAddr = ''h:8'', cc_CommunicationPort = 7, cc_StartJoinAddrs = None,
      cc_Bootstrap = True, cc_NodeName = ''n0'', cc_LeaderStartAddr = '''', cc_ServerTLS = None,
      cc_PeerTLS = Some ''peer''\<rparr>"

definition sample_coord :: "(sample, sraft) coordenv" where
  "sample_coord =
     \<lparr>k_env = sample_env [] [], k_world = sample_world [], k_Listen = (\<lambda>a. Inr a), k_zap = None,
      k_wake = (\<lambda>db. [Tick db]), k_NewRequest = (\<lambda>_. None), k_Do = (\<lambda>_ _. Inr 200),
      k_serf = \<lparr>sf_ResolveTCPAddr = (\<lambda>_. Inr (''h'', 8)), sf_Create = (\<lambda>_. None), sf_Join = (\<lambda>_. None),
                sf_Members = [], sf_Leave = None\<rparr>,
      k_Serve = (\<lambda>_. None)\<rparr>"

lemma sample_coord_New: "\<exists>c. coord_New sample_coord sample_conf = Ret (Some (Inr c))"
proof -
  have "case coord_New sample_coord sample_conf of Ret (Some (Inr c)) \<Rightarrow> True | _ \<Rightarrow> False" by code_simp
  then show ?thesis by (auto split: go.splits option.splits sum.splits)
qed

text \<open>Shutting down is final.\<close>

lemma coord_Close_shutdown:
  assumes "coord_Close k c = Ret (e, c')"
  shows "co_shutdowns c \<le> co_shutdowns c'" and "co_shutdown c'"
  using assms by (auto simp: coord_Close_def split: if_splits chan.splits option.splits prod.splits)

lemma coord_step_shutdown:
  assumes "coord_step k c c'"
  shows "co_shutdowns c \<le> co_shutdowns c'" and "co_shutdown c \<Longrightarrow> co_shutdown c'"
  using assms
  by (cases rule: coord_step.cases; auto simp: serve_def setupManager_def dest: coord_Close_shutdown
      split: option.splits sum.splits)+

section \<open>Properties\<close>




text \<open>
  The rule of the multiplexer: a connection goes to the listener of the first matcher, in the
  order of registration, that accepts it.
\<close>

definition cmux_first_match :: "(mux \<Rightarrow> conn \<Rightarrow> nat option) \<Rightarrow> bool" where
  "cmux_first_match dispatch \<longleftrightarrow>
     (\<forall>m con i. i < length (mx_matchers m) \<and> (mx_matchers m ! i) con \<and> (\<forall>j < i. \<not> (mx_matchers m ! j) con) \<longrightarrow>
        dispatch m con = Some i)"

text \<open>
  (C17) One port serves raft and HTTP: on a running coordinator, a connection that a node's raft
  transport dialled is handed to the raft listener (the first) and the coordinator's
  transport accepts it there, with everything the peer sends next still to be read; a
  connection whose first byte is not 1 (every HTTP request, every TLS handshake), or that
  is closed or fails before its first byte, is handed to the HTTP listener (the second).
\<close>
theorem mux_separates_raft_and_http:
  assumes "coord_reachable k conf c" and "co_mux c = Some m" and "cmux_first_match dispatch"
    and "dialer addr = Inr c0" and "cn_out c0 = []" and "Dial tn dialer addr = Inr dialled"
  shows "dispatch m (peer_end dialled later) = Some 0 \<and>
    (\<exists>tp con. co_transport c = Some tp \<and> Accept tp (Inr (peer_end dialled later)) = Inr con \<and> cn_in con = later) \<and>
    (\<forall>con. cn_readfail con \<noteq> None \<or> take 1 (cn_in con) \<noteq> [1] \<longrightarrow> dispatch m con = Some 1)"
proof -
  have ok: "mx_matchers m = [raft_matcher, cmux_Any]"
    "co_transport c = Some (NewTLSTransport (mx_addr m) (cc_ServerTLS conf) (cc_PeerTLS conf))"
    using coord_reachable_ok [OF assms(1)] assms(2) by (auto simp: coord_ok_def)
  have d: "cn_out dialled = [1]"
    using assms(4-6) by (auto simp: Dial_def conn_Write_def split: option.splits)
  then have r: "conn_Read1 (peer_end dialled later) = (Inr 1, (peer_end dialled later)\<lparr>cn_in := later\<rparr>)"
    by (simp add: conn_Read1_def peer_end_def)
  then have "dispatch m (peer_end dialled later) = Some 0"
    using assms(3) ok(1) by (simp add: cmux_first_match_def raft_matcher_def)
  moreover have "\<exists>tp con. co_transport c = Some tp \<and> Accept tp (Inr (peer_end dialled later)) = Inr con \<and> cn_in con = later"
    using ok(2) r by (simp add: Accept_def split: option.split)
  moreover have "dispatch m con = Some 1" if "cn_readfail con \<noteq> None \<or> take 1 (cn_in con) \<noteq> [1]" for con
  proof -
    have "\<not> raft_matcher con"
      using that by (auto simp: raft_matcher_def conn_Read1_def split: option.splits list.splits)
    moreover have "cmux_Any con" by (simp add: cmux_Any_def)
    ultimately show ?thesis using assms(3) ok(1) by (simp add: cmux_first_match_def less_Suc_eq)
  qed
  ultimately show ?thesis by blast
qed

definition sample_dispatch :: "mux \<Rightarrow> conn \<Rightarrow> nat option" where
  "sample_dispatch m con = List.find (\<lambda>i. (mx_matchers m ! i) con) [0..<length (mx_matchers m)]"

lemma sample_dispatch_law: "cmux_first_match sample_dispatch"
  unfolding cmux_first_match_def sample_dispatch_def find_Some_iff by (auto intro!: exI)

theorem mux_separates_raft_and_http_witness:
  "\<exists>c m dialled. coord_New sample_coord sample_conf = Ret (Some (Inr c)) \<and> co_mux c = Some m \<and>
     Dial (NewTransport ''h:1'') (\<lambda>_. Inr fresh_conn) ''h:7'' = Inr dialled \<and>
     sample_dispatch m (peer_end dialled [5]) = Some 0 \<and>
     sample_dispatch m (fresh_conn\<lparr>cn_in := bytes_of_string ''GET''\<rparr>) = Some 1"
proof -
  obtain c where c: "coord_New sample_coord sample_conf = Ret (Some (Inr c))" using sample_coord_New by blast
  then have r: "coord_reachable sample_coord sample_conf c" by (rule coord_start)
  from coord_reachable_ok [OF r] obtain m where m: "co_mux c = Some m" by (auto simp: coord_ok_def)
  let ?d = "Dial (NewTransport ''h:1'') (\<lambda>_. Inr fresh_conn) ''h:7''"
  have d: "?d = Inr (projr ?d)" by code_simp
  have "take 1 (cn_in (fresh_conn\<lparr>cn_in := bytes_of_string ''GET''\<rparr>)) \<noteq> [1]" by code_simp
  with mux_separates_raft_and_http [OF r m sample_dispatch_law _ _ d, of fresh_conn "[5]"] c m d show ?thesis
    by (auto simp: fresh_conn_def)
qed


lemma last_colon_append: "CHR '':'' \<notin> set p \<Longrightarrow> last_colon (h @ '':'' @ p) = Some (h, p)"
proof -
  assume "CHR '':'' \<notin> set p"
  then have "\<And>x. x \<in> set (rev p) \<Longrightarrow> CHR '':'' \<noteq> x" by auto
  then have "dropWhile ((\<noteq>) CHR '':'') (rev p @ CHR '':'' # rev h) = CHR '':'' # rev h"
    "takeWhile ((\<noteq>) CHR '':'') (rev p @ CHR '':'' # rev h) = rev p"
    by (subst dropWhile_append2 takeWhile_append2; simp)+
  then show ?thesis by (simp add: last_colon_def)
qed

lemma last_colon_set: "last_colon s = Some (h, p) \<Longrightarrow> set h \<subseteq> set s"
  by (auto simp: last_colon_def split: if_splits dest!: in_set_dropD set_dropWhileD)

lemma show_int_chars: "c \<in> set (show_int i) \<Longrightarrow> c = CHR ''-'' \<or> is_digit c"
  using show_nat_digits by (auto simp: show_int_def list_all_iff split: if_splits)

lemma show_int_plain: "CHR '':'' \<notin> set (show_int i)" "CHR ''['' \<notin> set (show_int i)" "CHR '']'' \<notin> set (show_int i)"
  by (auto simp: is_digit_def dest!: show_int_chars)

text \<open>The host that \<open>SplitHostPort\<close> returns has no brackets.\<close>

lemma SplitHostPort_host:
  assumes "SplitHostPort s = Inr (host, p)"
  shows "CHR ''['' \<notin> set host \<and> CHR '']'' \<notin> set host"
proof (cases "hd s = CHR ''[''")
  case True
  with assms have "host = takeWhile ((\<noteq>) CHR '']'') (drop 1 s)" "CHR ''['' \<notin> set (drop 1 s)"
    by (auto simp: SplitHostPort_def split_brackets_def Let_def split: option.splits if_splits sum.splits)
  then show ?thesis by (auto dest: set_takeWhileD)
next
  case False
  with assms show ?thesis
    by (auto simp: SplitHostPort_def split: option.splits if_splits dest!: last_colon_set)
qed

lemma SplitHostPort_host_port:
  assumes "SplitHostPort s = Inr (host, p)"
  shows "if CHR '':'' \<in> set host then isl (SplitHostPort (host_port host port))
    else SplitHostPort (host_port host port) = Inr (host, show_int (sint port))"
proof -
  note h = SplitHostPort_host [OF assms]
  have l: "last_colon (host_port host port) = Some (host, show_int (sint port))"
    unfolding host_port_def by (rule last_colon_append) (rule show_int_plain)
  have "hd (host_port host port) \<noteq> CHR ''[''" using h by (cases host) (auto simp: host_port_def)
  with l h show_int_plain [of "sint port"] show ?thesis
    by (simp add: SplitHostPort_def) (simp add: host_port_def)
qed

text \<open>
  (C31) The addresses of a node: when the bind address can be split, HTTP and raft share one
  host and port, which is why a redirect to the leader's raft address reaches its HTTP
  service. For a host without a colon the raft address splits back into that host and the
  communication port; for an IPv6 host the brackets are lost, the address is not one that
  can be split, and where \<open>net.Listen\<close> refuses such addresses the coordinator never starts.
\<close>
theorem bind_host_determines_addresses:
  assumes "SplitHostPort (cc_BindAddr conf) = Inr (host, p)"
    and "\<And>a. isl (SplitHostPort a) \<Longrightarrow> isl (k_Listen k a)"
  shows "\<exists>a. RaftAddr conf = Inr a \<and> HTTPAddr conf = Inr (''http://'' @ a) \<and>
    (if CHR '':'' \<in> set host then isl (SplitHostPort a) \<and> (\<exists>err. coord_New k conf = Ret (Some (Inl err)))
     else SplitHostPort a = Inr (host, show_int (sint (cc_CommunicationPort conf))))"
proof -
  let ?a = "host_port host (cc_CommunicationPort conf)"
  have "RaftAddr conf = Inr ?a" "HTTPAddr conf = Inr (''http://'' @ ?a)"
    using assms(1) by (simp_all add: RaftAddr_def HTTPAddr_def)
  moreover note s = SplitHostPort_host_port [OF assms(1), of "cc_CommunicationPort conf"]
  moreover have "\<exists>err. coord_New k conf = Ret (Some (Inl err))" if "CHR '':'' \<in> set host"
  proof -
    from s that assms(2) have "isl (k_Listen k ?a)" by simp
    with assms(1) show ?thesis by (auto simp: coord_New_def setupMux_def isl_def)
  qed
  ultimately show ?thesis by (cases "CHR '':'' \<in> set host") auto
qed

theorem bind_host_determines_addresses_witness:
  "let k = sample_coord\<lparr>k_Listen := \<lambda>a. case SplitHostPort a of Inl e \<Rightarrow> Inl e | Inr _ \<Rightarrow> Inr a\<rparr>
   in SplitHostPort ''[::1]:8'' = Inr (''::1'', ''8'') \<and>
      (\<exists>err. coord_New k (sample_conf\<lparr>cc_BindAddr := ''[::1]:8''\<rparr>) = Ret (Some (Inl err)))"
proof -
  let ?k = "sample_coord\<lparr>k_Listen := \<lambda>a. case SplitHostPort a of Inl e \<Rightarrow> Inl e | Inr _ \<Rightarrow> Inr a\<rparr>"
  let ?conf = "sample_conf\<lparr>cc_BindAddr := ''[::1]:8''\<rparr>"
  have s: "SplitHostPort ''[::1]:8'' = Inr (''::1'', ''8'')" by code_simp
  then have "SplitHostPort (cc_BindAddr ?conf) = Inr (''::1'', ''8'')" by simp
  moreover have "isl (k_Listen ?k a)" if "isl (SplitHostPort a)" for a using that by (cases "SplitHostPort a") simp_all
  ultimately show ?thesis
    using bind_host_determines_addresses [of ?conf "''::1''" "''8''" ?k] s by (auto simp: Let_def)
qed

end
