(* ===== verification/Client.thy ===== *)
theory Client
  imports Encoding
begin

text \<open>
  A client that reads the results of a query. The text says less than the value: an integer
  and a double may be the same number, a blob is a base64 string. So the client is given the
  dynamic type of each cell, as it would know it from the column, and reads the JSON by it.
  Shown here: base64 is undone, and reading undoes \<open>ProtoToJSON\<close> on every list of results
  whose strings are valid UTF-8 and whose doubles are finite.
\<close>

section \<open>Base64\<close>

definition b64chars :: string where
  "b64chars = ''ABCDEFGHIJKLMNOPQRSTUVWXYZabcdefghijklmnopqrstuvwxyz0123456789+/''"

definition b64val :: "char \<Rightarrow> nat" where
  "b64val c = length (takeWhile ((\<noteq>) c) b64chars)"

fun unbase64 :: "string \<Rightarrow> nat list" where
  "unbase64 (p # q # r # s # rest) =
     (let x = b64val p * 4 + b64val q div 16; y = b64val q mod 16 * 16 + b64val r div 4;
          z = b64val r mod 4 * 64 + b64val s
      in if r = CHR ''='' then [x] else if s = CHR ''='' then [x, y] else x # y # z # unbase64 rest)"
| "unbase64 _ = []"

lemma b64chars_props: "length b64chars = 64" "distinct b64chars" "CHR ''='' \<notin> set b64chars" "ascii b64chars"
  by (simp_all add: b64chars_def ascii_def)

lemma b64char_nth: "b64char n = b64chars ! (n mod 64)"
  by (simp add: b64char_def b64chars_def)

lemma b64char_in: "b64char n \<in> set b64chars"
  by (simp add: b64char_nth b64chars_props(1))

lemma b64char_pad: "b64char n \<noteq> CHR ''=''"
  using b64char_in [of n] b64chars_props(3) by metis

lemma takeWhile_nth: "distinct xs \<Longrightarrow> i < length xs \<Longrightarrow> length (takeWhile ((\<noteq>) (xs ! i)) xs) = i"
proof (induction xs arbitrary: i)
  case (Cons x xs)
  then show ?case by (cases i) auto
qed simp

lemma b64_inverse: "n < 64 \<Longrightarrow> b64val (b64char n) = n"
  using takeWhile_nth [of b64chars n] by (simp add: b64val_def b64char_nth b64chars_props)

lemma base64_ascii: "ascii (base64 bs)"
  by (induction bs rule: base64.induct) (use b64char_in b64chars_props(4) in \<open>auto simp: ascii_def\<close>)

lemma base64_roundtrip: "\<forall>b \<in> set bs. b < 256 \<Longrightarrow> unbase64 (base64 bs) = bs"
proof (induction bs rule: base64.induct)
  case (4 a b c bs)
  have lt: "a div 4 < 64" "a mod 4 * 16 + b div 16 < 64" "b mod 16 * 4 + c div 64 < 64" "c mod 64 < 64"
    using 4 by auto
  have v: "(a mod 4 * 16 + b div 16) div 16 = a mod 4" "(a mod 4 * 16 + b div 16) mod 16 = b div 16"
    "(b mod 16 * 4 + c div 64) div 4 = b mod 16" "(b mod 16 * 4 + c div 64) mod 4 = c div 64"
    using 4 by auto
  have "b div 16 < 16" "c div 64 < 4" using 4 by auto
  then show ?case using 4 by (simp add: lt [THEN b64_inverse] v b64char_pad Let_def)
next
  case (3 a b)
  have lt: "a div 4 < 64" "a mod 4 * 16 + b div 16 < 64" "b mod 16 * 4 < 64" using 3 by auto
  have v: "(a mod 4 * 16 + b div 16) div 16 = a mod 4" "(a mod 4 * 16 + b div 16) mod 16 = b div 16"
    using 3 by auto
  have "b div 16 < 16" using 3 by auto
  then show ?case using 3 by (simp add: lt [THEN b64_inverse] v b64char_pad Let_def)
next
  case (2 a)
  have lt: "a div 4 < 64" "a mod 4 * 16 < 64" using 2 by auto
  show ?case using 2 by (simp add: lt [THEN b64_inverse] Let_def)
qed simp


section \<open>Reading cells, rows and results\<close>

datatype anytype = TInt64 | TFloat64 | TBool | TBytes | TString | TNil

fun type_of :: "any \<Rightarrow> anytype" where
  "type_of (AInt64 _) = TInt64"
| "type_of (AFloat64 _) = TFloat64"
| "type_of (ABool _) = TBool"
| "type_of (ABytes _) = TBytes"
| "type_of (AString _) = TString"
| "type_of ANil = TNil"

fun client_any :: "(string \<Rightarrow> float64 option) \<Rightarrow> anytype \<Rightarrow> json \<Rightarrow> any" where
  "client_any pf TInt64 j = AInt64 (client_int (Some j))"
| "client_any pf TFloat64 (JNum t) = AFloat64 (case pf t of Some d \<Rightarrow> d | None \<Rightarrow> 0)"
| "client_any pf TBool (JBool b) = ABool b"
| "client_any pf TBytes (JStr s) = ABytes (map of_nat (unbase64 s))"
| "client_any pf TString (JStr s) = AString s"
| "client_any pf _ _ = ANil"

fun client_row :: "(string \<Rightarrow> float64 option) \<Rightarrow> anytype list option \<Rightarrow> json \<Rightarrow> any list option" where
  "client_row pf (Some tys) (JArr js) = Some (map2 (client_any pf) tys js)"
| "client_row pf _ _ = None"

definition client_strs :: "json option \<Rightarrow> string list" where
  "client_strs j = (case j of Some (JArr js) \<Rightarrow> map (\<lambda>j. client_str (Some j)) js | _ \<Rightarrow> [])"

definition client_rows ::
  "(string \<Rightarrow> float64 option) \<Rightarrow> anytype list option list \<Rightarrow> json option \<Rightarrow> any list option list" where
  "client_rows pf shape j = (case j of Some (JArr js) \<Rightarrow> map2 (client_row pf) shape js | _ \<Rightarrow> [])"

fun client_query :: "(string \<Rightarrow> float64 option) \<Rightarrow> anytype list option list \<Rightarrow> json \<Rightarrow> EncQueryRes" where
  "client_query pf shape (JObj kvs) =
     \<lparr>eq_Columns = client_strs (map_of kvs ''columns''), eq_Types = client_strs (map_of kvs ''types''),
      eq_Values = client_rows pf shape (map_of kvs ''values''), eq_Error = client_str (map_of kvs ''error'')\<rparr>"
| "client_query pf shape _ = \<lparr>eq_Columns = [], eq_Types = [], eq_Values = [], eq_Error = ''''\<rparr>"

fun client_queries :: "(string \<Rightarrow> float64 option) \<Rightarrow> anytype list option list list \<Rightarrow> json \<Rightarrow> EncQueryRes list" where
  "client_queries pf shapes (JArr js) = map2 (client_query pf) shapes js"
| "client_queries pf shapes _ = []"

definition row_shape :: "any list option \<Rightarrow> anytype list option" where
  "row_shape row = map_option (map type_of) row"

definition query_shape :: "EncQueryRes \<Rightarrow> anytype list option list" where
  "query_shape q = map row_shape (eq_Values q)"

text \<open>What the encoder keeps: valid strings and finite doubles.\<close>

fun cell_ok :: "(float64 \<Rightarrow> string option) \<Rightarrow> any \<Rightarrow> bool" where
  "cell_ok ff (AFloat64 d) = (ff d \<noteq> None)"
| "cell_ok ff (AString s) = utf8 s"
| "cell_ok ff _ = True"

fun row_ok :: "(float64 \<Rightarrow> string option) \<Rightarrow> any list option \<Rightarrow> bool" where
  "row_ok ff None = True"
| "row_ok ff (Some cells) = list_all (cell_ok ff) cells"

definition result_ok :: "(float64 \<Rightarrow> string option) \<Rightarrow> EncQueryRes \<Rightarrow> bool" where
  "result_ok ff q \<longleftrightarrow>
     list_all utf8 (eq_Columns q) \<and> list_all utf8 (eq_Types q) \<and> utf8 (eq_Error q) \<and>
     list_all (row_ok ff) (eq_Values q)"

text \<open>
  The law of the conversions of doubles (\<^verbatim>\<open>strconv\<close>): the text of a finite double is a JSON
  number, and reading it gives that double back.
\<close>

definition float_laws :: "(float64 \<Rightarrow> string option) \<Rightarrow> (string \<Rightarrow> float64 option) \<Rightarrow> bool" where
  "float_laws ff pf \<longleftrightarrow> (\<forall>d t. ff d = Some t \<longrightarrow> num_ok t \<and> list_all num_char t \<and> pf t = Some d)"

text \<open>The content of a result, as the client has it and as the engine made it.\<close>

fun client_value :: "any \<Rightarrow> Parameter_Value option" where
  "client_value (AInt64 i) = Some (Parameter_I i)"
| "client_value (AFloat64 d) = Some (Parameter_D d)"
| "client_value (ABool b) = Some (Parameter_B b)"
| "client_value (ABytes y) = Some (Parameter_Y y)"
| "client_value (AString s) = Some (Parameter_S s)"
| "client_value ANil = None"

type_synonym result_view = "string list \<times> string list \<times> Parameter_Value option list option list \<times> string"

definition client_view :: "EncQueryRes \<Rightarrow> result_view" where
  "client_view q = (eq_Columns q, eq_Types q, map (map_option (map client_value)) (eq_Values q), eq_Error q)"

definition query_view :: "QueryRes \<Rightarrow> result_view" where
  "query_view q =
     (qres_Columns q, qres_Types q, map (\<lambda>vals. map_option (map GetValue) (GetParams vals)) (qres_Values q), qres_Error q)"

section \<open>Lemmas\<close>

lemma client_value_convert: "client_value (convert_param v) = v"
  by (cases v rule: convert_param.cases) simp_all

lemma client_view_convert: "client_view (convertQueryRes q) = query_view q"
  by (simp add: client_view_def query_view_def convertQueryRes_def convertValues_def client_value_convert comp_def
      option.map_comp)

lemma mapE_reads:
  assumes "\<And>x. x \<in> set xs \<Longrightarrow> \<exists>j. f x = Inr j \<and> P j \<and> g (sh x) j = x"
  shows "\<exists>js. mapE f xs = Inr js \<and> (\<forall>j \<in> set js. P j) \<and> map2 g (map sh xs) js = xs"
  using assms
proof (induction xs)
  case (Cons x xs)
  from Cons.prems [of x] obtain j where "f x = Inr j" "P j" "g (sh x) j = x" by auto
  moreover from Cons.IH Cons.prems obtain js where "mapE f xs = Inr js" "\<forall>j \<in> set js. P j"
    "map2 g (map sh xs) js = xs" by (metis list.set_intros(2))
  ultimately show ?case by simp
qed simp

lemma cell_reads:
  assumes "float_laws ff pf" and "cell_ok ff a"
  shows "\<exists>j. enc_any ff a = Inr j \<and> (jplain j \<and> jdepth j \<le> 0) \<and> client_any pf (type_of a) j = a"
proof (cases a)
  case (AInt64 n)
  then show ?thesis by (simp add: enc_int64_plain client_int_enc) (simp add: enc_int64_def)
next
  case (AFloat64 d)
  with assms show ?thesis by (auto simp: enc_float_def float_laws_def)
next
  case (ABytes y)
  have "map (of_nat \<circ> unat) y = y" by (induction y) simp_all
  moreover have "unat b < 2 ^ LENGTH(8)" for b :: byte by (rule unsigned_less)
  then have "\<forall>b \<in> set (map unat y). b < 256" by simp
  ultimately show ?thesis using ABytes base64_roundtrip [of "map unat y"] by (simp add: base64_ascii)
qed (use assms in auto)

lemma row_reads:
  assumes "float_laws ff pf" and "row_ok ff row"
  shows "\<exists>j. enc_row ff row = Inr j \<and> (jplain j \<and> jdepth j \<le> 1) \<and> client_row pf (row_shape row) j = row"
proof (cases row)
  case (Some cells)
  then have "\<exists>j. enc_any ff a = Inr j \<and> (jplain j \<and> jdepth j \<le> 0) \<and> client_any pf (type_of a) j = a"
    if "a \<in> set cells" for a
    using cell_reads [OF assms(1)] assms(2) that by (simp add: list_all_iff)
  from mapE_reads [of cells "enc_any ff" "\<lambda>j. jplain j \<and> jdepth j \<le> 0" "client_any pf" type_of, OF this]
  obtain js where "mapE (enc_any ff) cells = Inr js"
    "\<forall>j \<in> set js. jplain j \<and> jdepth j \<le> 0" "map2 (client_any pf) (map type_of cells) js = cells" by blast
  moreover from this(2) have "fold max (map jdepth js) 0 = 0" using fold_max_le [of "map jdepth js" 0 0] by auto
  ultimately show ?thesis using Some by (auto simp: enc_row_def row_shape_def)
qed (simp add: enc_row_def row_shape_def)

lemma result_reads:
  assumes "float_laws ff pf" and "result_ok ff q"
  shows "\<exists>j. enc_EncQueryRes ff q = Inr j \<and> (jplain j \<and> jdepth j \<le> 3) \<and> client_query pf (query_shape q) j = q"
proof -
  have "\<exists>j. enc_row ff row = Inr j \<and> (jplain j \<and> jdepth j \<le> 1) \<and> client_row pf (row_shape row) j = row"
    if "row \<in> set (eq_Values q)" for row
    using row_reads [OF assms(1)] assms(2) that by (simp add: result_ok_def list_all_iff)
  from mapE_reads [of "eq_Values q" "enc_row ff" "\<lambda>j. jplain j \<and> jdepth j \<le> 1" "client_row pf" row_shape, OF this]
  obtain js where js: "mapE (enc_row ff) (eq_Values q) = Inr js"
    "\<forall>j \<in> set js. jplain j \<and> jdepth j \<le> 1" "map2 (client_row pf) (query_shape q) js = eq_Values q"
    by (auto simp: query_shape_def)
  have strs: "client_strs (Some (JArr (map JStr ss))) = ss" for ss
    by (induction ss) (simp_all add: client_strs_def client_str_def)
  let ?j = "JObj (field (eq_Columns q \<noteq> []) ''columns'' (JArr (map JStr (eq_Columns q))) @
    field (eq_Types q \<noteq> []) ''types'' (JArr (map JStr (eq_Types q))) @
    field (eq_Values q \<noteq> []) ''values'' (JArr js) @ field (eq_Error q \<noteq> '''') ''error'' (JStr (eq_Error q)))"
  have "jplain ?j" using assms(2) js(2) by (auto simp: field_def result_ok_def list_all_iff ascii_def)
  moreover have "jdepth ?j \<le> 3" using js(2) by (auto simp: field_def fold_max_le)
  moreover have "client_query pf (query_shape q) ?j = q"
    using js(3) strs by (cases q) (auto simp: field_def client_rows_def client_str_def client_strs_def query_shape_def)
  ultimately show ?thesis using js(1) by (auto simp: enc_EncQueryRes_def)
qed

lemma query_results_json:
  assumes "float_laws ff pf" and "\<forall>q \<in> set qs. result_ok ff (convertQueryRes q)"
  shows "\<exists>j. proto_json ff (PQueryRess qs) = Inr j \<and> jplain j \<and> jdepth j \<le> 4 \<and>
    client_queries pf (map (\<lambda>q. query_shape (convertQueryRes q)) qs) j = map convertQueryRes qs"
proof -
  have "\<exists>j. enc_EncQueryRes ff q = Inr j \<and> (jplain j \<and> jdepth j \<le> 3) \<and> client_query pf (query_shape q) j = q"
    if "q \<in> set (map convertQueryRes qs)" for q
    using result_reads [OF assms(1)] assms(2) that by auto
  from mapE_reads [of "map convertQueryRes qs" "enc_EncQueryRes ff" "\<lambda>j. jplain j \<and> jdepth j \<le> 3"
      "client_query pf" query_shape, OF this]
  obtain js where js: "mapE (enc_EncQueryRes ff) (map convertQueryRes qs) = Inr js"
    "\<forall>j \<in> set js. jplain j \<and> jdepth j \<le> 3"
    "map2 (client_query pf) (map query_shape (map convertQueryRes qs)) js = map convertQueryRes qs" by blast
  have "mapE (\<lambda>q. enc_EncQueryRes ff (convertQueryRes q)) qs = mapE (enc_EncQueryRes ff) (map convertQueryRes qs)"
    by (induction qs) (simp_all split: sum.split)
  with js show ?thesis by (auto simp: fold_max_le comp_def)
qed


section \<open>Properties\<close>

text \<open>
  (C12) The results of queries survive the way to the client: for every list of results whose
  strings are valid UTF-8 and whose doubles are finite, \<open>ProtoToJSON\<close> succeeds with valid
  JSON, and a client that knows the types of the cells reads back every column name and
  type, every row with every integer, double, boolean, blob, text and null, a missing row,
  and the error.
\<close>
theorem query_results_roundtrip:
  assumes "float_laws ff pf" and "\<forall>q \<in> set qs. result_ok ff (convertQueryRes q)"
  shows "\<exists>txt j. ProtoToJSON ff (PQueryRess qs) = Inr txt \<and> parse_json txt = Some j \<and>
    map client_view (client_queries pf (map (\<lambda>q. query_shape (convertQueryRes q)) qs) j) = map query_view qs"
proof -
  obtain j where j: "proto_json ff (PQueryRess qs) = Inr j" "jplain j" "jdepth j \<le> 4"
    "client_queries pf (map (\<lambda>q. query_shape (convertQueryRes q)) qs) j = map convertQueryRes qs"
    using query_results_json [OF assms] by blast
  have "jdepth j \<le> max_depth" using j(3) by (simp add: max_depth_def)
  from parse_json_print [OF j(2) this] j(1,4) show ?thesis by (auto simp: ProtoToJSON_def client_view_convert)
qed

text \<open>A result with a blob, an integer, a text, a double, a null and a row that is missing.\<close>

definition sample_ff :: "float64 \<Rightarrow> string option" where
  "sample_ff d = (if d = 1 then Some ''1'' else None)"

definition sample_pf :: "string \<Rightarrow> float64 option" where
  "sample_pf t = (if t = ''1'' then Some 1 else None)"

lemma sample_float_laws: "float_laws sample_ff sample_pf"
proof -
  have "num_ok ''1''" "list_all num_char ''1''" by code_simp+
  then show ?thesis by (simp add: float_laws_def sample_ff_def sample_pf_def)
qed

definition sample_qres :: QueryRes where
  "sample_qres =
     \<lparr>qres_Columns = [''a'', ''b''], qres_Types = [''blob'', ''integer''],
      qres_Values =
        [Some \<lparr>vals_Params = Some [Some \<lparr>param_Value = Some (Parameter_Y [1, 255, 7, 0]), param_Name = ''''\<rparr>,
                              Some \<lparr>param_Value = Some (Parameter_I (- 3)), param_Name = ''''\<rparr>]\<rparr>,
         Some \<lparr>vals_Params = Some [Some \<lparr>param_Value = Some (Parameter_S ''<x>''), param_Name = ''''\<rparr>,
                              Some \<lparr>param_Value = Some (Parameter_D 1), param_Name = ''''\<rparr>, None]\<rparr>,
         None],
      qres_Error = ''''\<rparr>"


lemma sample_qres_ok: "result_ok sample_ff (convertQueryRes sample_qres)"
  by (simp add: result_ok_def sample_ff_def sample_qres_def convertQueryRes_def convertValues_def ascii_def)

theorem query_results_roundtrip_witness:
  "\<exists>txt j. ProtoToJSON sample_ff (PQueryRess [sample_qres]) = Inr txt \<and> parse_json txt = Some j \<and>
     map client_view (client_queries sample_pf [query_shape (convertQueryRes sample_qres)] j) =
       [([''a'', ''b''], [''blob'', ''integer''],
         [Some [Some (Parameter_Y [1, 255, 7, 0]), Some (Parameter_I (- 3))],
          Some [Some (Parameter_S ''<x>''), Some (Parameter_D 1), None], None], '''')]"
proof -
  have "\<forall>q \<in> set [sample_qres]. result_ok sample_ff (convertQueryRes q)" by (simp add: sample_qres_ok)
  moreover have "map query_view [sample_qres] =
      [([''a'', ''b''], [''blob'', ''integer''],
        [Some [Some (Parameter_Y [1, 255, 7, 0]), Some (Parameter_I (- 3))],
         Some [Some (Parameter_S ''<x>''), Some (Parameter_D 1), None], None], '''')]"
    by (simp add: sample_qres_def query_view_def)
  ultimately show ?thesis using query_results_roundtrip [OF sample_float_laws, of "[sample_qres]"] by simp
qed

end
