(* ===== verification/Frontend.thy ===== *)
theory Frontend
  imports Service Client
begin

text \<open>
  The HTTP front as a client sees it: the queries a client puts into a URL or into a body,
  what the handler of \<open>/query\<close> makes of them, and the results as the client reads them, for a
  strongly consistent query on the leader and for a weak one on any node.
\<close>

section \<open>A query in a URL\<close>

text \<open>The settings a client sends: the SQL text, and the two options of \<open>queryHandler\<close>.\<close>

definition query_settings :: "string \<Rightarrow> bool \<Rightarrow> bool \<Rightarrow> (string \<times> string) list" where
  "query_settings sql tx strong =
     [(''q'', sql)] @ (if tx then [(''transaction'', '''')] else []) @
     (if strong then [(''consistency'', ''strong'')] else [])"

definition get_query :: "string \<Rightarrow> bool \<Rightarrow> bool \<Rightarrow> request" where
  "get_query sql tx strong = get ''/query'' (query_string (query_settings sql tx strong))"

text \<open>The request that reaches the store.\<close>

definition url_request :: "string \<Rightarrow> bool \<Rightarrow> Request" where
  "url_request sql tx =
     \<lparr>req_Transaction = tx, req_Statements = [\<lparr>stmt_Sql = TrimSpace sql, stmt_Params = []\<rparr>]\<rparr>"

lemma query_settings_parsed: "ParseQuery (query_string (query_settings sql tx strong)) = (query_settings sql tx strong, False)"
  by (rule ParseQuery_escaped) (auto simp: query_settings_def)

lemma TrimSpace_strong: "TrimSpace ''strong'' = ''strong''" "ToLower ''strong'' = ''strong''" "TrimSpace '''' = ''''"
  "ToLower '''' = ''''"
  by (rule TrimSpace_ascii; simp add: ascii_def IsSpace_def) (simp add: TrimSpace_def | code_simp)+

lemma query_request_get:
  "query_request x (get_query sql tx strong) =
     (if TrimSpace sql = '''' then Inl (http_Error ''bad query GET request'' 400)
      else Inr \<lparr>qreq_Request = Some (url_request sql tx), qreq_StrongConsistency = strong\<rparr>)"
  using query_settings_parsed [of sql tx strong] TrimSpace_strong
  by (auto simp: query_request_def checkBoolParam_def ParseForm_def getReqQueries_def get_query_def get_def
      URL_Query_def values_Get_def determineConsistency_def query_settings_def url_request_def Let_def)

lemma route_query:
  assumes "HasPrefix (rq_Path r) ''/query''"
  shows "ServeHTTP x sv ops r s = queryHandler x ops r s"
proof -
  have "rq_Path r ! 1 = p ! 1" if "HasPrefix (rq_Path r) p" "1 < length p" for p
    using that nth_take [of 1 "length p" "rq_Path r"] by (simp add: HasPrefix_def)
  from assms this [of "''/query''"] this [of "''/join''"] this [of "''/leave''"] this [of "''/execute''"]
  show ?thesis by (auto simp: ServeHTTP_def)
qed

text \<open>The same with SQL texts in the body of a POST.\<close>

definition post_query :: "string list \<Rightarrow> bool \<Rightarrow> bool \<Rightarrow> request" where
  "post_query sqls tx strong =
     post ''/query'' (query_string ((if tx then [(''transaction'', '''')] else []) @
       (if strong then [(''consistency'', ''strong'')] else []))) (print_texts sqls)"

definition body_request :: "string list \<Rightarrow> bool \<Rightarrow> Request" where
  "body_request sqls tx =
     \<lparr>req_Transaction = tx, req_Statements = map (\<lambda>s. \<lparr>stmt_Sql = s, stmt_Params = []\<rparr>) sqls\<rparr>"

lemma query_request_post:
  assumes "sqls \<noteq> []" and "\<forall>s \<in> set sqls. utf8 s"
  shows "query_request x (post_query sqls tx strong) =
    Inr \<lparr>qreq_Request = Some (body_request sqls tx), qreq_StrongConsistency = strong\<rparr>"
proof -
  let ?kvs = "(if tx then [(''transaction'', '''')] else []) @ (if strong then [(''consistency'', ''strong'')] else [])"
  have "ParseQuery (query_string ?kvs) = (?kvs, False)" by (rule ParseQuery_escaped) auto
  moreover have "parseStatements pf ord (print_texts sqls) = Inr (req_Statements (body_request sqls tx))" for pf ord
    using parse_texts [OF assms(2)] assms(1) by (simp add: parseStatements_def body_request_def)
  ultimately show ?thesis
    using TrimSpace_strong
    by (auto simp: query_request_def checkBoolParam_def ParseForm_def parse_post_form_def getReqQueries_def
        post_query_def post_def URL_Query_def values_Get_def determineConsistency_def body_request_def)
qed

text \<open>The two ways of a query to the handler, and the request it carries.\<close>

inductive carries :: "request \<Rightarrow> Request \<Rightarrow> bool \<Rightarrow> bool" where
  in_url: "TrimSpace sql \<noteq> '''' \<Longrightarrow> carries (get_query sql tx strong) (url_request sql tx) strong"
| in_body:
    "sqls \<noteq> [] \<Longrightarrow> \<forall>s \<in> set sqls. utf8 s \<Longrightarrow> carries (post_query sqls tx strong) (body_request sqls tx) strong"

lemma carries_request:
  assumes "carries r req strong"
  shows "query_request x r = Inr \<lparr>qreq_Request = Some req, qreq_StrongConsistency = strong\<rparr>"
    and "HasPrefix (rq_Path r) ''/query''" and "no_nil_params req"
proof -
  from assms show "query_request x r = Inr \<lparr>qreq_Request = Some req, qreq_StrongConsistency = strong\<rparr>"
    by cases (simp_all add: query_request_get query_request_post)
  from assms show "HasPrefix (rq_Path r) ''/query''"
    by cases (simp_all add: get_query_def get_def post_query_def post_def HasPrefix_def)
  from assms show "no_nil_params req"
    by cases (auto simp: url_request_def body_request_def no_nil_params_def)
qed

section \<open>A query's answer\<close>

text \<open>What the client makes of an answer: the results, given the types of their cells.\<close>

definition reads_results :: "(string \<Rightarrow> float64 option) \<Rightarrow> response \<Rightarrow> QueryRes list \<Rightarrow> bool" where
  "reads_results pf resp qs \<longleftrightarrow>
     rs_Status resp = 200 \<and> rs_ContentType resp = Some json_type \<and>
     (\<exists>j. parse_json (rs_Body resp) = Some (JObj [(''results'', j)]) \<and>
        map client_view (client_queries pf (map (\<lambda>q. query_shape (convertQueryRes q)) qs) j) = map query_view qs)"

lemma query_response:
  assumes "float_laws (x_FormatFloat x) pf" and "\<forall>q \<in> set qs. result_ok (x_FormatFloat x) (convertQueryRes q)"
  shows "reads_results pf
    (writeResponse x \<lparr>dr_Results = \<lparr>db_ExecRes = None, db_QueryRes = Some qs\<rparr>, dr_Error = ''''\<rparr>) qs"
proof -
  let ?d = "\<lparr>dr_Results = \<lparr>db_ExecRes = None, db_QueryRes = Some qs\<rparr>, dr_Error = ''''\<rparr>"
  obtain j where j: "proto_json (x_FormatFloat x) (PQueryRess qs) = Inr j" "jplain j" "jdepth j \<le> 4"
    "client_queries pf (map (\<lambda>q. query_shape (convertQueryRes q)) qs) j = map convertQueryRes qs"
    using query_results_json [OF assms] by blast
  have "MarshalJSON x (dr_Results ?d) = Inr (print_json False j)"
    using j(1) by (simp add: MarshalJSON_def ProtoToJSON_def)
  moreover have "jdepth j < max_depth" using j(3) by (simp add: max_depth_def)
  ultimately show ?thesis
    using response_reads [of ?d x j] j(2,4) by (auto simp: reads_results_def client_view_convert)
qed

text \<open>A store that answers a query without an error.\<close>

lemma queried:
  assumes "float_laws (x_FormatFloat x) pf" and "\<forall>q \<in> set qs. result_ok (x_FormatFloat x) (convertQueryRes q)"
    and "carries r req strong"
    and "st_Query ops \<lparr>qreq_Request = Some req, qreq_StrongConsistency = strong\<rparr> s = Ret ((Some qs, None), s')"
  shows "\<exists>resp. ServeHTTP x sv ops r s = Ret (resp, s') \<and> reads_results pf resp qs"
  using query_response [OF assms(1,2)] carries_request(1,2) [OF assms(3)] assms(4)
  by (simp add: route_query queryHandler_def)

text \<open>A strong query on the leader.\<close>

lemma strong_queried:
  assumes "pb_laws (e_pb env)" and "IsLeader env c" and "carries r req True"
    and q: "q = \<lparr>qreq_Request = Some req, qreq_StrongConsistency = True\<rparr>"
    and "pb_Marshal_QueryReq (e_pb env) q = Inr b"
    and "pb_Marshal_Action (e_pb env) \<lparr>act_Type = Action_ACTION_QUERY, act_Body = b\<rparr> = Inr d"
    and "rf_Apply (e_raft env) d (c_raft c) = (Inr (earlier, idx), r')"
    and "apply_entries env earlier (c\<lparr>c_raft := r'\<rparr>) = Ret c1"
    and "Engine_Query (e_drv env) (c_db c) req (c_world c1) = (Ret (Some qs, None), w')"
    and "float_laws (x_FormatFloat x) pf" and "\<forall>q \<in> set qs. result_ok (x_FormatFloat x) (convertQueryRes q)"
  shows "\<exists>resp. ServeHTTP x sv (consensus_ops env) r c =
      Ret (resp, c\<lparr>c_raft := r', c_lastIdx := idx, c_world := w'\<rparr>) \<and> reads_results pf resp qs"
proof -
  have "Query env q c = Ret ((Some qs, None), c\<lparr>c_raft := r', c_lastIdx := idx, c_world := w'\<rparr>)"
    using Query_committed [OF assms(1) _ _ _ assms(2,5-8), of req] carries_request(3) [OF assms(3)] assms(9) q by simp
  then show ?thesis
    using q by (intro queried [OF assms(10,11,3)]) (simp add: consensus_ops_def)
qed

section \<open>Properties\<close>

text \<open>
  (C8) A strongly consistent query, end to end: a client sends SQL either as one text escaped
  into the query string of a GET or as a JSON array of texts in the body of a POST, with or
  without a transaction. When the leader gets it, what is marshalled for raft are exactly
  those texts (for a GET, without the white space around it); once raft commits the entry,
  the engine runs them on the database left by the earlier entries; the client gets a 200
  with valid JSON from which it reads back the engine's results, and of the node only raft's
  state, the applied index and the world have moved.
\<close>
theorem http_strong_query_end_to_end:
  assumes "pb_laws (e_pb env)" and "IsLeader env c" and "carries r req True"
    and q: "q = \<lparr>qreq_Request = Some req, qreq_StrongConsistency = True\<rparr>"
    and "pb_Marshal_QueryReq (e_pb env) q = Inr b"
    and "pb_Marshal_Action (e_pb env) \<lparr>act_Type = Action_ACTION_QUERY, act_Body = b\<rparr> = Inr d"
    and "rf_Apply (e_raft env) d (c_raft c) = (Inr (earlier, idx), r')"
    and "apply_entries env earlier (c\<lparr>c_raft := r'\<rparr>) = Ret c1"
    and "Engine_Query (e_drv env) (c_db c) req (c_world c1) = (Ret (Some qs, None), w')"
    and "float_laws (x_FormatFloat x) pf" and "\<forall>q \<in> set qs. result_ok (x_FormatFloat x) (convertQueryRes q)"
  shows "\<exists>resp. ServeHTTP x sv (consensus_ops env) r c =
      Ret (resp, c\<lparr>c_raft := r', c_lastIdx := idx, c_world := w'\<rparr>) \<and> reads_results pf resp qs"
  using assms by (rule strong_queried)

lemma sample_url_request: "url_request ''SELECT 1'' tx = sample_request tx [''SELECT 1'']" "TrimSpace ''SELECT 1'' \<noteq> ''''"
proof -
  have "TrimSpace ''SELECT 1'' = ''SELECT 1''" by (rule TrimSpace_ascii) (simp_all add: ascii_def IsSpace_def)
  then show "url_request ''SELECT 1'' tx = sample_request tx [''SELECT 1'']" "TrimSpace ''SELECT 1'' \<noteq> ''''"
    by (simp_all add: url_request_def sample_request_def)
qed

definition sample_answer :: "string list \<Rightarrow> QueryRes" where
  "sample_answer rows =
     \<lparr>qres_Columns = [''stmt''], qres_Types = [''text''],
      qres_Values = map (\<lambda>s. Some \<lparr>vals_Params = Some [Some (new_Parameter (Parameter_S s))]\<rparr>) rows, qres_Error = ''''\<rparr>"

lemma sample_answer_ok: "list_all ascii rows \<Longrightarrow> result_ok ff (convertQueryRes (sample_answer rows))"
  by (induction rows)
    (auto simp: result_ok_def sample_answer_def convertQueryRes_def convertValues_def new_Parameter_def ascii_def)

theorem http_strong_query_end_to_end_witness:
  "let q = sample_strong [''SELECT 1''] in
   \<exists>resp c'. ServeHTTP sample_svc sample_service (consensus_ops (sample_env [] [q]))
       (get_query ''SELECT 1'' False True) (sample_node [''I0'']) = Ret (resp, c') \<and>
     c_lastIdx c' = 1 \<and> reads_results (\<lambda>_. None) resp [sample_answer [''I0'']]"
proof -
  let ?q = "sample_strong [''SELECT 1'']" and ?u = "url_request ''SELECT 1'' False"
  let ?env = "sample_env [] [?q]" and ?c = "sample_node [''I0'']"
  let ?r' = "(c_raft ?c)\<lparr>sr_next := 2\<rparr>"
  let ?x = "Engine_Query (e_drv ?env) (c_db ?c) ?u (c_world (?c\<lparr>c_raft := ?r'\<rparr>))"
  note laws = sample_commit(1) [OF sample_env_parts] and ld = sample_commit(2) [OF sample_env_parts]
    and m = sample_commit_query [OF sample_env_parts(1)] and ap = sample_commit(3) [OF sample_env_parts]
  have q: "?q = \<lparr>qreq_Request = Some ?u, qreq_StrongConsistency = True\<rparr>"
    by (simp add: sample_strong_def sample_url_request)
  have "fst ?x = Ret (Some [sample_answer [''I0'']], None)"
    unfolding sample_url_request by code_simp
  then have x: "?x = (Ret (Some [sample_answer [''I0'']], None), snd ?x)" by (simp add: prod_eq_iff)
  have fl: "float_laws (x_FormatFloat sample_svc) (\<lambda>_. None)" by (simp add: float_laws_def sample_svc_def)
  from http_strong_query_end_to_end [OF laws ld in_url [OF sample_url_request(2)] q m ap apply_entries.simps(1) x fl] sample_answer_ok [of "[''I0'']"]
  show ?thesis by (fastforce simp: Let_def ascii_def)
qed

text \<open>
  (C9) A weak query, in a URL or in a body, is answered by the node that gets it, leader or not:
  the engine runs the SQL on the node's own database, the client reads back the engine's results, the
  content of the database is what it was, and raft and the applied index are not touched.
\<close>
theorem http_weak_query_end_to_end:
  assumes "carries r req False"
    and "Engine_Query (e_drv env) (c_db c) req (c_world c) = (Ret (Some qs, None), w')"
    and "sqlite_read_laws (e_drv env) (db_dsn (eng_readDB (c_db c))) content"
    and "float_laws (x_FormatFloat x) pf" and "\<forall>q \<in> set qs. result_ok (x_FormatFloat x) (convertQueryRes q)"
  shows "(\<exists>resp. ServeHTTP x sv (consensus_ops env) r c = Ret (resp, c\<lparr>c_world := w'\<rparr>) \<and>
      reads_results pf resp qs) \<and> content w' = content (c_world c)"
proof -
  let ?q = "\<lparr>qreq_Request = Some req, qreq_StrongConsistency = False\<rparr>"
  have "Query env ?q c = Ret ((Some qs, None), c\<lparr>c_world := w'\<rparr>)" using assms(2) by (simp add: Query_def)
  then have "\<exists>resp. ServeHTTP x sv (consensus_ops env) r c = Ret (resp, c\<lparr>c_world := w'\<rparr>) \<and>
      reads_results pf resp qs"
    by (intro queried [OF assms(4,5,1)]) (simp add: consensus_ops_def)
  with Engine_Query_content [OF assms(3), of req "c_world c"] assms(2) show ?thesis by simp
qed

theorem http_weak_query_end_to_end_witness:
  "let env = (sample_env [] [])\<lparr>e_drv := sample_reader\<rparr> in
   \<exists>resp c'. ServeHTTP sample_svc sample_service (consensus_ops env)
       (get_query ''SELECT 1'' False False) (sample_follower [''I0'']) = Ret (resp, c') \<and>
     sm_base (conns (c_world c')) = [''I0''] \<and> reads_results (\<lambda>_. None) resp [sample_answer [''I0'']]"
proof -
  let ?u = "url_request ''SELECT 1'' False"
  let ?env = "(sample_env [] [])\<lparr>e_drv := sample_reader\<rparr>" and ?c = "sample_follower [''I0'']"
  let ?x = "Engine_Query (e_drv ?env) (c_db ?c) ?u (c_world ?c)"
  have "fst ?x = Ret (Some [sample_answer [''I0'']], None)" unfolding sample_url_request by code_simp
  then have x: "?x = (Ret (Some [sample_answer [''I0'']], None), snd ?x)" by (simp add: prod_eq_iff)
  have rl: "sqlite_read_laws (e_drv ?env) (db_dsn (eng_readDB (c_db ?c))) (\<lambda>w. sm_base (conns w))"
    by (simp add: sample_read_laws)
  have fl: "float_laws (x_FormatFloat sample_svc) (\<lambda>_. None)" by (simp add: float_laws_def sample_svc_def)
  have "sm_base (conns (c_world ?c)) = [''I0'']" by code_simp
  with http_weak_query_end_to_end [OF in_url [OF sample_url_request(2)] x rl fl] sample_answer_ok [of "[''I0'']"]
  show ?thesis by (fastforce simp: Let_def ascii_def)
qed

end
