(* ===== verification/Cluster.thy ===== *)
theory Cluster
  imports Frontend Replication
begin

text \<open>
  Several nodes behind their HTTP fronts, joined by raft. The locale \<open>logged_store\<close> is the
  contract by which the front relies on a store whose changes go through a log: a call
  either commits an entry, and then the store has run the log up to and with that entry, or
  it is quiet. Whatever request comes in, the front keeps to one of the two; the consensus
  node provides the contract.

  A cluster is the nodes, how much of the log each has applied, and the committed log. Its
  steps interleave requests to any node, raft handing the next entry to a node, raft
  committing an entry on its own account, and raft's state changing underneath. What raft
  promises is in the premises of the steps: entries are applied in the order of one log, and
  the answer to a committed call comes after all the entries before it were applied.
\<close>

section \<open>A store with a log\<close>

text \<open>
  The entry that a request hands to the log, given the entries that the store's own calls
  hand to it.
\<close>

definition http_log ::
  "svcenv \<Rightarrow> (Request \<Rightarrow> 's \<Rightarrow> 'l option) \<Rightarrow> (QueryReq \<Rightarrow> 's \<Rightarrow> 'l option) \<Rightarrow> request \<Rightarrow> 's \<Rightarrow> 'l option" where
  "http_log x exec_log query_log r s =
     (if HasPrefix (rq_Path r) ''/execute'' then
        (case rq_Body r of
          Inl _ \<Rightarrow> None
        | Inr b \<Rightarrow>
            (case parseStatements (x_ParseFloat x) (x_order x) b of
              Inl _ \<Rightarrow> None
            | Inr stmts \<Rightarrow> exec_log \<lparr>req_Transaction = False, req_Statements = stmts\<rparr> s))
      else if HasPrefix (rq_Path r) ''/query'' then
        (case query_request x r of Inl _ \<Rightarrow> None | Inr q \<Rightarrow> query_log q s)
      else None)"

fun outcome :: "('l \<Rightarrow> 's \<Rightarrow> 's \<Rightarrow> bool) \<Rightarrow> ('s \<Rightarrow> 's \<Rightarrow> bool) \<Rightarrow> 'l option \<Rightarrow> 's \<Rightarrow> 's \<Rightarrow> bool" where
  "outcome run quiet None s s' = quiet s s'"
| "outcome run quiet (Some l) s s' = run l s s'"

locale logged_store =
  fixes ops :: "'s StoreOps"
    and run :: "'l \<Rightarrow> 's \<Rightarrow> 's \<Rightarrow> bool"
    and quiet :: "'s \<Rightarrow> 's \<Rightarrow> bool"
    and exec_log :: "Request \<Rightarrow> 's \<Rightarrow> 'l option"
    and query_log :: "QueryReq \<Rightarrow> 's \<Rightarrow> 'l option"
  assumes quiet_refl: "quiet s s"
    and exec_logged: "st_Exec ops req s = Ret (out, s') \<Longrightarrow> outcome run quiet (exec_log req s) s s'"
    and query_logged: "st_Query ops q s = Ret (qout, s') \<Longrightarrow> outcome run quiet (query_log q s) s s'"
    and join_quiet: "st_Join ops i a s = (e, s') \<Longrightarrow> quiet s s'"
    and leave_quiet: "st_Leave ops i s = (e, s') \<Longrightarrow> quiet s s'"
    and metrics_quiet: "st_Metrics ops s = Ret (m, s') \<Longrightarrow> quiet s s'"
begin

lemma execHandler_logged:
  assumes "HasPrefix (rq_Path r) ''/execute''" and "execHandler x ops r s = Ret (resp, s')"
  shows "outcome run quiet (http_log x exec_log query_log r s) s s'"
  using assms exec_logged quiet_refl
  by (auto simp: execHandler_def http_log_def split: sum.splits option.splits if_splits)

lemma queryHandler_logged:
  assumes "HasPrefix (rq_Path r) ''/query''" and "\<not> HasPrefix (rq_Path r) ''/execute''"
    and "queryHandler x ops r s = Ret (resp, s')"
  shows "outcome run quiet (http_log x exec_log query_log r s) s s'"
  using assms query_logged quiet_refl
  by (auto simp: queryHandler_def http_log_def split: sum.splits option.splits if_splits)

lemma join_handler_quiet: "join_handler x ops r s = Ret (resp, s') \<Longrightarrow> quiet s s'"
  using quiet_refl join_quiet [OF prod.collapse [symmetric]]
  by (auto simp: join_handler_def case_prod_unfold split: sum.splits option.splits if_splits)

lemma leave_handler_quiet: "leave_handler x ops r s = Ret (resp, s') \<Longrightarrow> quiet s s'"
  using quiet_refl leave_quiet [OF prod.collapse [symmetric]]
  by (auto simp: leave_handler_def case_prod_unfold split: sum.splits option.splits if_splits)

lemma metricHandler_quiet: "metricHandler x ops r s = Ret (resp, s') \<Longrightarrow> quiet s s'"
  using quiet_refl metrics_quiet
  by (cases "st_Metrics ops s") (auto simp: metricHandler_def split: sum.splits if_splits)

lemma request_logged:
  assumes "ServeHTTP x sv ops r s = Ret (resp, s')"
  shows "outcome run quiet (http_log x exec_log query_log r s) s s'"
proof -
  consider "HasPrefix (rq_Path r) ''/execute''" | "HasPrefix (rq_Path r) ''/query''" "\<not> HasPrefix (rq_Path r) ''/execute''"
    | (other) "\<not> HasPrefix (rq_Path r) ''/query''" "\<not> HasPrefix (rq_Path r) ''/execute''"
    by blast
  then show ?thesis
  proof cases
    case other
    then have "quiet s s'"
      using assms quiet_refl
      by (auto simp: ServeHTTP_def split: if_splits intro: join_handler_quiet leave_handler_quiet metricHandler_quiet)
    with other show ?thesis by (simp add: http_log_def)
  qed (use assms route_execute route_query execHandler_logged queryHandler_logged in metis)+
qed

end

section \<open>The node as a store with a log\<close>

text \<open>
  What raft commits for a call: the entries it applies before, the entry of the call, and
  its own new state.
\<close>

definition raft_commit :: "('c, 'r) env \<Rightarrow> bytes \<Rightarrow> ('c, 'r) Consensus \<Rightarrow> (raftLog list \<times> raftLog \<times> 'r) option" where
  "raft_commit env data c =
     (case rf_Apply (e_raft env) data (c_raft c) of
        (Inl _, _) \<Rightarrow> None
      | (Inr (earlier, idx), r') \<Rightarrow> Some (earlier, \<lparr>log_Index = idx, log_Data = data\<rparr>, r'))"

definition cmd_commit ::
  "('c, 'r) env \<Rightarrow> Action_Type \<Rightarrow> goerr + bytes \<Rightarrow> ('c, 'r) Consensus \<Rightarrow> (raftLog list \<times> raftLog \<times> 'r) option" where
  "cmd_commit env ty marshalled c =
     (if \<not> IsLeader env c then None
      else (case marshalled of
        Inl _ \<Rightarrow> None
      | Inr b \<Rightarrow>
          (case pb_Marshal_Action (e_pb env) \<lparr>act_Type = ty, act_Body = b\<rparr> of
            Inl _ \<Rightarrow> None
          | Inr d \<Rightarrow> raft_commit env d c)))"

definition exec_commit :: "('c, 'r) env \<Rightarrow> Request \<Rightarrow> ('c, 'r) Consensus \<Rightarrow> (raftLog list \<times> raftLog \<times> 'r) option" where
  "exec_commit env req = cmd_commit env Action_ACTION_EXECUTE (pb_Marshal_Request (e_pb env) req)"

definition query_commit :: "('c, 'r) env \<Rightarrow> QueryReq \<Rightarrow> ('c, 'r) Consensus \<Rightarrow> (raftLog list \<times> raftLog \<times> 'r) option" where
  "query_commit env q c =
     (if qreq_StrongConsistency q
      then cmd_commit env Action_ACTION_QUERY (pb_Marshal_QueryReq (e_pb env) q) c else None)"

definition node_run :: "('c, 'r) env \<Rightarrow> raftLog list \<times> raftLog \<times> 'r \<Rightarrow> ('c, 'r) Consensus \<Rightarrow> ('c, 'r) Consensus \<Rightarrow> bool" where
  "node_run env l c c' \<longleftrightarrow>
     (case l of (earlier, rec, r') \<Rightarrow> apply_entries env (earlier @ [rec]) (c\<lparr>c_raft := r'\<rparr>) = Ret c')"

definition node_quiet :: "('c, 'r) env \<Rightarrow> ('c, 'v) sqlspec \<Rightarrow> ('c, 'r) Consensus \<Rightarrow> ('c, 'r) Consensus \<Rightarrow> bool" where
  "node_quiet env sp c c' \<longleftrightarrow>
     c' = c\<lparr>c_raft := c_raft c', c_world := c_world c'\<rparr> \<and>
     (readable_node env (\<lambda>w. (sp_base sp w, sp_intx sp w)) c \<longrightarrow>
        sp_base sp (c_world c') = sp_base sp (c_world c) \<and> sp_intx sp (c_world c') = sp_intx sp (c_world c))"

lemma raft_Apply_logged:
  assumes "raft_Apply env d c = Ret (out, c')"
  shows "outcome (node_run env) (\<lambda>c c'. \<exists>r'. c' = c\<lparr>c_raft := r'\<rparr>) (raft_commit env d c) c c'"
proof (cases "rf_Apply (e_raft env) d (c_raft c)")
  case (Pair res r')
  show ?thesis
  proof (cases res)
    case (Inr p)
    with assms Pair show ?thesis
      by (cases p; cases "apply_entries env (fst p) (c\<lparr>c_raft := r'\<rparr>)")
        (auto simp: raft_Apply_def raft_commit_def node_run_def apply_entries_append split: prod.splits go.splits)
  qed (use assms Pair in \<open>auto simp: raft_Apply_def raft_commit_def\<close>)
qed

lemma node_quiet_raft: "node_quiet env sp c (c\<lparr>c_raft := r'\<rparr>)"
  by (cases c) (simp add: node_quiet_def)

lemma outcome_mono:
  "outcome run quiet k s s' \<Longrightarrow> (quiet s s' \<Longrightarrow> quiet' s s') \<Longrightarrow> outcome run quiet' k s s'"
  by (cases k) simp_all

lemma raft_Apply_outcome:
  "raft_Apply env d c = Ret (out, c') \<Longrightarrow> outcome (node_run env) (node_quiet env sp) (raft_commit env d c) c c'"
  by (drule raft_Apply_logged, erule outcome_mono) (auto simp: node_quiet_raft)

lemma node_quiet_refl: "node_quiet env sp c c"
  by (cases c) (simp add: node_quiet_def)

lemma node_quiet_world:
  assumes "c' = c\<lparr>c_world := c_world c'\<rparr>"
    and "readable_node env (\<lambda>w. (sp_base sp w, sp_intx sp w)) c \<Longrightarrow>
      (sp_base sp (c_world c'), sp_intx sp (c_world c')) = (sp_base sp (c_world c), sp_intx sp (c_world c))"
  shows "node_quiet env sp c c'"
proof -
  have "c_raft c' = c_raft c" using arg_cong [OF assms(1), of c_raft] by simp
  with assms(1) have "c' = c\<lparr>c_raft := c_raft c', c_world := c_world c'\<rparr>" by (cases c; cases c') simp
  with assms(2) show ?thesis by (simp add: node_quiet_def)
qed

lemma apply_cmd_outcome:
  assumes "apply_cmd env ty m c = Ret (out, c')" and "IsLeader env c"
  shows "outcome (node_run env) (node_quiet env sp) (cmd_commit env ty m c) c c'"
  using assms node_quiet_refl
  by (auto simp: apply_cmd_def cmd_commit_def simp del: go_bind_Ret_iff elim!: go_bind_RetE
      split: sum.splits fsmResp.splits intro: raft_Apply_outcome)

lemma Exec_outcome:
  assumes "Exec env req c = Ret (out, c')"
  shows "outcome (node_run env) (node_quiet env sp) (exec_commit env req c) c c'"
  using assms node_quiet_refl
  by (auto simp: Exec_def exec_commit_def simp del: go_bind_Ret_iff elim!: go_bind_RetE
      split: sum.splits fsmResp.splits if_splits intro: apply_cmd_outcome) (simp add: cmd_commit_def)

lemma Query_outcome:
  assumes "Query env q c = Ret (out, c')"
  shows "outcome (node_run env) (node_quiet env sp) (query_commit env q c) c c'"
proof (cases "qreq_StrongConsistency q")
  case True
  with assms node_quiet_refl show ?thesis
    by (auto simp: Query_def query_commit_def cmd_commit_def simp del: go_bind_Ret_iff elim!: go_bind_RetE
        split: sum.splits fsmResp.splits if_splits intro: raft_Apply_outcome)
next
  case False
  from assms False obtain req where req: "qreq_Request q = Some req"
    by (auto simp: Query_def split: option.splits)
  with assms False have "c' = c\<lparr>c_world := c_world c'\<rparr>"
    by (auto simp: Query_def split: prod.splits go.splits)
  moreover note Query_weak_world [OF _ False assms, of "\<lambda>w. (sp_base sp w, sp_intx sp w)"]
  ultimately show ?thesis using False by (auto simp: query_commit_def intro: node_quiet_world)
qed

lemma Metrics_quiet:
  assumes "Metrics env c = Ret (m, c')"
  shows "node_quiet env sp c c'"
proof -
  have "c' = c\<lparr>c_world := c_world c'\<rparr>"
    using assms by (auto simp: Metrics_def split: prod.splits go.splits option.splits)
  with Metrics_world [OF _ assms, of "\<lambda>w. (sp_base sp w, sp_intx sp w)"] show ?thesis
    by (intro node_quiet_world) auto
qed

interpretation nl: logged_store "consensus_ops env" "node_run env" "node_quiet env sp" "exec_commit env" "query_commit env"
  for env :: "('c, 'r) env" and sp :: "('c, 'v) sqlspec"
  by unfold_locales
    (auto simp: consensus_ops_def Join_def Leave_def node_quiet_refl node_quiet_raft
      intro: Exec_outcome Query_outcome Metrics_quiet split: if_splits prod.splits option.splits)

section \<open>The cluster\<close>

record ('n, 'c, 'r) cluster =
  cl_node :: "'n \<Rightarrow> ('c, 'r) Consensus"
  cl_applied :: "'n \<Rightarrow> nat"
  cl_log :: "raftLog list"    \<comment> \<open>what raft has committed\<close>

text \<open>
  \<open>envs\<close> are the nodes' environments, \<open>x\<close> and \<open>sv\<close> their fronts, and \<open>adm\<close> says which entries
  are considered (those whose statements are plain).

  \<^item> \<open>deliver\<close>: raft hands a node the next entry.
  \<^item> \<open>raft_moves\<close>: elections, heartbeats, membership.
  \<^item> \<open>raft_commits\<close>: an entry is committed whose call has had an error or no answer.
  \<^item> \<open>quiet_request\<close>: a request whose handling commits nothing.
  \<^item> \<open>logged_request\<close>: a request for which raft commits an entry; the node has by then
    applied everything before it.
\<close>

inductive cluster_step ::
  "('n \<Rightarrow> ('c, 'r) env) \<Rightarrow> ('n \<Rightarrow> svcenv) \<Rightarrow> ('n \<Rightarrow> Service) \<Rightarrow> (raftLog \<Rightarrow> bool) \<Rightarrow>
     ('n, 'c, 'r) cluster \<Rightarrow> ('n, 'c, 'r) cluster \<Rightarrow> bool"
  for envs x sv adm where
  deliver:
    "cl_applied S n < length (cl_log S) \<Longrightarrow> apply_step (envs n) (cl_log S ! cl_applied S n) (cl_node S n) = Ret c' \<Longrightarrow>
     cluster_step envs x sv adm S
       (S\<lparr>cl_node := (cl_node S)(n := c'), cl_applied := (cl_applied S)(n := Suc (cl_applied S n))\<rparr>)"
| raft_moves:
    "cluster_step envs x sv adm S (S\<lparr>cl_node := (cl_node S)(n := (cl_node S n)\<lparr>c_raft := r'\<rparr>)\<rparr>)"
| raft_commits: "adm rec \<Longrightarrow> cluster_step envs x sv adm S (S\<lparr>cl_log := cl_log S @ [rec]\<rparr>)"
| quiet_request:
    "ServeHTTP (x n) (sv n) (consensus_ops (envs n)) r (cl_node S n) = Ret (resp, c') \<Longrightarrow>
     http_log (x n) (exec_commit (envs n)) (query_commit (envs n)) r (cl_node S n) = None \<Longrightarrow>
     cluster_step envs x sv adm S (S\<lparr>cl_node := (cl_node S)(n := c')\<rparr>)"
| logged_request:
    "ServeHTTP (x n) (sv n) (consensus_ops (envs n)) r (cl_node S n) = Ret (resp, c') \<Longrightarrow>
     http_log (x n) (exec_commit (envs n)) (query_commit (envs n)) r (cl_node S n) = Some (earlier, rec, r') \<Longrightarrow>
     earlier = drop (cl_applied S n) (cl_log S) \<Longrightarrow> adm rec \<Longrightarrow>
     cluster_step envs x sv adm S
       (S\<lparr>cl_node := (cl_node S)(n := c'), cl_applied := (cl_applied S)(n := Suc (length (cl_log S))),
          cl_log := cl_log S @ [rec]\<rparr>)"

inductive_cases cluster_stepE: "cluster_step envs x sv adm S S'"

inductive cluster_reach for envs x sv adm S0 where
  start: "cluster_reach envs x sv adm S0 S0"
| step: "cluster_reach envs x sv adm S0 S \<Longrightarrow> cluster_step envs x sv adm S S' \<Longrightarrow> cluster_reach envs x sv adm S0 S'"

text \<open>All nodes give an entry the same effect.\<close>

definition same_sql ::
  "('n \<Rightarrow> ('c, 'r) env) \<Rightarrow> ('n \<Rightarrow> ('c, 'v) sqlspec) \<Rightarrow> ('v \<Rightarrow> string \<Rightarrow> NamedArg list \<Rightarrow> bool) \<Rightarrow>
     (raftLog \<Rightarrow> bool) \<Rightarrow> (raftLog \<Rightarrow> 'v \<Rightarrow> 'v) \<Rightarrow> bool" where
  "same_sql envs sps refuses adm eff \<longleftrightarrow>
     (\<forall>n. (\<forall>rec. adm rec \<longrightarrow> plain_entry (e_pb (envs n)) (sps n) rec) \<and>
          entry_effect (e_pb (envs n)) refuses (sp_sem (sps n)) = eff)"

text \<open>A node that has applied the first \<open>k\<close> entries of a log to the content \<open>v\<close>.\<close>

definition replica_at ::
  "('c, 'r) env \<Rightarrow> ('c, 'v) sqlspec \<Rightarrow> ('v \<Rightarrow> string \<Rightarrow> NamedArg list \<Rightarrow> bool) \<Rightarrow> (raftLog \<Rightarrow> 'v \<Rightarrow> 'v) \<Rightarrow> 'v \<Rightarrow>
     raftLog list \<Rightarrow> nat \<Rightarrow> ('c, 'r) Consensus \<Rightarrow> bool" where
  "replica_at env sp refuses eff v recs k c \<longleftrightarrow>
     good_replica env sp refuses c \<and> k \<le> length recs \<and> node_content sp c = fold eff (take k recs) v \<and>
     (0 < k \<longrightarrow> c_lastIdx c = log_Index (recs ! (k - 1)))"

definition cluster_inv where
  "cluster_inv envs sps refuses adm eff v S \<longleftrightarrow>
     (\<forall>rec \<in> set (cl_log S). adm rec) \<and>
     (\<forall>n. replica_at (envs n) (sps n) refuses eff v (cl_log S) (cl_applied S n) (cl_node S n))"

lemma replica_at_le: "replica_at env sp refuses eff v recs k c \<Longrightarrow> k \<le> length recs"
  by (simp add: replica_at_def)

lemma replica_at_log:
  "replica_at env sp refuses eff v recs k c \<Longrightarrow> replica_at env sp refuses eff v (recs @ [rec]) k c"
  by (auto simp: replica_at_def nth_append)

lemma replica_at_quiet:
  assumes "replica_at env sp refuses eff v recs k c" and "node_quiet env sp c c'"
  shows "replica_at env sp refuses eff v recs k c'"
proof -
  obtain r' w' where c': "c' = c\<lparr>c_raft := r', c_world := w'\<rparr>" using assms(2) unfolding node_quiet_def by metis
  have "readable_node env (\<lambda>w. (sp_base sp w, sp_intx sp w)) c"
    using assms(1) by (simp add: replica_at_def good_replica_def readable_node_def)
  with assms(2) c' have "sp_base sp w' = sp_base sp (c_world c)" "sp_intx sp w' = sp_intx sp (c_world c)"
    by (simp_all add: node_quiet_def)
  with assms(1) c' show ?thesis by (simp add: replica_at_def good_replica_def node_content_def)
qed

text \<open>A node that runs the next entries of the log.\<close>

lemma replica_at_run:
  assumes "replica_at env sp refuses eff v (old @ news @ rest) (length old) c"
    and "\<forall>rec \<in> set news. plain_entry (e_pb env) sp rec" and "entry_effect (e_pb env) refuses (sp_sem sp) = eff"
    and "news \<noteq> []" and "apply_entries env news (c\<lparr>c_raft := r'\<rparr>) = Ret c'"
  shows "replica_at env sp refuses eff v (old @ news @ rest) (length old + length news) c'"
proof -
  have "good_replica env sp refuses (c\<lparr>c_raft := r'\<rparr>)"
    using assms(1) by (simp add: replica_at_def good_replica_def)
  from node.run_law [OF this assms(2)] assms(3,5)
  have "good_replica env sp refuses c'" "node_content sp c' = fold eff news (node_content sp c)"
    by (simp_all add: apply_entries_run_log node_content_def)
  moreover have "last news = (old @ news @ rest) ! (length old + length news - 1)"
    using assms(4) by (cases news) (simp_all add: nth_append last_conv_nth)
  ultimately show ?thesis
    using assms(1,4) apply_entries_frame [OF assms(5)] by (simp add: replica_at_def)
qed

lemma replica_at_commit:
  assumes "same_sql envs sps refuses adm eff" and "cluster_inv envs sps refuses adm eff v S" and "adm rec"
    and "node_run (envs n) (drop (cl_applied S n) (cl_log S), rec, r') (cl_node S n) c'"
  shows "replica_at (envs n) (sps n) refuses eff v (cl_log S @ [rec]) (Suc (length (cl_log S))) c'"
proof -
  let ?k = "cl_applied S n" and ?log = "cl_log S"
  have k: "?k \<le> length ?log" and at: "replica_at (envs n) (sps n) refuses eff v (?log @ [rec]) ?k (cl_node S n)"
    using assms(2) by (auto simp: cluster_inv_def dest: replica_at_le intro: replica_at_log)
  have "\<forall>r \<in> set (drop ?k ?log @ [rec]). adm r"
    using assms(2,3) by (auto simp: cluster_inv_def dest: in_set_dropD)
  then have "\<forall>r \<in> set (drop ?k ?log @ [rec]). plain_entry (e_pb (envs n)) (sps n) r"
    and "entry_effect (e_pb (envs n)) refuses (sp_sem (sps n)) = eff"
    using assms(1) unfolding same_sql_def by blast+
  from replica_at_run [OF _ this, of v "take ?k ?log" "[]" "cl_node S n" r' c'] at k assms(4) show ?thesis
    by (simp add: node_run_def append_assoc [symmetric] del: append_assoc)
qed

lemma replica_at_deliver:
  assumes "same_sql envs sps refuses adm eff" and "cluster_inv envs sps refuses adm eff v S"
    and "cl_applied S n < length (cl_log S)"
    and "apply_step (envs n) (cl_log S ! cl_applied S n) (cl_node S n) = Ret c'"
  shows "replica_at (envs n) (sps n) refuses eff v (cl_log S) (Suc (cl_applied S n)) c'"
proof -
  let ?k = "cl_applied S n" and ?log = "cl_log S" and ?c = "cl_node S n"
  have "\<forall>r \<in> set [?log ! ?k]. plain_entry (e_pb (envs n)) (sps n) r"
    and "entry_effect (e_pb (envs n)) refuses (sp_sem (sps n)) = eff"
    using assms(1-3) by (auto simp: same_sql_def cluster_inv_def)
  moreover have "take ?k ?log @ [?log ! ?k] @ drop (Suc ?k) ?log = ?log" using assms(3) by (simp add: id_take_nth_drop [symmetric])
  moreover have "apply_entries (envs n) [?log ! ?k] (?c\<lparr>c_raft := c_raft ?c\<rparr>) = Ret c'"
    using assms(4) by (simp add: apply_entries_run_log)
  ultimately show ?thesis
    using replica_at_run [of "envs n" "sps n" refuses eff v "take ?k ?log" "[?log ! ?k]" "drop (Suc ?k) ?log" ?c "c_raft ?c" c']
      assms(2,3) by (simp add: cluster_inv_def)
qed

lemma cluster_step_inv:
  assumes "same_sql envs sps refuses adm eff" and "cluster_step envs x sv adm S S'"
    and "cluster_inv envs sps refuses adm eff v S"
  shows "cluster_inv envs sps refuses adm eff v S'"
  using assms(2)
proof cases
  case (deliver n c')
  with replica_at_deliver [OF assms(1,3)] assms(3) show ?thesis by (simp add: cluster_inv_def)
next
  case (raft_moves n r')
  then show ?thesis
    using assms(3) by (auto simp: cluster_inv_def intro: replica_at_quiet [OF _ node_quiet_raft])
next
  case (raft_commits rec)
  then show ?thesis using assms(3) by (auto simp: cluster_inv_def intro: replica_at_log)
next
  case (quiet_request n r resp c')
  then have "node_quiet (envs n) (sps n) (cl_node S n) c'"
    using nl.request_logged [OF quiet_request(2), of "sps n"] by simp
  with quiet_request assms(3) show ?thesis by (auto simp: cluster_inv_def intro: replica_at_quiet)
next
  case (logged_request n r resp c' earlier rec r')
  then have "node_run (envs n) (drop (cl_applied S n) (cl_log S), rec, r') (cl_node S n) c'"
    using nl.request_logged [OF logged_request(2)] by simp
  with replica_at_commit [OF assms(1,3)] logged_request assms(3) show ?thesis
    by (auto simp: cluster_inv_def intro: replica_at_log)
qed

lemma cluster_reach_inv:
  assumes "same_sql envs sps refuses adm eff" and "cluster_inv envs sps refuses adm eff v S0"
  shows "cluster_reach envs x sv adm S0 S \<Longrightarrow> cluster_inv envs sps refuses adm eff v S"
  by (induction rule: cluster_reach.induct) (auto intro: assms cluster_step_inv [OF assms(1)])

section \<open>Properties\<close>

text \<open>A cluster that starts: nothing committed, and databases of one content.\<close>

definition cluster_start where
  "cluster_start envs sps refuses v S \<longleftrightarrow>
     cl_log S = [] \<and>
     (\<forall>n. cl_applied S n = 0 \<and> good_replica (envs n) (sps n) refuses (cl_node S n) \<and>
          node_content (sps n) (cl_node S n) = v)"

lemma cluster_reach_at:
  assumes "same_sql envs sps refuses adm eff" and "cluster_start envs sps refuses v S0"
    and "cluster_reach envs x sv adm S0 S"
  shows "replica_at (envs n) (sps n) refuses eff v (cl_log S) (cl_applied S n) (cl_node S n)"
    and "rec \<in> set (cl_log S) \<Longrightarrow> plain_entry (e_pb (envs n)) (sps n) rec"
proof -
  have "cluster_inv envs sps refuses adm eff v S0"
    using assms(2) by (simp add: cluster_inv_def cluster_start_def replica_at_def)
  from cluster_reach_inv [OF assms(1) this assms(3)]
  show "replica_at (envs n) (sps n) refuses eff v (cl_log S) (cl_applied S n) (cl_node S n)"
    "rec \<in> set (cl_log S) \<Longrightarrow> plain_entry (e_pb (envs n)) (sps n) rec"
    using assms(1) by (auto simp: cluster_inv_def same_sql_def)
qed

text \<open>
  (C2) Every node of a running cluster holds a prefix of one history. However requests to all
  the nodes, entries handed out by raft and changes of leadership interleave, at every
  moment the content of each node's database is the effect of the entries it has applied,
  its applied index is that of the last of them, and of two nodes the one that is ahead has
  the content of the other followed by the effect of the entries between them: nodes that
  have applied equally much agree.
\<close>
theorem cluster_prefix_consistent:
  assumes "same_sql envs sps refuses adm eff" and "cluster_start envs sps refuses v S0"
    and "cluster_reach envs x sv adm S0 S"
  shows "node_content (sps n) (cl_node S n) = fold eff (take (cl_applied S n) (cl_log S)) v \<and>
    (0 < cl_applied S n \<longrightarrow> c_lastIdx (cl_node S n) = log_Index (cl_log S ! (cl_applied S n - 1))) \<and>
    (cl_applied S n \<le> cl_applied S m \<longrightarrow>
       node_content (sps m) (cl_node S m) =
         fold eff (drop (cl_applied S n) (take (cl_applied S m) (cl_log S))) (node_content (sps n) (cl_node S n)))"
proof -
  note at = cluster_reach_at(1) [OF assms, unfolded replica_at_def]
  have "take (cl_applied S m) (cl_log S) =
      take (cl_applied S n) (cl_log S) @ drop (cl_applied S n) (take (cl_applied S m) (cl_log S))"
    if "cl_applied S n \<le> cl_applied S m"
    using that by (metis append_take_drop_id min.absorb1 take_take)
  with at [of n] at [of m] show ?thesis by (metis comp_apply fold_append)
qed

text \<open>Two nodes, a leader (\<open>True\<close>) and a follower, that execute one request.\<close>

definition sample_texts :: "string list" where
  "sample_texts = [''I1'', ''FAIL'', ''I2'']"

definition sample_cluster_env :: "(sample, sraft) env" where
  "sample_cluster_env = replica_env [sample_request False sample_texts] [sample_strong [''SELECT 1'']]"

definition sample_cluster :: "(bool, sample, sraft) cluster" where
  "sample_cluster =
     \<lparr>cl_node = (\<lambda>n. if n then sample_node [''I0''] else sample_follower [''I0'']), cl_applied = (\<lambda>_. 0), cl_log = []\<rparr>"

abbreviation sample_eff :: "raftLog \<Rightarrow> string list \<Rightarrow> string list" where
  "sample_eff \<equiv> entry_effect (e_pb sample_cluster_env) sample_refuses (sp_sem sample_spec)"

lemma sample_cluster_start:
  "same_sql (\<lambda>_. sample_cluster_env) (\<lambda>_. sample_spec) sample_refuses (\<lambda>_. True) sample_eff"
  "cluster_start (\<lambda>_. sample_cluster_env) (\<lambda>_. sample_spec) sample_refuses [''I0''] sample_cluster"
proof -
  show "same_sql (\<lambda>_. sample_cluster_env) (\<lambda>_. sample_spec) sample_refuses (\<lambda>_. True) sample_eff"
    by (simp add: same_sql_def sample_plain_entry)
  have "good_replica sample_cluster_env sample_spec sample_refuses (sample_node [''I0''])"
    "good_replica sample_cluster_env sample_spec sample_refuses (sample_follower [''I0''])"
    unfolding sample_cluster_env_def
    by (rule good_sample_replica; simp add: sample_node_def sample_follower_def sample_world_def)+
  moreover have "node_content sample_spec (sample_node [''I0'']) = [''I0'']"
    "node_content sample_spec (sample_follower [''I0'']) = [''I0'']"
    by code_simp+
  ultimately show "cluster_start (\<lambda>_. sample_cluster_env) (\<lambda>_. sample_spec) sample_refuses [''I0''] sample_cluster"
    by (simp add: cluster_start_def sample_cluster_def)
qed

lemma sample_posted:
  "\<exists>resp c'. ServeHTTP sample_svc sample_service (consensus_ops sample_cluster_env)
       (post ''/execute'' '''' (print_texts sample_texts)) (sample_node [''I0'']) = Ret (resp, c') \<and>
     http_log sample_svc (exec_commit sample_cluster_env) (query_commit sample_cluster_env)
       (post ''/execute'' '''' (print_texts sample_texts)) (sample_node [''I0'']) =
     Some ([], \<lparr>log_Index = 1, log_Data = [1]\<rparr>, (c_raft (sample_node [''I0'']))\<lparr>sr_next := 2\<rparr>)"
proof -
  let ?r = "post ''/execute'' '''' (print_texts sample_texts)" and ?c = "sample_node [''I0'']"
  let ?req = "sample_request False sample_texts"
  have p: "parseStatements pf ord (print_texts sample_texts) = Inr (req_Statements ?req)" for pf ord
    using parse_texts [of sample_texts] by (simp add: parseStatements_def sample_texts_def ascii_def sample_request_def)
  have "(case Exec sample_cluster_env ?req ?c of Ret _ \<Rightarrow> True | Panic _ \<Rightarrow> False)" by code_simp
  then obtain out c' where ex: "Exec sample_cluster_env ?req ?c = Ret (out, c')" by (auto split: go.splits)
  have req: "?req = \<lparr>req_Transaction = False, req_Statements = req_Statements ?req\<rparr>" by (simp add: sample_request_def)
  have "\<exists>resp. ServeHTTP sample_svc sample_service (consensus_ops sample_cluster_env) ?r ?c = Ret (resp, c')"
    using p ex req
    by (cases out; cases "snd out")
      (auto simp: route_execute post_def HasPrefix_def execHandler_def consensus_ops_def split: option.splits)
  moreover have "exec_commit sample_cluster_env ?req ?c =
      Some ([], \<lparr>log_Index = 1, log_Data = [1]\<rparr>, (c_raft ?c)\<lparr>sr_next := 2\<rparr>)"
    by code_simp
  then have "http_log sample_svc (exec_commit sample_cluster_env) (query_commit sample_cluster_env) ?r ?c =
      Some ([], \<lparr>log_Index = 1, log_Data = [1]\<rparr>, (c_raft ?c)\<lparr>sr_next := 2\<rparr>)"
    using p req by (simp add: http_log_def post_def HasPrefix_def)
  ultimately show ?thesis by blast
qed

lemma sample_history:
  "\<exists>S. cluster_reach (\<lambda>_. sample_cluster_env) (\<lambda>_. sample_svc) (\<lambda>_. sample_service) (\<lambda>_. True) sample_cluster S \<and>
     cl_log S = [\<lparr>log_Index = 1, log_Data = [1]\<rparr>] \<and> cl_applied S = (\<lambda>_. 1)"
proof -
  let ?rec = "\<lparr>log_Index = 1, log_Data = [1]\<rparr>" and ?env = sample_cluster_env
  let ?step = "cluster_step (\<lambda>_. ?env) (\<lambda>_. sample_svc) (\<lambda>_. sample_service) (\<lambda>_. True)"
  obtain resp c' where s: "ServeHTTP sample_svc sample_service (consensus_ops ?env)
       (post ''/execute'' '''' (print_texts sample_texts)) (cl_node sample_cluster True) = Ret (resp, c')"
    and l: "http_log sample_svc (exec_commit ?env) (query_commit ?env)
       (post ''/execute'' '''' (print_texts sample_texts)) (cl_node sample_cluster True) =
     Some ([], ?rec, (c_raft (sample_node [''I0'']))\<lparr>sr_next := 2\<rparr>)"
    using sample_posted by (auto simp: sample_cluster_def)
  have ef: "[] = drop (cl_applied sample_cluster True) (cl_log sample_cluster)" by (simp add: sample_cluster_def)
  let ?S1 = "sample_cluster\<lparr>cl_node := (cl_node sample_cluster)(True := c'),
    cl_applied := (cl_applied sample_cluster)(True := Suc (length (cl_log sample_cluster))),
    cl_log := cl_log sample_cluster @ [?rec]\<rparr>"
  have s1: "?step sample_cluster ?S1"
    by (rule cluster_step.logged_request [OF s l ef]) simp
  have "(case apply_step ?env ?rec (sample_follower [''I0'']) of Ret _ \<Rightarrow> True | Panic _ \<Rightarrow> False)" by code_simp
  then obtain f' where "apply_step ?env ?rec (sample_follower [''I0'']) = Ret f'" by (auto split: go.splits)
  then have d: "apply_step ?env (cl_log ?S1 ! cl_applied ?S1 False) (cl_node ?S1 False) = Ret f'"
    "cl_applied ?S1 False < length (cl_log ?S1)"
    by (simp_all add: sample_cluster_def)
  let ?S2 = "?S1\<lparr>cl_node := (cl_node ?S1)(False := f'), cl_applied := (cl_applied ?S1)(False := Suc (cl_applied ?S1 False))\<rparr>"
  have s2: "?step ?S1 ?S2" by (rule cluster_step.deliver [OF d(2,1)])
  have "cl_log ?S2 = [?rec]" "cl_applied ?S2 = (\<lambda>_. 1)" by (auto simp: sample_cluster_def)
  with cluster_reach.step [OF cluster_reach.step [OF cluster_reach.start s1] s2] show ?thesis by blast
qed

theorem cluster_prefix_consistent_witness:
  "\<exists>S. cluster_reach (\<lambda>_. sample_cluster_env) (\<lambda>_. sample_svc) (\<lambda>_. sample_service) (\<lambda>_. True) sample_cluster S \<and>
     node_content sample_spec (cl_node S False) = [''I0'', ''I1'', ''I2''] \<and>
     c_lastIdx (cl_node S False) = 1 \<and>
     node_content sample_spec (cl_node S True) = node_content sample_spec (cl_node S False)"
proof -
  obtain S where S: "cluster_reach (\<lambda>_. sample_cluster_env) (\<lambda>_. sample_svc) (\<lambda>_. sample_service) (\<lambda>_. True) sample_cluster S"
    "cl_log S = [\<lparr>log_Index = 1, log_Data = [1]\<rparr>]" "cl_applied S = (\<lambda>_. 1)"
    using sample_history by blast
  have "sample_eff \<lparr>log_Index = 1, log_Data = [1]\<rparr> [''I0''] = [''I0'', ''I1'', ''I2'']" by code_simp
  with cluster_prefix_consistent [OF sample_cluster_start S(1), of False True] S show ?thesis by auto
qed

text \<open>
  (C3) A strongly consistent read sees every write that the cluster has committed, whichever node
  took it. In every state that a cluster can reach, when the leader answers a strong query
  and raft lets it apply the rest of the log first, as it does, the results the client
  reads are those of the engine on a database whose content is the effect of the whole
  committed log, and the node then holds that content.
\<close>
theorem strong_read_is_current:
  assumes "same_sql envs sps refuses adm eff" and "cluster_start envs sps refuses v S0"
    and "cluster_reach envs x sv adm S0 S"
    and env: "env = envs n" and c: "c = cl_node S n"
    and "pb_laws (e_pb env)" and "IsLeader env c" and "carries r req True"
    and q: "q = \<lparr>qreq_Request = Some req, qreq_StrongConsistency = True\<rparr>"
    and "pb_Marshal_QueryReq (e_pb env) q = Inr b"
    and "pb_Marshal_Action (e_pb env) \<lparr>act_Type = Action_ACTION_QUERY, act_Body = b\<rparr> = Inr d"
    and "rf_Apply (e_raft env) d (c_raft c) = (Inr (drop (cl_applied S n) (cl_log S), idx), r')"
    and run: "apply_entries env (drop (cl_applied S n) (cl_log S)) (c\<lparr>c_raft := r'\<rparr>) = Ret c1"
    and eng: "Engine_Query (e_drv env) (c_db c) req (c_world c1) = (Ret (Some qs, None), w')"
    and "float_laws (x_FormatFloat (x n)) pf" and "\<forall>q \<in> set qs. result_ok (x_FormatFloat (x n)) (convertQueryRes q)"
  shows "\<exists>resp c'. ServeHTTP (x n) (sv n) (consensus_ops env) r c = Ret (resp, c') \<and>
    reads_results pf resp qs \<and> sp_base (sps n) (c_world c1) = fold eff (cl_log S) v \<and>
    node_content (sps n) c' = fold eff (cl_log S) v"
proof -
  let ?log = "cl_log S" and ?k = "cl_applied S n"
  note at = cluster_reach_at [OF assms(1-3), where n = n, folded env c]
  have "good_replica env (sps n) refuses (c\<lparr>c_raft := r'\<rparr>)" "node_content (sps n) c = fold eff (take ?k ?log) v"
    using at(1) by (simp_all add: replica_at_def good_replica_def)
  moreover have "entry_effect (e_pb env) refuses (sp_sem (sps n)) = eff" using assms(1) env by (simp add: same_sql_def)
  moreover have "\<forall>rec \<in> set (drop ?k ?log). plain_entry (e_pb env) (sps n) rec"
    using at(2) by (auto dest: in_set_dropD)
  ultimately have "node_content (sps n) c1 = fold eff (drop ?k ?log) (fold eff (take ?k ?log) v)"
    using node.run_content [OF _ _ run [unfolded apply_entries_run_log], of "sps n" refuses]
    by (simp add: node_content_def)
  then have c1: "sp_base (sps n) (c_world c1) = fold eff ?log v"
    by (metis append_take_drop_id comp_apply fold_append node_content_def)
  have "sqlite_read_laws (e_drv env) (db_dsn (eng_readDB (c_db c))) (\<lambda>w. (sp_base (sps n) w, sp_intx (sps n) w))"
    using at(1) by (simp add: replica_at_def good_replica_def)
  from Engine_Query_content [OF this, of req "c_world c1"] eng c1
  have "sp_base (sps n) w' = fold eff ?log v" by simp
  with c1 strong_queried [OF assms(6-8) q assms(10-13) eng assms(15,16), of "sv n"] show ?thesis
    by (fastforce simp: node_content_def)
qed

text \<open>A new leader, whose first answer comes after an entry that it had not applied yet.\<close>

definition lagging_env :: "(sample, sraft) env" where
  "lagging_env =
     sample_cluster_env\<lparr>e_raft := sample_raft\<lparr>rf_Apply := \<lambda>_ r. (Inr ([\<lparr>log_Index = 1, log_Data = [1]\<rparr>], 2), r)\<rparr>\<rparr>"

lemma lagging_cluster_start:
  "same_sql (\<lambda>_. lagging_env) (\<lambda>_. sample_spec) sample_refuses (\<lambda>_. True) sample_eff"
  "cluster_start (\<lambda>_. lagging_env) (\<lambda>_. sample_spec) sample_refuses [''I0''] sample_cluster"
  using sample_cluster_start
  by (simp_all add: same_sql_def cluster_start_def good_replica_def lagging_env_def)

theorem strong_read_is_current_witness:
  "\<exists>resp c'. ServeHTTP sample_svc sample_service (consensus_ops lagging_env)
       (get_query ''SELECT 1'' False True) (sample_node [''I0'']) = Ret (resp, c') \<and>
     reads_results (\<lambda>_. None) resp [sample_answer [''I0'', ''I1'', ''I2'']] \<and>
     node_content sample_spec c' = [''I0'', ''I1'', ''I2'']"
proof -
  let ?env = lagging_env and ?c = "sample_node [''I0'']" and ?u = "url_request ''SELECT 1'' False"
  let ?rec = "\<lparr>log_Index = 1, log_Data = [1]\<rparr>" and ?q = "sample_strong [''SELECT 1'']"
  let ?S = "sample_cluster\<lparr>cl_log := cl_log sample_cluster @ [?rec]\<rparr>"
  have reach: "cluster_reach (\<lambda>_. ?env) (\<lambda>_. sample_svc) (\<lambda>_. sample_service) (\<lambda>_. True) sample_cluster ?S"
    by (rule cluster_reach.step [OF cluster_reach.start cluster_step.raft_commits]) simp
  have S: "cl_log ?S = [?rec]" "cl_applied ?S True = 0" "?c = cl_node ?S True" by (simp_all add: sample_cluster_def)
  have laws: "pb_laws (e_pb ?env)"
    by (simp add: lagging_env_def sample_cluster_env_def replica_env_def sample_env_def sample_pb_laws)
  have ld: "IsLeader ?env ?c" by code_simp
  have q: "?q = \<lparr>qreq_Request = Some ?u, qreq_StrongConsistency = True\<rparr>"
    by (simp add: sample_strong_def sample_url_request)
  have m: "pb_Marshal_QueryReq (e_pb ?env) ?q = Inr []"
    "pb_Marshal_Action (e_pb ?env) \<lparr>act_Type = Action_ACTION_QUERY, act_Body = []\<rparr> = Inr [0]"
    by code_simp+
  have ap: "rf_Apply (e_raft ?env) [0] (c_raft ?c) = (Inr (drop (cl_applied ?S True) (cl_log ?S), 2), c_raft ?c)"
    using S by (simp add: lagging_env_def)
  have "(case apply_entries ?env [?rec] (?c\<lparr>c_raft := c_raft ?c\<rparr>) of Panic _ \<Rightarrow> False
       | Ret c1 \<Rightarrow> fst (Engine_Query (e_drv ?env) (c_db ?c) (sample_request False [''SELECT 1'']) (c_world c1)) =
           Ret (Some [sample_answer [''I0'', ''I1'', ''I2'']], None))"
    by code_simp
  then obtain c1 w' where run: "apply_entries ?env (drop (cl_applied ?S True) (cl_log ?S)) (?c\<lparr>c_raft := c_raft ?c\<rparr>) = Ret c1"
    and eng: "Engine_Query (e_drv ?env) (c_db ?c) ?u (c_world c1) = (Ret (Some [sample_answer [''I0'', ''I1'', ''I2'']], None), w')"
    unfolding sample_url_request S by (auto simp: prod_eq_iff split: go.splits)
  have fl: "float_laws (x_FormatFloat sample_svc) (\<lambda>_. None)" by (simp add: float_laws_def sample_svc_def)
  have ok: "\<forall>q \<in> set [sample_answer [''I0'', ''I1'', ''I2'']]. result_ok (x_FormatFloat sample_svc) (convertQueryRes q)"
    by (simp add: sample_answer_ok ascii_def)
  have "fold sample_eff (cl_log ?S) [''I0''] = [''I0'', ''I1'', ''I2'']" unfolding S by code_simp
  with strong_read_is_current [OF lagging_cluster_start reach refl S(3) laws ld in_url [OF sample_url_request(2)] q m ap run eng fl ok]
  show ?thesis by auto
qed

end
