(* ===== verification/Progress.thy ===== *)
theory Progress
  imports Cluster
begin

text \<open>
  A cluster from its start on: nodes that \<open>NewDB\<close> opened are replicas that have applied
  nothing, and a cluster can always catch up. From every state that it can reach, raft's
  handing out the entries that are missing brings all nodes to the effect of the whole log,
  as long as no entry makes the state machine panic; writes never do.
\<close>

section \<open>A started node\<close>

text \<open>Where \<open>setupDB\<close> puts the database of a data directory.\<close>

definition db_file :: "('c, 'r) env \<Rightarrow> string \<Rightarrow> string" where
  "db_file env dataDir = e_join env [e_join env [dataDir, ''db''], ''sqlite.db'']"

text \<open>
  What is asked of the driver on that file; and that making a directory does not change the
  content of a database.
\<close>

definition node_laws ::
  "('c, 'r) env \<Rightarrow> string \<Rightarrow> ('c, 'v) sqlspec \<Rightarrow> ('v \<Rightarrow> string \<Rightarrow> NamedArg list \<Rightarrow> bool) \<Rightarrow> bool" where
  "node_laws env dataDir sp refuses \<longleftrightarrow>
     sqlite_tx_laws (e_drv env) (''file:'' @ db_file env dataDir) sp \<and>
     law_determined (e_drv env) (''file:'' @ db_file env dataDir) sp refuses \<and>
     law_available (e_drv env) (''file:'' @ db_file env dataDir) \<and>
     sqlite_read_laws (e_drv env) (''file:'' @ db_file env dataDir @ ''?mode=ro'') (\<lambda>w. (sp_base sp w, sp_intx sp w)) \<and>
     (\<forall>w p. sp_base sp (w\<lparr>files := (files w)(p \<mapsto> FDir)\<rparr>) = sp_base sp w \<and>
            sp_intx sp (w\<lparr>files := (files w)(p \<mapsto> FDir)\<rparr>) = sp_intx sp w)"

lemma mkdir_content:
  assumes "\<forall>w p. content (w\<lparr>files := (files w)(p \<mapsto> FDir)\<rparr>) = content w"
  shows "os_Mkdir flt p w = (e, w') \<Longrightarrow> content w' = content w"
    and "os_MkdirAll flt p w = (e, w') \<Longrightarrow> content w' = content w"
  using assms by (auto simp: os_Mkdir_def os_MkdirAll_def split: option.splits if_splits fnode.splits)

lemma Open_replica:
  assumes "Open drv path w = (Inr eng, w')" and "law_Connect drv (''file:'' @ path) sp" and "\<not> sp_intx sp w"
  shows "eng_writeDB eng = \<lparr>db_dsn = ''file:'' @ path, db_closed = False\<rparr> \<and>
    db_dsn (eng_readDB eng) = ''file:'' @ path @ ''?mode=ro'' \<and> sp_base sp w' = sp_base sp w \<and> \<not> sp_intx sp w'"
  using assms by (auto simp: Open_def sql_Open_def DB_Conn_def law_Connect_def split: option.splits prod.splits)

lemma NewDB_replica:
  assumes "NewDB env dataDir cfg w = (Inr c, w')" and "node_laws env dataDir sp refuses" and "\<not> sp_intx sp w"
  shows "good_replica env sp refuses c" and "node_content sp c = sp_base sp w"
proof -
  let ?content = "\<lambda>w. (sp_base sp w, sp_intx sp w)"
  have dir: "\<forall>w p. ?content (w\<lparr>files := (files w)(p \<mapsto> FDir)\<rparr>) = ?content w"
    using assms(2) by (simp add: node_laws_def)
  from assms(1) obtain db w1 where db: "setupDB env dataDir w = (Inr db, w1)" "c_db c = db"
    and raft: "fst (os_Mkdir (e_flt env) (e_join env [dataDir, ''raft'']) w1) = None"
      "c_world c = snd (os_Mkdir (e_flt env) (e_join env [dataDir, ''raft'']) w1)"
    by (auto simp: NewDB_def setupRaft_def split: prod.splits sum.splits option.splits)
  from db(1) obtain w0 where w0: "os_MkdirAll (e_flt env) (e_join env [dataDir, ''db'']) w = (None, w0)"
    "Open (e_drv env) (db_file env dataDir) w0 = (Inr db, w1)"
    by (auto simp: setupDB_def db_file_def Let_def split: prod.splits option.splits)
  have "?content w0 = ?content w" using mkdir_content(2) [OF dir w0(1)] by simp
  moreover have "?content (c_world c) = ?content w1"
    using mkdir_content(1) [OF dir prod.collapse [symmetric]] raft(2) by simp
  ultimately have "eng_writeDB db = \<lparr>db_dsn = ''file:'' @ db_file env dataDir, db_closed = False\<rparr>"
    "db_dsn (eng_readDB db) = ''file:'' @ db_file env dataDir @ ''?mode=ro''"
    "sp_base sp (c_world c) = sp_base sp w" "\<not> sp_intx sp (c_world c)"
    using Open_replica [OF w0(2), of sp] assms(2,3) by (auto simp: node_laws_def sqlite_tx_laws_def)
  with assms(2) db(2) show "good_replica env sp refuses c" "node_content sp c = sp_base sp w"
    by (simp_all add: good_replica_def node_laws_def node_content_def)
qed

text \<open>A cluster whose nodes were all started with \<open>NewDB\<close>, on databases of one content.\<close>

definition cluster_launched where
  "cluster_launched envs sps refuses v dirs S \<longleftrightarrow>
     cl_log S = [] \<and>
     (\<forall>n. cl_applied S n = 0 \<and> node_laws (envs n) (dirs n) (sps n) refuses \<and>
        (\<exists>cfg w w'. NewDB (envs n) (dirs n) cfg w = (Inr (cl_node S n), w') \<and>
           \<not> sp_intx (sps n) w \<and> sp_base (sps n) w = v))"

lemma launched_start: "cluster_launched envs sps refuses v dirs S \<Longrightarrow> cluster_start envs sps refuses v S"
  unfolding cluster_launched_def cluster_start_def using NewDB_replica by metis

section \<open>Catching up\<close>

text \<open>An entry on which the state machine returns, whatever the database.\<close>

definition harmless :: "('c, 'r) env \<Rightarrow> raftLog \<Rightarrow> bool" where
  "harmless env rec \<longleftrightarrow> (\<forall>db w. \<exists>resp w'. applyAction env (log_Data rec) db w = (Ret resp, w'))"

lemma exec_harmless:
  assumes "pb_laws (e_pb env)" and "no_nil_params req" and "pb_Marshal_Request (e_pb env) req = Inr b"
    and "pb_Marshal_Action (e_pb env) \<lparr>act_Type = Action_ACTION_EXECUTE, act_Body = b\<rparr> = Inr d"
  shows "harmless env \<lparr>log_Index = i, log_Data = d\<rparr>"
  unfolding harmless_def using applyAction_execute [OF assms] by (auto split: prod.splits)

lemma harmless_step: "harmless env rec \<Longrightarrow> \<exists>c'. apply_step env rec c = Ret c'"
  unfolding harmless_def apply_step_def Apply_def by (metis (no_types, lifting) case_prod_conv go.simps(5))

lemma cluster_reach_trans:
  "cluster_reach envs x sv adm S1 S2 \<Longrightarrow> cluster_reach envs x sv adm S0 S1 \<Longrightarrow> cluster_reach envs x sv adm S0 S2"
  by (induction rule: cluster_reach.induct) (auto intro: cluster_reach.step)

lemma node_catches_up:
  assumes "\<forall>rec \<in> set (cl_log S). harmless (envs n) rec" and "cl_applied S n \<le> length (cl_log S)"
  shows "\<exists>S'. cluster_reach envs x sv adm S S' \<and> cl_log S' = cl_log S \<and>
    cl_applied S' = (cl_applied S)(n := length (cl_log S))"
  using assms
proof (induction "length (cl_log S) - cl_applied S n" arbitrary: S)
  case 0
  then have "cl_applied S = (cl_applied S)(n := length (cl_log S))" by auto
  then show ?case using cluster_reach.start by metis
next
  case (Suc k)
  then have lt: "cl_applied S n < length (cl_log S)" by linarith
  with Suc.prems(1) obtain c' where c': "apply_step (envs n) (cl_log S ! cl_applied S n) (cl_node S n) = Ret c'"
    using harmless_step by (metis nth_mem)
  let ?S = "S\<lparr>cl_node := (cl_node S)(n := c'), cl_applied := (cl_applied S)(n := Suc (cl_applied S n))\<rparr>"
  have step: "cluster_step envs x sv adm S ?S" by (rule cluster_step.deliver [where envs = envs, OF lt c'])
  have "\<exists>S'. cluster_reach envs x sv adm ?S S' \<and> cl_log S' = cl_log ?S \<and>
      cl_applied S' = (cl_applied ?S)(n := length (cl_log ?S))"
    by (rule Suc.hyps(1)) (use Suc lt in auto)
  then obtain S' where "cluster_reach envs x sv adm ?S S'" "cl_log S' = cl_log S"
    "cl_applied S' = (cl_applied S)(n := length (cl_log S))"
    by auto
  with cluster_reach_trans [OF _ cluster_reach.step [OF cluster_reach.start step]] show ?case by blast
qed

lemma nodes_catch_up:
  assumes "finite N" and "\<forall>n. \<forall>rec \<in> set (cl_log S). harmless (envs n) rec" and "\<forall>n. cl_applied S n \<le> length (cl_log S)"
  shows "\<exists>S'. cluster_reach envs x sv adm S S' \<and> cl_log S' = cl_log S \<and>
    (\<forall>n. cl_applied S' n = (if n \<in> N then length (cl_log S) else cl_applied S n))"
  using assms(1)
proof induction
  case empty
  then show ?case by (auto intro: cluster_reach.start)
next
  case (insert n N)
  then obtain S1 where S1: "cluster_reach envs x sv adm S S1" "cl_log S1 = cl_log S"
    "\<forall>n. cl_applied S1 n = (if n \<in> N then length (cl_log S) else cl_applied S n)" by blast
  have "\<forall>rec \<in> set (cl_log S1). harmless (envs n) rec" "cl_applied S1 n \<le> length (cl_log S1)"
    using S1 assms(2,3) by auto
  then obtain S2 where "cluster_reach envs x sv adm S1 S2" "cl_log S2 = cl_log S1"
    "cl_applied S2 = (cl_applied S1)(n := length (cl_log S1))"
    using node_catches_up [of S1 envs n x sv adm] by blast
  with S1 cluster_reach_trans show ?case by (intro exI [of _ S2]) auto
qed

section \<open>Properties\<close>


text \<open>Two nodes that were started with \<open>NewDB\<close>, and an entry that neither has applied.\<close>

definition launch_env :: "(sample, sraft) env" where
  "launch_env = sample_cluster_env\<lparr>e_join := \<lambda>ps. if last ps = ''sqlite.db'' then ''a'' else sample_join ps\<rparr>"

definition launched_node :: "(sample, sraft) Consensus" where
  "launched_node = (case fst (NewDB launch_env ''d'' sample_cfg (sample_world [''I0''])) of Inr c \<Rightarrow> c | Inl _ \<Rightarrow> sample_node [])"

definition launched_cluster :: "(bool, sample, sraft) cluster" where
  "launched_cluster = \<lparr>cl_node = (\<lambda>_. launched_node), cl_applied = (\<lambda>_. 0), cl_log = []\<rparr>"

lemma launch_env_laws: "node_laws launch_env ''d'' sample_spec sample_refuses"
proof -
  have "good_replica sample_cluster_env sample_spec sample_refuses (sample_node [])"
    unfolding sample_cluster_env_def by (rule good_sample_replica) (simp_all add: sample_node_def sample_world_def)
  moreover have "db_file launch_env ''d'' = ''a''" by (simp add: db_file_def launch_env_def)
  ultimately show ?thesis
    by (simp add: node_laws_def good_replica_def launch_env_def sample_node_def sample_engine_def sample_spec_def)
qed

lemma launched_cluster_ok:
  "same_sql (\<lambda>_. launch_env) (\<lambda>_. sample_spec) sample_refuses (\<lambda>_. True) sample_eff"
  "cluster_launched (\<lambda>_. launch_env) (\<lambda>_. sample_spec) sample_refuses [''I0''] (\<lambda>_. ''d'') launched_cluster"
proof -
  show "same_sql (\<lambda>_. launch_env) (\<lambda>_. sample_spec) sample_refuses (\<lambda>_. True) sample_eff"
    by (simp add: same_sql_def sample_plain_entry launch_env_def)
  let ?x = "NewDB launch_env ''d'' sample_cfg (sample_world [''I0''])"
  have "isl (fst ?x) = False" by code_simp
  then obtain c where "fst ?x = Inr c" by (cases "fst ?x") simp_all
  then have "fst ?x = Inr launched_node" by (simp add: launched_node_def)
  then have "?x = (Inr launched_node, snd ?x)" by (simp add: prod_eq_iff)
  moreover have "\<not> sp_intx sample_spec (sample_world [''I0''])" "sp_base sample_spec (sample_world [''I0'']) = [''I0'']"
    by code_simp+
  ultimately show "cluster_launched (\<lambda>_. launch_env) (\<lambda>_. sample_spec) sample_refuses [''I0''] (\<lambda>_. ''d'') launched_cluster"
    unfolding cluster_launched_def launched_cluster_def using launch_env_laws by (simp, blast)
qed


end
