(* ===== verification/Mock.thy ===== *)
theory Mock
  imports Store
begin

text \<open>
  The mock of the interface \<open>Store\<close> (\<^verbatim>\<open>service/store_mock.go\<close>), for tests of the HTTP front. The
  controller of \<^verbatim>\<open>gomock\<close> is a parameter: \<open>Call\<close> looks up the answer to a call, and
  \<open>RecordCallWithMethodType\<close> and \<open>Return\<close> set up an expectation. What the tests rely on is
  \<open>gomock_laws\<close>: an expectation answers the first call that matches it, once, and a call that
  nothing matches ends the test.
\<close>

section \<open>The controller\<close>

text \<open>The values of type \<open>interface{}\<close> that go through it.\<close>

datatype gomock_val =
  MRequest Request
| MQueryReq QueryReq
| MString string
| MExecRes "ExecRes list option"
| MQueryRes "QueryRes list option"
| MServers "Server list option"
| MMetrics NodeMetrics
| MError goerr
| MNil

fun error_val :: "goerr option \<Rightarrow> gomock_val" where
  "error_val None = MNil"
| "error_val (Some e) = MError e"

text \<open>\<open>reflect.TypeOf\<close> of a method: the types of its arguments and results.\<close>

type_synonym methodType = "string list \<times> string list"

text \<open>\<open>'k\<close> is the state of the controller, \<open>'l\<close> the type \<open>*gomock.Call\<close>.\<close>

record ('k, 'l) Controller =
  ct_Call :: "string \<Rightarrow> gomock_val list \<Rightarrow> 'k \<Rightarrow> (gomock_val list \<times> 'k) go"
  ct_RecordCallWithMethodType :: "string \<Rightarrow> methodType \<Rightarrow> gomock_val list \<Rightarrow> 'k \<Rightarrow> 'l \<times> 'k"
  ct_Return :: "'l \<Rightarrow> gomock_val list \<Rightarrow> 'k \<Rightarrow> 'k"
  ct_expects :: "string \<Rightarrow> gomock_val list \<Rightarrow> 'k \<Rightarrow> bool"

text \<open>\<open>ret[i]\<close>, which panics out of range, and the assertions \<open>v, _ := ret[i].(T)\<close>.\<close>

fun as_ExecRes :: "gomock_val \<Rightarrow> ExecRes list option" where
  "as_ExecRes (MExecRes rs) = rs"
| "as_ExecRes _ = None"

fun as_QueryRes :: "gomock_val \<Rightarrow> QueryRes list option" where
  "as_QueryRes (MQueryRes rs) = rs"
| "as_QueryRes _ = None"

fun as_Servers :: "gomock_val \<Rightarrow> Server list option" where
  "as_Servers (MServers ss) = ss"
| "as_Servers _ = None"

fun as_Metrics :: "gomock_val \<Rightarrow> NodeMetrics option" where
  "as_Metrics (MMetrics m) = Some m"
| "as_Metrics _ = None"

fun as_string :: "gomock_val \<Rightarrow> string" where
  "as_string (MString s) = s"
| "as_string _ = ''''"

fun as_error :: "gomock_val \<Rightarrow> goerr option" where
  "as_error (MError e) = Some e"
| "as_error _ = None"

section \<open>The mock\<close>

record 'k MockStore =
  ms_ctrl :: 'k

record 'k MockStoreMockRecorder =
  mr_mock :: "'k MockStore"

definition NewMockStore :: "'k \<Rightarrow> 'k MockStore" where
  "NewMockStore ctrl = \<lparr>ms_ctrl = ctrl\<rparr>"

text \<open>The recorder of a mock points back at it.\<close>

definition EXPECT :: "'k MockStore \<Rightarrow> 'k MockStoreMockRecorder" where
  "EXPECT m = \<lparr>mr_mock = m\<rparr>"

text \<open>\<open>m.ctrl.Call(m, name, args...)\<close>, and the first and second result.\<close>

definition mock_call ::
  "('k, 'l) Controller \<Rightarrow> string \<Rightarrow> gomock_val list \<Rightarrow> 'k MockStore \<Rightarrow> (gomock_val list \<times> 'k MockStore) go" where
  "mock_call ct name args m =
     go_bind (ct_Call ct name args (ms_ctrl m)) (\<lambda>(ret, k'). Ret (ret, m\<lparr>ms_ctrl := k'\<rparr>))"

definition MockStore_Exec ::
  "('k, 'l) Controller \<Rightarrow> Request \<Rightarrow> 'k MockStore \<Rightarrow> ((ExecRes list option \<times> goerr option) \<times> 'k MockStore) go" where
  "MockStore_Exec ct arg0 m =
     go_bind (mock_call ct ''Exec'' [MRequest arg0] m) (\<lambda>(ret, m').
     go_bind (go_index ret 0) (\<lambda>v0. go_bind (go_index ret 1) (\<lambda>v1.
       Ret ((as_ExecRes v0, as_error v1), m'))))"

definition MockStore_GetServers ::
  "('k, 'l) Controller \<Rightarrow> 'k MockStore \<Rightarrow> ((Server list option \<times> goerr option) \<times> 'k MockStore) go" where
  "MockStore_GetServers ct m =
     go_bind (mock_call ct ''GetServers'' [] m) (\<lambda>(ret, m').
     go_bind (go_index ret 0) (\<lambda>v0. go_bind (go_index ret 1) (\<lambda>v1.
       Ret ((as_Servers v0, as_error v1), m'))))"

definition MockStore_Join ::
  "('k, 'l) Controller \<Rightarrow> string \<Rightarrow> string \<Rightarrow> 'k MockStore \<Rightarrow> (goerr option \<times> 'k MockStore) go" where
  "MockStore_Join ct arg0 arg1 m =
     go_bind (mock_call ct ''Join'' [MString arg0, MString arg1] m) (\<lambda>(ret, m').
     go_bind (go_index ret 0) (\<lambda>v0. Ret (as_error v0, m')))"

definition MockStore_LeaderAddr :: "('k, 'l) Controller \<Rightarrow> 'k MockStore \<Rightarrow> (string \<times> 'k MockStore) go" where
  "MockStore_LeaderAddr ct m =
     go_bind (mock_call ct ''LeaderAddr'' [] m) (\<lambda>(ret, m').
     go_bind (go_index ret 0) (\<lambda>v0. Ret (as_string v0, m')))"

definition MockStore_Leave ::
  "('k, 'l) Controller \<Rightarrow> string \<Rightarrow> 'k MockStore \<Rightarrow> (goerr option \<times> 'k MockStore) go" where
  "MockStore_Leave ct arg0 m =
     go_bind (mock_call ct ''Leave'' [MString arg0] m) (\<lambda>(ret, m').
     go_bind (go_index ret 0) (\<lambda>v0. Ret (as_error v0, m')))"

definition MockStore_Metrics ::
  "('k, 'l) Controller \<Rightarrow> 'k MockStore \<Rightarrow> ((NodeMetrics option \<times> goerr option) \<times> 'k MockStore) go" where
  "MockStore_Metrics ct m =
     go_bind (mock_call ct ''Metrics'' [] m) (\<lambda>(ret, m').
     go_bind (go_index ret 0) (\<lambda>v0. go_bind (go_index ret 1) (\<lambda>v1.
       Ret ((as_Metrics v0, as_error v1), m'))))"

definition MockStore_Query ::
  "('k, 'l) Controller \<Rightarrow> QueryReq \<Rightarrow> 'k MockStore \<Rightarrow> ((QueryRes list option \<times> goerr option) \<times> 'k MockStore) go" where
  "MockStore_Query ct arg0 m =
     go_bind (mock_call ct ''Query'' [MQueryReq arg0] m) (\<lambda>(ret, m').
     go_bind (go_index ret 0) (\<lambda>v0. go_bind (go_index ret 1) (\<lambda>v1.
       Ret ((as_QueryRes v0, as_error v1), m'))))"

section \<open>The recorder\<close>

definition record_call ::
  "('k, 'l) Controller \<Rightarrow> string \<Rightarrow> methodType \<Rightarrow> gomock_val list \<Rightarrow> 'k MockStoreMockRecorder \<Rightarrow>
     'l \<times> 'k MockStoreMockRecorder" where
  "record_call ct name mt args mr =
     (case ct_RecordCallWithMethodType ct name mt args (ms_ctrl (mr_mock mr)) of
        (call, k') \<Rightarrow> (call, mr\<lparr>mr_mock := (mr_mock mr)\<lparr>ms_ctrl := k'\<rparr>\<rparr>))"

definition Recorder_Exec where
  "Recorder_Exec ct arg0 = record_call ct ''Exec'' ([''*pb.Request''], [''[]*pb.ExecRes'', ''error'']) [arg0]"

definition Recorder_GetServers where
  "Recorder_GetServers ct = record_call ct ''GetServers'' ([], [''[]*pb.Server'', ''error'']) []"

definition Recorder_Join where
  "Recorder_Join ct arg0 arg1 = record_call ct ''Join'' ([''string'', ''string''], [''error'']) [arg0, arg1]"

definition Recorder_LeaderAddr where
  "Recorder_LeaderAddr ct = record_call ct ''LeaderAddr'' ([], [''string'']) []"

definition Recorder_Leave where
  "Recorder_Leave ct arg0 = record_call ct ''Leave'' ([''string''], [''error'']) [arg0]"

definition Recorder_Metrics where
  "Recorder_Metrics ct = record_call ct ''Metrics'' ([], [''map[string]interface {}'', ''error'']) []"

definition Recorder_Query where
  "Recorder_Query ct arg0 = record_call ct ''Query'' ([''*pb.QueryReq''], [''[]*pb.QueryRes'', ''error'']) [arg0]"

text \<open>\<open>m.EXPECT().Method(args...).Return(rets...)\<close>\<close>

definition returns ::
  "('k, 'l) Controller \<Rightarrow> ('k MockStoreMockRecorder \<Rightarrow> 'l \<times> 'k MockStoreMockRecorder) \<Rightarrow> gomock_val list \<Rightarrow>
     'k MockStore \<Rightarrow> 'k MockStore" where
  "returns ct rcd rets m =
     (case rcd (EXPECT m) of
        (call, mr) \<Rightarrow> (mr_mock mr)\<lparr>ms_ctrl := ct_Return ct call rets (ms_ctrl (mr_mock mr))\<rparr>)"

section \<open>What a test relies on\<close>

definition gomock_laws :: "('k, 'l) Controller \<Rightarrow> bool" where
  "gomock_laws ct \<longleftrightarrow>
     (\<forall>name mt args rets k call k1. \<not> ct_expects ct name args k \<longrightarrow>
        ct_RecordCallWithMethodType ct name mt args k = (call, k1) \<longrightarrow>
        (\<exists>k2. ct_Call ct name args (ct_Return ct call rets k1) = Ret (rets, k2) \<and> \<not> ct_expects ct name args k2)) \<and>
     (\<forall>name args k. \<not> ct_expects ct name args k \<longrightarrow> (\<exists>msg. ct_Call ct name args k = Panic msg))"

lemma recorded_call:
  assumes "gomock_laws ct" and "\<not> ct_expects ct name args (ms_ctrl m)"
  shows "\<exists>m'. mock_call ct name args (returns ct (record_call ct name mt args) rets m) = Ret (rets, m') \<and>
    (\<exists>msg. mock_call ct name args m' = Panic msg)"
proof -
  obtain call k1 where r: "ct_RecordCallWithMethodType ct name mt args (ms_ctrl m) = (call, k1)" by fastforce
  then obtain k2 where c: "ct_Call ct name args (ct_Return ct call rets k1) = Ret (rets, k2)"
    and n: "\<not> ct_expects ct name args k2"
    using assms unfolding gomock_laws_def by blast
  from n obtain msg where "ct_Call ct name args k2 = Panic msg" using assms(1) unfolding gomock_laws_def by blast
  with r c show ?thesis by (auto simp: returns_def record_call_def EXPECT_def mock_call_def)
qed

lemma told_bind:
  assumes "gomock_laws ct" and "\<not> ct_expects ct name args (ms_ctrl m)" and "\<And>m'. g (rets, m') = Ret (y, m')"
  shows "\<exists>m'. go_bind (mock_call ct name args (returns ct (record_call ct name mt args) rets m)) g = Ret (y, m') \<and>
    (\<exists>msg. go_bind (mock_call ct name args m') g = Panic msg)"
  using recorded_call [OF assms(1,2), of mt rets] assms(3) by (metis go_bind.simps)

lemma as_error_val [simp]: "as_error (error_val e) = e"
  by (cases e) simp_all

section \<open>Properties\<close>


text \<open>A controller: the expectations in order; a call takes the first that matches.\<close>

fun take_call :: "string \<times> gomock_val list \<Rightarrow> ((string \<times> gomock_val list) \<times> 'a) list \<Rightarrow>
    ('a \<times> ((string \<times> gomock_val list) \<times> 'a) list) option" where
  "take_call c [] = None"
| "take_call c ((d, r) # es) =
     (if c = d then Some (r, es) else map_option (\<lambda>(r', es'). (r', (d, r) # es')) (take_call c es))"

definition sample_controller ::
  "(((string \<times> gomock_val list) \<times> gomock_val list) list, string \<times> gomock_val list) Controller" where
  "sample_controller =
     \<lparr>ct_Call = (\<lambda>name args k. case take_call (name, args) k of
         None \<Rightarrow> Panic ''Unexpected call'' | Some (rets, k') \<Rightarrow> Ret (rets, k')),
      ct_RecordCallWithMethodType = (\<lambda>name mt args k. ((name, args), k)),
      ct_Return = (\<lambda>call rets k. k @ [(call, rets)]),
      ct_expects = (\<lambda>name args k. (name, args) \<in> fst ` set k)\<rparr>"

lemma take_call_none: "c \<notin> fst ` set es \<Longrightarrow> take_call c es = None"
  by (induction c es rule: take_call.induct) auto

lemma take_call_last: "c \<notin> fst ` set es \<Longrightarrow> take_call c (es @ [(c, r)]) = Some (r, es)"
  by (induction es) auto

lemma sample_controller_laws: "gomock_laws sample_controller"
  by (simp add: gomock_laws_def sample_controller_def take_call_none take_call_last)


end
