(* ===== verification/Messages.thy ===== *)
theory Messages
  imports Pb
begin

text \<open>
  The rest of \<^verbatim>\<open>pb/store.pb.go\<close>: the messages of the gRPC service, which no component but the
  stubs passes around, the zero values, \<open>Reset\<close> and the remaining getters of every message,
  and the name tables of the enum. \<open>Reset\<close> also registers the message type with the
  reflection of the protobuf runtime, which holds no data of the message.
\<close>

section \<open>The messages of the service\<close>

record StoreExecResponse =
  ser_Results :: "ExecRes option list"

record StoreQueryResponse =
  sqr_Results :: "QueryRes option list"

record ExecStringReq =
  esr_Exec :: string

record QueryStringReq =
  qsr_Query :: string

datatype GetServerRequest = GetServerRequest_empty

record GetServerResponse =
  gsr_Servers :: "Server option list"

section \<open>The enum\<close>

definition Action_Type_name :: "Action_Type \<rightharpoonup> string" where
  "Action_Type_name = map_of [(0, ''ACTION_QUERY''), (1, ''ACTION_EXECUTE''), (2, ''ACTION_NO'')]"

definition Action_Type_value :: "string \<rightharpoonup> Action_Type" where
  "Action_Type_value = map_of [(''ACTION_QUERY'', 0), (''ACTION_EXECUTE'', 1), (''ACTION_NO'', 2)]"

lemma Action_Type_tables: "Action_Type_name t = Some s \<longleftrightarrow> Action_Type_value s = Some t"
  by (auto simp: Action_Type_name_def Action_Type_value_def split: if_splits)

section \<open>Zero values and Reset\<close>

definition zero_Parameter :: Parameter where
  "zero_Parameter = \<lparr>param_Value = None, param_Name = ''''\<rparr>"

definition new_Statement :: Statement where
  "new_Statement = \<lparr>stmt_Sql = '''', stmt_Params = []\<rparr>"

definition new_Request :: Request where
  "new_Request = \<lparr>req_Transaction = False, req_Statements = []\<rparr>"

definition new_QueryReq :: QueryReq where
  "new_QueryReq = \<lparr>qreq_Request = None, qreq_StrongConsistency = False\<rparr>"

definition new_Values :: Values where
  "new_Values = \<lparr>vals_Params = None\<rparr>"

definition new_StoreExecResponse :: StoreExecResponse where
  "new_StoreExecResponse = \<lparr>ser_Results = []\<rparr>"

definition new_StoreQueryResponse :: StoreQueryResponse where
  "new_StoreQueryResponse = \<lparr>sqr_Results = []\<rparr>"

definition new_ExecStringReq :: ExecStringReq where
  "new_ExecStringReq = \<lparr>esr_Exec = ''''\<rparr>"

definition new_QueryStringReq :: QueryStringReq where
  "new_QueryStringReq = \<lparr>qsr_Query = ''''\<rparr>"

definition new_Server :: Server where
  "new_Server = \<lparr>srv_Id = '''', srv_RpcAddr = '''', srv_IsLeader = False\<rparr>"

definition new_GetServerResponse :: GetServerResponse where
  "new_GetServerResponse = \<lparr>gsr_Servers = []\<rparr>"

definition new_Action :: Action where
  "new_Action = \<lparr>act_Type = 0, act_Body = []\<rparr>"

text \<open>\<open>*x = T{}\<close>, whatever the message held.\<close>

definition Parameter_Reset :: "Parameter \<Rightarrow> Parameter" where
  "Parameter_Reset x = zero_Parameter"

definition Statement_Reset :: "Statement \<Rightarrow> Statement" where
  "Statement_Reset x = new_Statement"

definition Request_Reset :: "Request \<Rightarrow> Request" where
  "Request_Reset x = new_Request"

definition QueryReq_Reset :: "QueryReq \<Rightarrow> QueryReq" where
  "QueryReq_Reset x = new_QueryReq"

definition Values_Reset :: "Values \<Rightarrow> Values" where
  "Values_Reset x = new_Values"

definition QueryRes_Reset :: "QueryRes \<Rightarrow> QueryRes" where
  "QueryRes_Reset x = new_QueryRes"

definition ExecRes_Reset :: "ExecRes \<Rightarrow> ExecRes" where
  "ExecRes_Reset x = new_ExecRes"

definition StoreExecResponse_Reset :: "StoreExecResponse \<Rightarrow> StoreExecResponse" where
  "StoreExecResponse_Reset x = new_StoreExecResponse"

definition StoreQueryResponse_Reset :: "StoreQueryResponse \<Rightarrow> StoreQueryResponse" where
  "StoreQueryResponse_Reset x = new_StoreQueryResponse"

definition ExecStringReq_Reset :: "ExecStringReq \<Rightarrow> ExecStringReq" where
  "ExecStringReq_Reset x = new_ExecStringReq"

definition QueryStringReq_Reset :: "QueryStringReq \<Rightarrow> QueryStringReq" where
  "QueryStringReq_Reset x = new_QueryStringReq"

definition Server_Reset :: "Server \<Rightarrow> Server" where
  "Server_Reset x = new_Server"

definition GetServerRequest_Reset :: "GetServerRequest \<Rightarrow> GetServerRequest" where
  "GetServerRequest_Reset x = GetServerRequest_empty"

definition GetServerResponse_Reset :: "GetServerResponse \<Rightarrow> GetServerResponse" where
  "GetServerResponse_Reset x = new_GetServerResponse"

definition Action_Reset :: "Action \<Rightarrow> Action" where
  "Action_Reset x = new_Action"

section \<open>Getters\<close>

text \<open>A getter reads a field through a pointer, and the field's zero value through nil.\<close>

definition getter :: "('m \<Rightarrow> 'a) \<Rightarrow> 'a \<Rightarrow> 'm option \<Rightarrow> 'a" where
  "getter field zero x = (case x of Some m \<Rightarrow> field m | None \<Rightarrow> zero)"

definition GetD :: "Parameter option \<Rightarrow> float64" where
  "GetD x = (case GetValue x of Some (Parameter_D v) \<Rightarrow> v | _ \<Rightarrow> 0)"

definition GetB :: "Parameter option \<Rightarrow> bool" where
  "GetB x = (case GetValue x of Some (Parameter_B v) \<Rightarrow> v | _ \<Rightarrow> False)"

definition GetY :: "Parameter option \<Rightarrow> bytes" where
  "GetY x = (case GetValue x of Some (Parameter_Y v) \<Rightarrow> v | _ \<Rightarrow> [])"

definition GetS :: "Parameter option \<Rightarrow> string" where
  "GetS x = (case GetValue x of Some (Parameter_S v) \<Rightarrow> v | _ \<Rightarrow> '''')"

definition Statement_GetSql :: "Statement option \<Rightarrow> string" where
  "Statement_GetSql = getter stmt_Sql ''''"

definition Statement_GetParams :: "Statement option \<Rightarrow> Parameter option list" where
  "Statement_GetParams = getter stmt_Params []"

definition Request_GetTransaction :: "Request option \<Rightarrow> bool" where
  "Request_GetTransaction = getter req_Transaction False"

definition Request_GetStatements :: "Request option \<Rightarrow> Statement list" where
  "Request_GetStatements = getter req_Statements []"

definition QueryReq_GetRequest :: "QueryReq option \<Rightarrow> Request option" where
  "QueryReq_GetRequest = getter qreq_Request None"

definition QueryReq_GetStrongConsistency :: "QueryReq option \<Rightarrow> bool" where
  "QueryReq_GetStrongConsistency = getter qreq_StrongConsistency False"

definition QueryRes_GetColumns :: "QueryRes option \<Rightarrow> string list" where
  "QueryRes_GetColumns = getter qres_Columns []"

definition QueryRes_GetTypes :: "QueryRes option \<Rightarrow> string list" where
  "QueryRes_GetTypes = getter qres_Types []"

definition QueryRes_GetValues :: "QueryRes option \<Rightarrow> Values option list" where
  "QueryRes_GetValues = getter qres_Values []"

definition QueryRes_GetError :: "QueryRes option \<Rightarrow> string" where
  "QueryRes_GetError = getter qres_Error ''''"

definition ExecRes_GetLastInsertId :: "ExecRes option \<Rightarrow> int64" where
  "ExecRes_GetLastInsertId = getter eres_LastInsertId 0"

definition ExecRes_GetRowsAffected :: "ExecRes option \<Rightarrow> int64" where
  "ExecRes_GetRowsAffected = getter eres_RowsAffected 0"

definition ExecRes_GetError :: "ExecRes option \<Rightarrow> string" where
  "ExecRes_GetError = getter eres_Error ''''"

definition StoreExecResponse_GetResults :: "StoreExecResponse option \<Rightarrow> ExecRes option list" where
  "StoreExecResponse_GetResults = getter ser_Results []"

definition StoreQueryResponse_GetResults :: "StoreQueryResponse option \<Rightarrow> QueryRes option list" where
  "StoreQueryResponse_GetResults = getter sqr_Results []"

definition ExecStringReq_GetExec :: "ExecStringReq option \<Rightarrow> string" where
  "ExecStringReq_GetExec = getter esr_Exec ''''"

definition QueryStringReq_GetQuery :: "QueryStringReq option \<Rightarrow> string" where
  "QueryStringReq_GetQuery = getter qsr_Query ''''"

definition Server_GetId :: "Server option \<Rightarrow> string" where
  "Server_GetId = getter srv_Id ''''"

definition Server_GetRpcAddr :: "Server option \<Rightarrow> string" where
  "Server_GetRpcAddr = getter srv_RpcAddr ''''"

definition Server_GetIsLeader :: "Server option \<Rightarrow> bool" where
  "Server_GetIsLeader = getter srv_IsLeader False"

definition GetServerResponse_GetServers :: "GetServerResponse option \<Rightarrow> Server option list" where
  "GetServerResponse_GetServers = getter gsr_Servers []"

definition Action_GetType :: "Action option \<Rightarrow> Action_Type" where
  "Action_GetType = getter act_Type Action_ACTION_QUERY"

definition Action_GetBody :: "Action option \<Rightarrow> bytes" where
  "Action_GetBody = getter act_Body []"

lemmas getter_defs = getter_def
  Statement_GetSql_def Statement_GetParams_def Request_GetTransaction_def Request_GetStatements_def
  QueryReq_GetRequest_def QueryReq_GetStrongConsistency_def QueryRes_GetColumns_def QueryRes_GetTypes_def
  QueryRes_GetValues_def QueryRes_GetError_def ExecRes_GetLastInsertId_def ExecRes_GetRowsAffected_def
  ExecRes_GetError_def StoreExecResponse_GetResults_def StoreQueryResponse_GetResults_def ExecStringReq_GetExec_def
  QueryStringReq_GetQuery_def Server_GetId_def Server_GetRpcAddr_def Server_GetIsLeader_def
  GetServerResponse_GetServers_def Action_GetType_def Action_GetBody_def

text \<open>A message that was reset cannot be told from a nil one through its getters.\<close>

lemma reset_reads_as_nil:
  "(\<forall>p. let q = Some (Parameter_Reset p) in
     GetValue q = GetValue None \<and> GetName q = GetName None \<and> GetI q = GetI None \<and> GetD q = GetD None \<and>
     GetB q = GetB None \<and> GetY q = GetY None \<and> GetS q = GetS None) \<and>
   (\<forall>v. GetParams (Some (Values_Reset v)) = GetParams None) \<and>
   (\<forall>x. Statement_GetSql (Some (Statement_Reset x)) = Statement_GetSql None \<and>
      Statement_GetParams (Some (Statement_Reset x)) = Statement_GetParams None) \<and>
   (\<forall>x. Request_GetTransaction (Some (Request_Reset x)) = Request_GetTransaction None \<and>
      Request_GetStatements (Some (Request_Reset x)) = Request_GetStatements None) \<and>
   (\<forall>x. QueryReq_GetRequest (Some (QueryReq_Reset x)) = QueryReq_GetRequest None \<and>
      QueryReq_GetStrongConsistency (Some (QueryReq_Reset x)) = QueryReq_GetStrongConsistency None) \<and>
   (\<forall>x. QueryRes_GetColumns (Some (QueryRes_Reset x)) = QueryRes_GetColumns None \<and>
      QueryRes_GetTypes (Some (QueryRes_Reset x)) = QueryRes_GetTypes None \<and>
      QueryRes_GetValues (Some (QueryRes_Reset x)) = QueryRes_GetValues None \<and>
      QueryRes_GetError (Some (QueryRes_Reset x)) = QueryRes_GetError None) \<and>
   (\<forall>x. ExecRes_GetLastInsertId (Some (ExecRes_Reset x)) = ExecRes_GetLastInsertId None \<and>
      ExecRes_GetRowsAffected (Some (ExecRes_Reset x)) = ExecRes_GetRowsAffected None \<and>
      ExecRes_GetError (Some (ExecRes_Reset x)) = ExecRes_GetError None) \<and>
   (\<forall>x. StoreExecResponse_GetResults (Some (StoreExecResponse_Reset x)) = StoreExecResponse_GetResults None) \<and>
   (\<forall>x. StoreQueryResponse_GetResults (Some (StoreQueryResponse_Reset x)) = StoreQueryResponse_GetResults None) \<and>
   (\<forall>x. ExecStringReq_GetExec (Some (ExecStringReq_Reset x)) = ExecStringReq_GetExec None) \<and>
   (\<forall>x. QueryStringReq_GetQuery (Some (QueryStringReq_Reset x)) = QueryStringReq_GetQuery None) \<and>
   (\<forall>x. Server_GetId (Some (Server_Reset x)) = Server_GetId None \<and>
      Server_GetRpcAddr (Some (Server_Reset x)) = Server_GetRpcAddr None \<and>
      Server_GetIsLeader (Some (Server_Reset x)) = Server_GetIsLeader None) \<and>
   (\<forall>x. GetServerResponse_GetServers (Some (GetServerResponse_Reset x)) = GetServerResponse_GetServers None) \<and>
   (\<forall>x. Action_GetType (Some (Action_Reset x)) = Action_GetType None \<and>
      Action_GetBody (Some (Action_Reset x)) = Action_GetBody None)"
  unfolding getter_defs
  by (simp add: GetI_def GetD_def GetB_def GetY_def GetS_def Let_def Action_ACTION_QUERY_def
      Parameter_Reset_def Statement_Reset_def Request_Reset_def QueryReq_Reset_def Values_Reset_def
      QueryRes_Reset_def ExecRes_Reset_def StoreExecResponse_Reset_def StoreQueryResponse_Reset_def ExecStringReq_Reset_def
      QueryStringReq_Reset_def Server_Reset_def GetServerResponse_Reset_def Action_Reset_def zero_Parameter_def
      new_Statement_def new_Request_def new_QueryReq_def new_Values_def new_QueryRes_def
      new_ExecRes_def new_StoreExecResponse_def new_StoreQueryResponse_def new_ExecStringReq_def new_QueryStringReq_def
      new_Server_def new_GetServerResponse_def new_Action_def)

end
