(* ===== verification/Wire.thy ===== *)
theory Wire
  imports Raft Utf8 Messages
begin

text \<open>
  The bytes that go into raft's log: the protobuf wire format of the messages of
  \<^verbatim>\<open>pb/store.pb.go\<close>, as the tags of the generated structs prescribe it (field numbers,
  \<open>zigzag64\<close>, \<open>fixed64\<close>, \<open>varint\<close>, \<open>bytes\<close>).

  \<^verbatim>\<open>proto.Marshal\<close> and \<^verbatim>\<open>proto.Unmarshal\<close> are code outside the repository, and the program's
  theorems take them as a parameter with \<open>pb_laws\<close>. This theory is an instance of that
  parameter: the format of the protobuf documentation is shown to satisfy these laws: encoding in the order of field numbers,
  default values left out; decoding fields in any order, the last one of a scalar counting,
  repeated ones appended, unknown ones skipped, strings checked for UTF-8. (Groups, which
  no message uses, are refused.)

  The locale \<open>wire_message\<close> is the contract of one message: what its fields are, and that
  setting them one by one builds it up again. It gives the round trip through bytes once,
  and is interpreted on every message of the log.
\<close>

section \<open>Varints\<close>

fun varint :: "nat \<Rightarrow> bytes" where
  "varint n = (if n < 128 then [of_nat n] else of_nat (n mod 128 + 128) # varint (n div 128))"

declare varint.simps [simp del]

text \<open>At most ten bytes, of which the tenth is 0 or 1.\<close>

fun read_varint :: "nat \<Rightarrow> bytes \<Rightarrow> (nat \<times> bytes) option" where
  "read_varint (Suc k) (b # bs) =
     (if unat b < 128 then (if k = 0 \<and> 1 < unat b then None else Some (unat b, bs))
      else map_option (apfst (\<lambda>n. unat b - 128 + 128 * n)) (read_varint k bs))"
| "read_varint _ _ = None"

lemma unat_byte: "n < 256 \<Longrightarrow> unat (of_nat n :: byte) = n"
  by (simp add: unat_of_nat)

lemma read_varint_varint: "n < 2 * 128 ^ k \<Longrightarrow> read_varint (Suc k) (varint n @ rest) = Some (n, rest)"
proof (induction k arbitrary: n)
  case 0
  then show ?case by (simp add: varint.simps unat_byte)
next
  case (Suc k)
  show ?case
  proof (cases "n < 128")
    case False
    have "n div 128 < 2 * 128 ^ k" using Suc.prems by (simp add: less_mult_imp_div_less)
    moreover have "unat (of_nat (n mod 128 + 128) :: byte) = n mod 128 + 128" by (rule unat_byte) simp
    moreover have "n mod 128 + 128 * (n div 128) = n" by simp
    ultimately show ?thesis using Suc.IH False by (subst varint.simps) (simp del: of_nat_add)
  qed (subst varint.simps, simp add: unat_byte)
qed

lemma varint_roundtrip: "n < 2 ^ 64 \<Longrightarrow> read_varint 10 (varint n @ rest) = Some (n, rest)"
proof -
  assume "n < 2 ^ 64"
  also have "(2 :: nat) ^ 64 = 2 * 128 ^ 9" by simp
  finally have "read_varint (Suc 9) (varint n @ rest) = Some (n, rest)" by (rule read_varint_varint)
  then show ?thesis by simp
qed

lemma read_varint_shorter: "read_varint k bs = Some (n, rest) \<Longrightarrow> length rest < length bs"
  by (induction k bs arbitrary: n rest rule: read_varint.induct) (fastforce split: if_splits)+

text \<open>\<open>EncodeZigZag\<close> and \<open>DecodeZigZag\<close>\<close>

definition zigzag :: "int64 \<Rightarrow> nat" where
  "zigzag x = unat (xor (push_bit 1 x) (if bit x 63 then - 1 else 0))"

definition unzigzag :: "nat \<Rightarrow> int64" where
  "unzigzag n = (let u = of_nat n :: 64 word in xor (drop_bit 1 u) (if bit u 0 then - 1 else 0))"

lemma zigzag_roundtrip: "unzigzag (zigzag x) = x"
proof -
  define u where "u = xor (push_bit 1 x) (if bit x 63 then - 1 else 0)"
  have u: "bit u j \<longleftrightarrow> (0 < j \<and> bit x (j - 1)) \<noteq> bit x 63" if "j < 64" for j
    using that unfolding u_def bit_xor_iff bit_push_bit_iff by (auto simp: Suc_le_eq)
  have "xor (drop_bit 1 u) (if bit u 0 then - 1 else 0) = x"
  proof (rule bit_word_eqI)
    fix i :: nat assume i: "i < LENGTH(64)"
    have "bit (drop_bit 1 u) i \<longleftrightarrow> i \<noteq> 63 \<and> bit x i \<noteq> bit x 63"
      using i u [of "1 + i"] bit_imp_le_length [of u "1 + i"] unfolding bit_drop_bit_eq comp_def by (cases "i = 63") auto
    with i u [of 0] show "bit (xor (drop_bit 1 u) (if bit u 0 then - 1 else 0)) i \<longleftrightarrow> bit x i"
      unfolding bit_xor_iff by auto
  qed
  then show ?thesis unfolding zigzag_def unzigzag_def Let_def u_def by simp
qed

section \<open>Fields\<close>

datatype wval = Varint nat | Fixed64 "64 word" | Len bytes | Fixed32 bytes

type_synonym wfield = "nat \<times> wval"

fun enc_field :: "wfield \<Rightarrow> bytes" where
  "enc_field (f, Varint n) = varint (8 * f) @ varint n"
| "enc_field (f, Fixed64 w) = varint (8 * f + 1) @ PutUint64 w"
| "enc_field (f, Len b) = varint (8 * f + 2) @ varint (length b) @ b"
| "enc_field (f, Fixed32 b) = varint (8 * f + 5) @ b"

definition encode_fields :: "wfield list \<Rightarrow> bytes" where
  "encode_fields fs = concat (map enc_field fs)"

text \<open>The value after a tag, by its wire type.\<close>

definition read_value :: "nat \<Rightarrow> bytes \<Rightarrow> (wval \<times> bytes) option" where
  "read_value ty bs =
     (if ty = 0 then map_option (apfst Varint) (read_varint 10 bs)
      else if ty = 1 then (if 8 \<le> length bs then Some (Fixed64 (le_word (take 8 bs)), drop 8 bs) else None)
      else if ty = 2 then
        (case read_varint 10 bs of
          None \<Rightarrow> None
        | Some (n, r) \<Rightarrow> if n \<le> length r then Some (Len (take n r), drop n r) else None)
      else if ty = 5 then (if 4 \<le> length bs then Some (Fixed32 (take 4 bs), drop 4 bs) else None)
      else None)"

definition read_field :: "bytes \<Rightarrow> (wfield \<times> bytes) option" where
  "read_field bs =
     (case read_varint 10 bs of
        None \<Rightarrow> None
      | Some (t, r) \<Rightarrow>
          if t div 8 = 0 \<or> 2 ^ 29 \<le> t div 8 then None
          else map_option (apfst (Pair (t div 8))) (read_value (t mod 8) r))"

lemma read_value_le: "read_value ty bs = Some (v, rest) \<Longrightarrow> length rest \<le> length bs"
  using read_varint_shorter [of 10 bs]
  by (fastforce simp: read_value_def split: if_splits option.splits)

lemma read_field_shorter: "read_field bs = Some (fv, rest) \<Longrightarrow> length rest < length bs"
  using read_varint_shorter [of 10 bs] read_value_le
  by (fastforce simp: read_field_def split: if_splits option.splits)

function read_fields :: "bytes \<Rightarrow> wfield list option" where
  "read_fields bs =
     (if bs = [] then Some []
      else (case read_field bs of
        None \<Rightarrow> None
      | Some (fv, rest) \<Rightarrow> map_option ((#) fv) (read_fields rest)))"
  by pat_completeness auto
termination
  by (relation "measure length") (auto dest: read_field_shorter)

declare read_fields.simps [simp del]

text \<open>Fields that the format can hold.\<close>

fun scalar_ok :: "wfield \<Rightarrow> bool" where
  "scalar_ok (f, v) \<longleftrightarrow>
     0 < f \<and> f < 2 ^ 29 \<and> (case v of Varint n \<Rightarrow> n < 2 ^ 64 | Fixed32 b \<Rightarrow> length b = 4 | _ \<Rightarrow> True)"

fun small_field :: "wfield \<Rightarrow> bool" where
  "small_field (f, Len b) \<longleftrightarrow> length b < 2 ^ 63"
| "small_field _ \<longleftrightarrow> True"

lemma read_value_enc:
  assumes "scalar_ok (f, v)" and "small_field (f, v)"
  shows "\<exists>ty payload. enc_field (f, v) = varint (8 * f + ty) @ payload \<and> ty < 8 \<and>
    read_value ty (payload @ rest) = Some (v, rest)"
proof (cases v)
  case (Varint n)
  with assms show ?thesis by (intro exI [of _ 0]) (simp add: read_value_def varint_roundtrip)
next
  case (Fixed64 w)
  then show ?thesis by (intro exI [of _ 1]) (simp add: read_value_def)
next
  case (Len b)
  with assms have "read_varint 10 (varint (length b) @ b @ rest) = Some (length b, b @ rest)"
    by (intro varint_roundtrip) simp
  with Len show ?thesis by (intro exI [of _ 2]) (simp add: read_value_def)
next
  case (Fixed32 b)
  with assms show ?thesis by (intro exI [of _ 5]) (simp add: read_value_def)
qed

lemma read_field_enc:
  assumes "scalar_ok fv" and "small_field fv"
  shows "read_field (enc_field fv @ rest) = Some (fv, rest)"
proof -
  obtain f v where fv: "fv = (f, v)" by fastforce
  with read_value_enc [of f v rest] assms obtain ty payload where
    e: "enc_field fv = varint (8 * f + ty) @ payload" "ty < 8" "read_value ty (payload @ rest) = Some (v, rest)"
    by auto
  have "8 * f + ty < 2 ^ 64" using assms(1) e(2) fv by simp
  from varint_roundtrip [OF this, of "payload @ rest"] e assms(1) fv show ?thesis
    by (simp add: read_field_def)
qed

lemma enc_field_nonempty: "enc_field fv \<noteq> []"
  by (cases fv rule: enc_field.cases) (simp_all add: varint.simps)

lemma fields_roundtrip:
  "list_all scalar_ok fs \<Longrightarrow> list_all small_field fs \<Longrightarrow> read_fields (encode_fields fs) = Some fs"
proof (induction fs)
  case Nil
  then show ?case by (simp add: encode_fields_def read_fields.simps)
next
  case (Cons fv fs)
  then show ?case
    using enc_field_nonempty [of fv] by (subst read_fields.simps) (simp add: encode_fields_def read_field_enc)
qed

text \<open>A field is no longer than the message it is in.\<close>

lemma small_fields:
  assumes "length (encode_fields fs) < 2 ^ 63"
  shows "list_all small_field fs"
proof -
  have "small_field fv" if "fv \<in> set fs" for fv
  proof -
    from that have "length (enc_field fv) \<le> length (encode_fields fs)"
      by (auto simp: encode_fields_def length_concat comp_def intro: member_le_sum_list)
    with assms show ?thesis by (cases fv rule: small_field.cases) simp_all
  qed
  then show ?thesis by (simp add: list_all_iff)
qed

section \<open>The contract of a message\<close>

fun apply_fields :: "(wfield \<Rightarrow> 'm \<Rightarrow> 'm option) \<Rightarrow> wfield list \<Rightarrow> 'm \<Rightarrow> 'm option" where
  "apply_fields put [] m = Some m"
| "apply_fields put (fv # fs) m = (case put fv m of None \<Rightarrow> None | Some m' \<Rightarrow> apply_fields put fs m')"

definition decode :: "(wfield \<Rightarrow> 'm \<Rightarrow> 'm option) \<Rightarrow> 'm \<Rightarrow> bytes \<Rightarrow> 'm option" where
  "decode put zero b = (case read_fields b of None \<Rightarrow> None | Some fs \<Rightarrow> apply_fields put fs zero)"

lemma apply_fields_append:
  "apply_fields put (fs @ gs) m = (case apply_fields put fs m of None \<Rightarrow> None | Some m' \<Rightarrow> apply_fields put gs m')"
  by (induction fs arbitrary: m) (auto split: option.splits)

locale wire_message =
  fixes fields :: "'m \<Rightarrow> wfield list"
    and put :: "wfield \<Rightarrow> 'm \<Rightarrow> 'm option"
    and zero :: 'm
    and ok :: "'m \<Rightarrow> bool"
  assumes fields_scalar: "ok m \<Longrightarrow> list_all scalar_ok (fields m)"
    and fields_build: "ok m \<Longrightarrow> list_all small_field (fields m) \<Longrightarrow> apply_fields put (fields m) zero = Some m"
begin

lemma decode_encode:
  assumes "ok m" and "length (encode_fields (fields m)) < 2 ^ 63"
  shows "decode put zero (encode_fields (fields m)) = Some m"
proof -
  have "list_all small_field (fields m)" using assms(2) by (rule small_fields)
  with assms(1) show ?thesis
    by (simp add: decode_def fields_roundtrip fields_scalar fields_build)
qed

end

section \<open>The messages of the log\<close>

text \<open>Fields that are left out when they have their default value.\<close>

definition string_field :: "nat \<Rightarrow> string \<Rightarrow> wfield list" where
  "string_field f s = (if s = '''' then [] else [(f, Len (bytes_of_string s))])"

definition bool_field :: "nat \<Rightarrow> bool \<Rightarrow> wfield list" where
  "bool_field f b = (if b then [(f, Varint 1)] else [])"

text \<open>A string of the wire has to be valid UTF-8.\<close>

definition wire_string :: "bytes \<Rightarrow> string option" where
  "wire_string b = (if utf8 (string_of_bytes b) then Some (string_of_bytes b) else None)"

fun value_fields :: "Parameter_Value option \<Rightarrow> wfield list" where
  "value_fields None = []"
| "value_fields (Some (Parameter_I i)) = [(1, Varint (zigzag i))]"
| "value_fields (Some (Parameter_D d)) = [(2, Fixed64 d)]"
| "value_fields (Some (Parameter_B b)) = [(3, Varint (if b then 1 else 0))]"
| "value_fields (Some (Parameter_Y y)) = [(4, Len y)]"
| "value_fields (Some (Parameter_S s)) = [(5, Len (bytes_of_string s))]"

definition Parameter_fields :: "Parameter \<Rightarrow> wfield list" where
  "Parameter_fields p = value_fields (param_Value p) @ string_field 6 (param_Name p)"

fun put_Parameter :: "wfield \<Rightarrow> Parameter \<Rightarrow> Parameter option" where
  "put_Parameter (f, Varint n) p =
     (if f = 1 then Some (p\<lparr>param_Value := Some (Parameter_I (unzigzag n))\<rparr>)
      else if f = 3 then Some (p\<lparr>param_Value := Some (Parameter_B (n \<noteq> 0))\<rparr>) else Some p)"
| "put_Parameter (f, Fixed64 w) p = (if f = 2 then Some (p\<lparr>param_Value := Some (Parameter_D w)\<rparr>) else Some p)"
| "put_Parameter (f, Len b) p =
     (if f = 4 then Some (p\<lparr>param_Value := Some (Parameter_Y b)\<rparr>)
      else if f = 5 then map_option (\<lambda>s. p\<lparr>param_Value := Some (Parameter_S s)\<rparr>) (wire_string b)
      else if f = 6 then map_option (\<lambda>s. p\<lparr>param_Name := s\<rparr>) (wire_string b) else Some p)"
| "put_Parameter (f, Fixed32 b) p = Some p"

definition Statement_fields :: "Statement \<Rightarrow> wfield list" where
  "Statement_fields s =
     string_field 1 (stmt_Sql s) @
     map (\<lambda>p. (2, Len (encode_fields (case p of None \<Rightarrow> [] | Some p' \<Rightarrow> Parameter_fields p')))) (stmt_Params s)"

fun put_Statement :: "wfield \<Rightarrow> Statement \<Rightarrow> Statement option" where
  "put_Statement (f, Len b) s =
     (if f = 1 then map_option (\<lambda>t. s\<lparr>stmt_Sql := t\<rparr>) (wire_string b)
      else if f = 2 then
        map_option (\<lambda>p. s\<lparr>stmt_Params := stmt_Params s @ [Some p]\<rparr>) (decode put_Parameter zero_Parameter b)
      else Some s)"
| "put_Statement _ s = Some s"

definition Request_fields :: "Request \<Rightarrow> wfield list" where
  "Request_fields r =
     bool_field 1 (req_Transaction r) @ map (\<lambda>s. (2, Len (encode_fields (Statement_fields s)))) (req_Statements r)"

fun put_Request :: "wfield \<Rightarrow> Request \<Rightarrow> Request option" where
  "put_Request (f, Varint n) r = (if f = 1 then Some (r\<lparr>req_Transaction := n \<noteq> 0\<rparr>) else Some r)"
| "put_Request (f, Len b) r =
     (if f = 2 then
        map_option (\<lambda>s. r\<lparr>req_Statements := req_Statements r @ [s]\<rparr>)
          (decode put_Statement new_Statement b)
      else Some r)"
| "put_Request _ r = Some r"

definition QueryReq_fields :: "QueryReq \<Rightarrow> wfield list" where
  "QueryReq_fields q =
     (case qreq_Request q of None \<Rightarrow> [] | Some r \<Rightarrow> [(1, Len (encode_fields (Request_fields r)))]) @
     bool_field 2 (qreq_StrongConsistency q)"

text \<open>A second occurrence of a submessage is merged into the first.\<close>

fun put_QueryReq :: "wfield \<Rightarrow> QueryReq \<Rightarrow> QueryReq option" where
  "put_QueryReq (f, Varint n) q = (if f = 2 then Some (q\<lparr>qreq_StrongConsistency := n \<noteq> 0\<rparr>) else Some q)"
| "put_QueryReq (f, Len b) q =
     (if f = 1 then
        map_option (\<lambda>r. q\<lparr>qreq_Request := Some r\<rparr>)
          (decode put_Request (case qreq_Request q of None \<Rightarrow> new_Request | Some r \<Rightarrow> r) b)
      else Some q)"
| "put_QueryReq _ q = Some q"

text \<open>An enum is an \<open>int32\<close>, extended with its sign to 64 bits.\<close>

definition Action_fields :: "Action \<Rightarrow> wfield list" where
  "Action_fields a =
     (if act_Type a = 0 then [] else [(1, Varint (unat (scast (act_Type a) :: 64 word)))]) @
     (if act_Body a = [] then [] else [(2, Len (act_Body a))])"

fun put_Action :: "wfield \<Rightarrow> Action \<Rightarrow> Action option" where
  "put_Action (f, Varint n) a = (if f = 1 then Some (a\<lparr>act_Type := of_nat n\<rparr>) else Some a)"
| "put_Action (f, Len b) a = (if f = 2 then Some (a\<lparr>act_Body := b\<rparr>) else Some a)"
| "put_Action _ a = Some a"

section \<open>Every message keeps the contract\<close>

text \<open>Messages that can be marshalled: their strings are valid UTF-8.\<close>

fun value_ok :: "Parameter_Value option \<Rightarrow> bool" where
  "value_ok (Some (Parameter_S s)) \<longleftrightarrow> utf8 s"
| "value_ok _ \<longleftrightarrow> True"

definition Parameter_ok :: "Parameter \<Rightarrow> bool" where
  "Parameter_ok p \<longleftrightarrow> value_ok (param_Value p) \<and> utf8 (param_Name p)"

definition Statement_ok :: "Statement \<Rightarrow> bool" where
  "Statement_ok s \<longleftrightarrow> utf8 (stmt_Sql s) \<and> list_all (pred_option Parameter_ok) (stmt_Params s)"

definition Request_ok :: "Request \<Rightarrow> bool" where
  "Request_ok r \<longleftrightarrow> list_all Statement_ok (req_Statements r)"

definition QueryReq_ok :: "QueryReq \<Rightarrow> bool" where
  "QueryReq_ok q \<longleftrightarrow> pred_option Request_ok (qreq_Request q)"

lemma wire_string_bytes [simp]: "utf8 s \<Longrightarrow> wire_string (bytes_of_string s) = Some s"
  by (simp add: wire_string_def)

lemma unat_64_less: "unat (w :: 64 word) < 2 ^ 64"
  using unsigned_less [of w] by simp

lemma apply_fields_map:
  "(\<And>x m. x \<in> set xs \<Longrightarrow> put (g x) m = Some (add x m)) \<Longrightarrow> apply_fields put (map g xs) m = Some (fold add xs m)"
  by (induction xs arbitrary: m) simp_all

lemmas field_defs = string_field_def bool_field_def zero_Parameter_def new_Statement_def new_Request_def
  new_QueryReq_def new_Action_def

interpretation wp: wire_message Parameter_fields put_Parameter zero_Parameter Parameter_ok
proof
  fix p
  assume ok: "Parameter_ok p"
  have z: "zigzag i < 2 ^ 64" for i unfolding zigzag_def by (rule unat_64_less)
  show "list_all scalar_ok (Parameter_fields p)"
    using z by (cases "param_Value p" rule: value_fields.cases) (auto simp: Parameter_fields_def field_defs)
  show "apply_fields put_Parameter (Parameter_fields p) zero_Parameter = Some p"
    using ok
    by (cases p; cases "param_Value p" rule: value_fields.cases)
      (auto simp: Parameter_fields_def field_defs Parameter_ok_def zero_Parameter_def zigzag_roundtrip)
qed

interpretation ws: wire_message Statement_fields put_Statement new_Statement
  "\<lambda>s. Statement_ok s \<and> None \<notin> set (stmt_Params s)"
proof
  fix s
  assume ok: "Statement_ok s \<and> None \<notin> set (stmt_Params s)"
  show "list_all scalar_ok (Statement_fields s)" by (auto simp: Statement_fields_def field_defs list_all_iff)
  assume small: "list_all small_field (Statement_fields s)"
  let ?g = "\<lambda>p. (2, Len (encode_fields (case p of None \<Rightarrow> [] | Some p' \<Rightarrow> Parameter_fields p')))"
  let ?add = "\<lambda>p s. s\<lparr>stmt_Params := stmt_Params s @ [p]\<rparr>"
  have "put_Statement (?g p) m = Some (?add p m)" if "p \<in> set (stmt_Params s)" for p m
  proof -
    have "p \<noteq> None" "pred_option Parameter_ok p" using that ok unfolding Statement_ok_def list_all_iff by metis+
    then obtain p' where p: "p = Some p'" "Parameter_ok p'" by auto
    moreover have "length (encode_fields (Parameter_fields p')) < 2 ^ 63"
      using small that p by (force simp: Statement_fields_def list_all_iff)
    ultimately show ?thesis using wp.decode_encode by simp
  qed
  from apply_fields_map [of "stmt_Params s" put_Statement ?g ?add, OF this]
  have "apply_fields put_Statement (map ?g (stmt_Params s)) m = Some (fold ?add (stmt_Params s) m)" for m by simp
  moreover have "fold ?add ps m = m\<lparr>stmt_Params := stmt_Params m @ ps\<rparr>" for ps and m :: Statement
    by (induction ps arbitrary: m) simp_all
  ultimately show "apply_fields put_Statement (Statement_fields s) new_Statement = Some s"
    using ok by (cases s) (auto simp: Statement_fields_def Statement_ok_def field_defs)
qed

interpretation wr: wire_message Request_fields put_Request new_Request "\<lambda>r. Request_ok r \<and> no_nil_params r"
proof
  fix r
  assume ok: "Request_ok r \<and> no_nil_params r"
  show "list_all scalar_ok (Request_fields r)" by (auto simp: Request_fields_def field_defs list_all_iff)
  assume small: "list_all small_field (Request_fields r)"
  let ?g = "\<lambda>s. (2, Len (encode_fields (Statement_fields s)))"
  let ?add = "\<lambda>s r. r\<lparr>req_Statements := req_Statements r @ [s]\<rparr>"
  have "put_Request (?g s) m = Some (?add s m)" if "s \<in> set (req_Statements r)" for s m
  proof -
    have "length (encode_fields (Statement_fields s)) < 2 ^ 63"
      using small that by (force simp: Request_fields_def list_all_iff)
    moreover have "Statement_ok s \<and> None \<notin> set (stmt_Params s)"
      using that ok by (auto simp: Request_ok_def no_nil_params_def list_all_iff)
    ultimately show ?thesis using ws.decode_encode by simp
  qed
  from apply_fields_map [of "req_Statements r" put_Request ?g ?add, OF this]
  have "apply_fields put_Request (map ?g (req_Statements r)) m = Some (fold ?add (req_Statements r) m)" for m by simp
  moreover have "fold ?add ss m = m\<lparr>req_Statements := req_Statements m @ ss\<rparr>" for ss and m :: Request
    by (induction ss arbitrary: m) simp_all
  ultimately show "apply_fields put_Request (Request_fields r) new_Request = Some r"
    by (cases r) (auto simp: Request_fields_def field_defs new_Request_def)
qed

interpretation wq: wire_message QueryReq_fields put_QueryReq new_QueryReq
  "\<lambda>q. QueryReq_ok q \<and> pred_option no_nil_params (qreq_Request q)"
proof
  fix q
  assume ok: "QueryReq_ok q \<and> pred_option no_nil_params (qreq_Request q)"
  show "list_all scalar_ok (QueryReq_fields q)"
    by (auto simp: QueryReq_fields_def field_defs split: option.splits)
  assume "list_all small_field (QueryReq_fields q)"
  with ok wr.decode_encode
  show "apply_fields put_QueryReq (QueryReq_fields q) new_QueryReq = Some q"
    by (cases q; cases "qreq_Request q") (auto simp: QueryReq_fields_def QueryReq_ok_def field_defs)
qed

interpretation wa: wire_message Action_fields put_Action new_Action "\<lambda>_. True"
proof
  fix a
  show "list_all scalar_ok (Action_fields a)" using unat_64_less by (auto simp: Action_fields_def)
  have "of_nat (unat (scast t :: 64 word)) = t" for t :: "32 word"
  proof (rule bit_word_eqI)
    fix i assume i: "i < LENGTH(32)"
    have "bit (of_nat (unat (scast t :: 64 word)) :: 32 word) i \<longleftrightarrow> bit (scast t :: 64 word) i"
      using i by (simp add: bit_of_nat_iff_bit bit_simps)
    with i show "bit (of_nat (unat (scast t :: 64 word)) :: 32 word) i \<longleftrightarrow> bit t i" by (simp add: bit_simps)
  qed
  then show "apply_fields put_Action (Action_fields a) new_Action = Some a"
    by (cases a) (auto simp: Action_fields_def new_Action_def)
qed

section \<open>The codec\<close>

definition Marshal :: "bool \<Rightarrow> wfield list \<Rightarrow> goerr + bytes" where
  "Marshal valid fs =
     (if \<not> valid then Inl (ErrMsg ''string field contains invalid UTF-8'')
      else if 2 ^ 63 \<le> length (encode_fields fs) then Inl (ErrMsg ''proto: message too large'')
      else Inr (encode_fields fs))"

definition Unmarshal :: "(wfield \<Rightarrow> 'm \<Rightarrow> 'm option) \<Rightarrow> 'm \<Rightarrow> bytes \<Rightarrow> goerr + 'm" where
  "Unmarshal put zero b =
     (case decode put zero b of
        None \<Rightarrow> Inl (ErrMsg ''proto: cannot parse invalid wire-format data'')
      | Some m \<Rightarrow> Inr m)"

definition wire_codec :: pbcodec where
  "wire_codec =
     \<lparr>pb_Marshal_Request = (\<lambda>r. Marshal (Request_ok r) (Request_fields r)),
      pb_Unmarshal_Request = Unmarshal put_Request new_Request,
      pb_Marshal_QueryReq = (\<lambda>q. Marshal (QueryReq_ok q) (QueryReq_fields q)),
      pb_Unmarshal_QueryReq = Unmarshal put_QueryReq new_QueryReq,
      pb_Marshal_Action = (\<lambda>a. Marshal True (Action_fields a)),
      pb_Unmarshal_Action = Unmarshal put_Action new_Action\<rparr>"

lemma Marshal_Inr_iff [simp]:
  "Marshal valid fs = Inr b \<longleftrightarrow> valid \<and> length (encode_fields fs) < 2 ^ 63 \<and> b = encode_fields fs"
  by (auto simp: Marshal_def)

lemma wire_codec_laws: "pb_laws wire_codec"
  using wr.decode_encode wq.decode_encode wa.decode_encode
  by (auto simp: pb_laws_def wire_codec_def Unmarshal_def pred_option_def)

text \<open>A nil parameter takes no bytes, like an empty one, which it comes back as.\<close>

definition fill_Statement :: "Statement \<Rightarrow> Statement" where
  "fill_Statement s =
     s\<lparr>stmt_Params := map (\<lambda>p. case p of None \<Rightarrow> Some zero_Parameter | Some q \<Rightarrow> Some q) (stmt_Params s)\<rparr>"

definition fill_Request :: "Request \<Rightarrow> Request" where
  "fill_Request r = r\<lparr>req_Statements := map fill_Statement (req_Statements r)\<rparr>"

lemma fill_fields: "Request_fields (fill_Request r) = Request_fields r"
proof -
  have "Parameter_fields zero_Parameter = []" by (simp add: Parameter_fields_def zero_Parameter_def field_defs)
  then have "Statement_fields (fill_Statement s) = Statement_fields s" for s
    by (auto simp: Statement_fields_def fill_Statement_def split: option.splits)
  then show ?thesis by (simp add: Request_fields_def fill_Request_def)
qed

lemma fill_ok: "Request_ok r \<Longrightarrow> Request_ok (fill_Request r) \<and> no_nil_params (fill_Request r)"
proof -
  assume "Request_ok r"
  moreover have "Parameter_ok zero_Parameter" by (simp add: Parameter_ok_def zero_Parameter_def ascii_def)
  ultimately show ?thesis
    by (auto simp: Request_ok_def Statement_ok_def fill_Request_def fill_Statement_def no_nil_params_def list_all_iff
        split: option.splits) (metis option.pred_inject(2))+
qed

lemma varint_length: "n < 2 * 128 ^ k \<Longrightarrow> length (varint n) \<le> Suc k"
proof (induction k arbitrary: n)
  case (Suc k)
  have "n div 128 < 2 * 128 ^ k" using Suc.prems by (simp add: less_mult_imp_div_less)
  with Suc.IH [of "n div 128"] show ?case by (subst varint.simps) simp
qed (simp add: varint.simps)

lemma varint_length_64: "n < 2 ^ 64 \<Longrightarrow> length (varint n) \<le> 10"
  using varint_length [of n 9] by simp

lemma Action_length:
  assumes "length b < 2 ^ 62"
  shows "length (encode_fields (Action_fields \<lparr>act_Type = ty, act_Body = b\<rparr>)) < 2 ^ 63"
proof -
  have "length (varint (unat (scast ty :: 64 word))) \<le> 10" by (rule varint_length_64) (rule unat_64_less)
  moreover have "length (varint (length b)) \<le> 10" by (rule varint_length_64) (use assms in simp)
  moreover have "length (varint 8) \<le> 10" "length (varint 18) \<le> 10" by (rule varint_length_64; simp)+
  ultimately show ?thesis using assms by (auto simp: encode_fields_def Action_fields_def)
qed

section \<open>Requests in the log\<close>

text \<open>
  The parameter's laws are those of this format. A request whose strings are valid UTF-8 and
  that fits into memory can be marshalled, also wrapped into an action, and comes back with
  nil parameters replaced by empty ones; a request with another string is refused before it
  reaches the log.
\<close>

lemma log_entries_roundtrip:
  "pb_laws wire_codec \<and>
   (Request_ok r \<and> length (encode_fields (Request_fields r)) < 2 ^ 62 \<longrightarrow>
      (\<exists>b d. pb_Marshal_Request wire_codec r = Inr b \<and>
         pb_Marshal_Action wire_codec \<lparr>act_Type = ty, act_Body = b\<rparr> = Inr d \<and>
         pb_Unmarshal_Action wire_codec d = Inr \<lparr>act_Type = ty, act_Body = b\<rparr> \<and>
         pb_Unmarshal_Request wire_codec b = Inr (fill_Request r))) \<and>
   (\<not> Request_ok r \<longrightarrow> (\<exists>e. pb_Marshal_Request wire_codec r = Inl e))"
proof (intro conjI impI)
  assume r: "Request_ok r \<and> length (encode_fields (Request_fields r)) < 2 ^ 62"
  let ?b = "encode_fields (Request_fields r)"
  let ?a = "\<lparr>act_Type = ty, act_Body = ?b\<rparr>"
  have "decode put_Request new_Request ?b = Some (fill_Request r)"
    using wr.decode_encode [of "fill_Request r"] fill_ok [of r] r by (simp add: fill_fields)
  moreover have "length (encode_fields (Action_fields ?a)) < 2 ^ 63" using r Action_length by blast
  moreover from this have "decode put_Action new_Action (encode_fields (Action_fields ?a)) = Some ?a"
    by (rule wa.decode_encode [OF TrueI])
  ultimately show "\<exists>b d. pb_Marshal_Request wire_codec r = Inr b \<and>
      pb_Marshal_Action wire_codec \<lparr>act_Type = ty, act_Body = b\<rparr> = Inr d \<and>
      pb_Unmarshal_Action wire_codec d = Inr \<lparr>act_Type = ty, act_Body = b\<rparr> \<and>
      pb_Unmarshal_Request wire_codec b = Inr (fill_Request r)"
    using r by (simp add: wire_codec_def Unmarshal_def)
qed (simp_all add: wire_codec_laws, simp add: wire_codec_def Marshal_def)

end
