(* ===== verification/Grpc.thy ===== *)
theory Grpc
  imports Messages
begin

text \<open>
  The gRPC stubs of the service \<open>Store\<close> (\<^verbatim>\<open>pb/store_grpc.pb.go\<close>): the client, the server
  interface, the handlers and the table that ties them together. No component of the
  repository serves or calls them yet; what they promise is that a call on the client is the
  call of the same method on the registered server.

  The gRPC runtime is a parameter: \<open>ClientConn\<close> is a connection with its \<open>Invoke\<close>, \<open>Registrar\<close>
  the server's registry. \<open>serves\<close> is what gRPC documents of a connection to a server: a call
  of \<^verbatim>\<open>/service/method\<close> decodes the message, runs the handler that is registered for it and
  brings back its reply, or its error as a status. A call that is cancelled, times out or
  loses its connection is excluded by \<open>ch_up\<close>, a message that the codec does not carry over
  as it is (invalid UTF-8, nil elements, too large) by \<open>ch_carried\<close>.

  A context has type \<open>'x\<close>, the state behind the server type \<open>'s\<close>. Messages behind
  \<open>interface{}\<close> are a datatype; a reply keeps its pointer, since a nil \<open>*StoreExecResponse\<close>
  in an \<open>interface{}\<close> is not a nil interface. Call options are passed through and left out.
\<close>

section \<open>Types of the gRPC runtime\<close>

datatype rpcerr =
    Status nat string    \<comment> \<open>an error of package \<open>status\<close>: code and message\<close>
  | Plain string         \<comment> \<open>any other error\<close>

definition codes_Unknown :: nat where "codes_Unknown = 2"
definition codes_Unimplemented :: nat where "codes_Unimplemented = 12"

datatype grpc_msg =
    GRequest Request
  | GQueryReq QueryReq
  | GExecStringReq ExecStringReq
  | GQueryStringReq QueryStringReq
  | GExecResponse "StoreExecResponse option"
  | GQueryResponse "StoreQueryResponse option"

type_synonym ('o, 's) result = "(('o option \<times> rpcerr option) \<times> 's) go"

text \<open>\<open>StoreServer\<close>: an implementation of the service.\<close>

record ('x, 's) StoreServer =
  ss_Execute :: "'x \<Rightarrow> Request \<Rightarrow> 's \<Rightarrow> (StoreExecResponse, 's) result"
  ss_Query :: "'x \<Rightarrow> QueryReq \<Rightarrow> 's \<Rightarrow> (StoreQueryResponse, 's) result"
  ss_ExecString :: "'x \<Rightarrow> ExecStringReq \<Rightarrow> 's \<Rightarrow> (StoreExecResponse, 's) result"
  ss_QueryString :: "'x \<Rightarrow> QueryStringReq \<Rightarrow> 's \<Rightarrow> (StoreQueryResponse, 's) result"

type_synonym ('x, 's) UnaryHandler = "'x \<Rightarrow> grpc_msg \<Rightarrow> 's \<Rightarrow> (grpc_msg, 's) result"

text \<open>A value of type \<open>interface{}\<close> for a server is \<open>None\<close> when it is not a \<open>StoreServer\<close>.\<close>

record ('x, 's) UnaryServerInfo =
  info_Server :: "('x, 's) StoreServer option"
  info_FullMethod :: string

type_synonym ('x, 's) UnaryServerInterceptor =
  "'x \<Rightarrow> grpc_msg \<Rightarrow> ('x, 's) UnaryServerInfo \<Rightarrow> ('x, 's) UnaryHandler \<Rightarrow> 's \<Rightarrow> (grpc_msg, 's) result"

text \<open>\<open>dec(in)\<close>: the error, or what it stores into a new message of the type of \<open>in\<close>.\<close>

record decoder =
  dec_Request :: "rpcerr + Request"
  dec_QueryReq :: "rpcerr + QueryReq"
  dec_ExecStringReq :: "rpcerr + ExecStringReq"
  dec_QueryStringReq :: "rpcerr + QueryStringReq"

type_synonym ('x, 's) methodHandler =
  "('x, 's) StoreServer option \<Rightarrow> 'x \<Rightarrow> decoder \<Rightarrow> ('x, 's) UnaryServerInterceptor option \<Rightarrow> 's \<Rightarrow>
     (grpc_msg, 's) result"

record ('x, 's) MethodDesc =
  md_MethodName :: string
  md_Handler :: "('x, 's) methodHandler"

record ('x, 's) ServiceDesc =
  sd_ServiceName :: string
  sd_Methods :: "('x, 's) MethodDesc list"
  sd_Streams :: "string list"
  sd_Metadata :: string

text \<open>\<open>Invoke(ctx, method, in, out)\<close>, by the type of \<open>out\<close>: what it leaves there, and the error.\<close>

record ('x, 's) ClientConn =
  cc_Invoke_exec :: "'x \<Rightarrow> string \<Rightarrow> grpc_msg \<Rightarrow> StoreExecResponse \<Rightarrow> 's \<Rightarrow>
    ((StoreExecResponse \<times> rpcerr option) \<times> 's) go"
  cc_Invoke_query :: "'x \<Rightarrow> string \<Rightarrow> grpc_msg \<Rightarrow> StoreQueryResponse \<Rightarrow> 's \<Rightarrow>
    ((StoreQueryResponse \<times> rpcerr option) \<times> 's) go"

record ('x, 's, 'g) Registrar =
  rg_RegisterService :: "('x, 's) ServiceDesc \<Rightarrow> ('x, 's) StoreServer option \<Rightarrow> 'g \<Rightarrow> 'g go"
  rg_services :: "'g \<Rightarrow> (('x, 's) ServiceDesc \<times> ('x, 's) StoreServer option) list"

section \<open>The client\<close>

record ('x, 's) storeClient =
  sc_cc :: "('x, 's) ClientConn"

definition NewStoreClient :: "('x, 's) ClientConn \<Rightarrow> ('x, 's) storeClient" where
  "NewStoreClient cc = \<lparr>sc_cc = cc\<rparr>"

text \<open>\<^verbatim>\<open>if err != nil { return nil, err }; return out, nil\<close>\<close>

fun client_result :: "(('o \<times> rpcerr option) \<times> 's) go \<Rightarrow> ('o, 's) result" where
  "client_result (Panic e) = Panic e"
| "client_result (Ret ((out, Some err), s)) = Ret ((None, Some err), s)"
| "client_result (Ret ((out, None), s)) = Ret ((Some out, None), s)"

definition storeClient_Execute ::
  "('x, 's) storeClient \<Rightarrow> 'x \<Rightarrow> Request \<Rightarrow> 's \<Rightarrow> (StoreExecResponse, 's) result" where
  "storeClient_Execute c ctx i s =
     client_result (cc_Invoke_exec (sc_cc c) ctx ''/store.Store/Execute'' (GRequest i) new_StoreExecResponse s)"

definition storeClient_Query ::
  "('x, 's) storeClient \<Rightarrow> 'x \<Rightarrow> QueryReq \<Rightarrow> 's \<Rightarrow> (StoreQueryResponse, 's) result" where
  "storeClient_Query c ctx i s =
     client_result (cc_Invoke_query (sc_cc c) ctx ''/store.Store/Query'' (GQueryReq i) new_StoreQueryResponse s)"

definition storeClient_ExecString ::
  "('x, 's) storeClient \<Rightarrow> 'x \<Rightarrow> ExecStringReq \<Rightarrow> 's \<Rightarrow> (StoreExecResponse, 's) result" where
  "storeClient_ExecString c ctx i s =
     client_result (cc_Invoke_exec (sc_cc c) ctx ''/store.Store/ExecString'' (GExecStringReq i) new_StoreExecResponse s)"

definition storeClient_QueryString ::
  "('x, 's) storeClient \<Rightarrow> 'x \<Rightarrow> QueryStringReq \<Rightarrow> 's \<Rightarrow> (StoreQueryResponse, 's) result" where
  "storeClient_QueryString c ctx i s =
     client_result (cc_Invoke_query (sc_cc c) ctx ''/store.Store/QueryString'' (GQueryStringReq i) new_StoreQueryResponse s)"

section \<open>The server\<close>

definition Unimplemented :: "string \<Rightarrow> 'x \<Rightarrow> 'm \<Rightarrow> 's \<Rightarrow> ('o, 's) result" where
  "Unimplemented msg ctx m s = Ret ((None, Some (Status codes_Unimplemented msg)), s)"

definition UnimplementedStoreServer :: "('x, 's) StoreServer" where
  "UnimplementedStoreServer =
     \<lparr>ss_Execute = Unimplemented ''method Execute not implemented'',
      ss_Query = Unimplemented ''method Query not implemented'',
      ss_ExecString = Unimplemented ''method ExecString not implemented'',
      ss_QueryString = Unimplemented ''method QueryString not implemented''\<rparr>"

text \<open>The assertion \<open>srv.(StoreServer)\<close>, and a typed result as a result of the handler.\<close>

definition as_StoreServer ::
  "('x, 's) StoreServer option \<Rightarrow> (('x, 's) StoreServer \<Rightarrow> 'a go) \<Rightarrow> 'a go" where
  "as_StoreServer srv k =
     (case srv of None \<Rightarrow> Panic ''interface conversion: missing method Execute'' | Some v \<Rightarrow> k v)"

fun reply :: "('o option \<Rightarrow> grpc_msg) \<Rightarrow> ('o, 's) result \<Rightarrow> (grpc_msg, 's) result" where
  "reply wrap (Panic e) = Panic e"
| "reply wrap (Ret ((out, err), s)) = Ret ((Some (wrap out), err), s)"

definition bad_request :: "'a go" where
  "bad_request = Panic ''interface conversion: interface {} is not the request's type''"

definition Store_Execute_Handler :: "('x, 's) methodHandler" where
  "Store_Execute_Handler srv ctx dec interceptor s =
     (case dec_Request dec of
        Inl err \<Rightarrow> Ret ((None, Some err), s)
      | Inr i \<Rightarrow>
          (case interceptor of
             None \<Rightarrow> as_StoreServer srv (\<lambda>v. reply GExecResponse (ss_Execute v ctx i s))
           | Some ic \<Rightarrow>
               ic ctx (GRequest i) \<lparr>info_Server = srv, info_FullMethod = ''/store.Store/Execute''\<rparr>
                 (\<lambda>ctx req s. as_StoreServer srv (\<lambda>v.
                    case req of GRequest r \<Rightarrow> reply GExecResponse (ss_Execute v ctx r s) | _ \<Rightarrow> bad_request)) s))"

definition Store_Query_Handler :: "('x, 's) methodHandler" where
  "Store_Query_Handler srv ctx dec interceptor s =
     (case dec_QueryReq dec of
        Inl err \<Rightarrow> Ret ((None, Some err), s)
      | Inr i \<Rightarrow>
          (case interceptor of
             None \<Rightarrow> as_StoreServer srv (\<lambda>v. reply GQueryResponse (ss_Query v ctx i s))
           | Some ic \<Rightarrow>
               ic ctx (GQueryReq i) \<lparr>info_Server = srv, info_FullMethod = ''/store.Store/Query''\<rparr>
                 (\<lambda>ctx req s. as_StoreServer srv (\<lambda>v.
                    case req of GQueryReq r \<Rightarrow> reply GQueryResponse (ss_Query v ctx r s) | _ \<Rightarrow> bad_request)) s))"

definition Store_ExecString_Handler :: "('x, 's) methodHandler" where
  "Store_ExecString_Handler srv ctx dec interceptor s =
     (case dec_ExecStringReq dec of
        Inl err \<Rightarrow> Ret ((None, Some err), s)
      | Inr i \<Rightarrow>
          (case interceptor of
             None \<Rightarrow> as_StoreServer srv (\<lambda>v. reply GExecResponse (ss_ExecString v ctx i s))
           | Some ic \<Rightarrow>
               ic ctx (GExecStringReq i) \<lparr>info_Server = srv, info_FullMethod = ''/store.Store/ExecString''\<rparr>
                 (\<lambda>ctx req s. as_StoreServer srv (\<lambda>v.
                    case req of GExecStringReq r \<Rightarrow> reply GExecResponse (ss_ExecString v ctx r s) | _ \<Rightarrow> bad_request)) s))"

definition Store_QueryString_Handler :: "('x, 's) methodHandler" where
  "Store_QueryString_Handler srv ctx dec interceptor s =
     (case dec_QueryStringReq dec of
        Inl err \<Rightarrow> Ret ((None, Some err), s)
      | Inr i \<Rightarrow>
          (case interceptor of
             None \<Rightarrow> as_StoreServer srv (\<lambda>v. reply GQueryResponse (ss_QueryString v ctx i s))
           | Some ic \<Rightarrow>
               ic ctx (GQueryStringReq i) \<lparr>info_Server = srv, info_FullMethod = ''/store.Store/QueryString''\<rparr>
                 (\<lambda>ctx req s. as_StoreServer srv (\<lambda>v.
                    case req of GQueryStringReq r \<Rightarrow> reply GQueryResponse (ss_QueryString v ctx r s) | _ \<Rightarrow> bad_request)) s))"

definition Store_ServiceDesc :: "('x, 's) ServiceDesc" where
  "Store_ServiceDesc =
     \<lparr>sd_ServiceName = ''store.Store'',
      sd_Methods =
        [\<lparr>md_MethodName = ''Execute'', md_Handler = Store_Execute_Handler\<rparr>,
         \<lparr>md_MethodName = ''Query'', md_Handler = Store_Query_Handler\<rparr>,
         \<lparr>md_MethodName = ''ExecString'', md_Handler = Store_ExecString_Handler\<rparr>,
         \<lparr>md_MethodName = ''QueryString'', md_Handler = Store_QueryString_Handler\<rparr>],
      sd_Streams = [],
      sd_Metadata = ''pb/store.proto''\<rparr>"

definition RegisterStoreServer ::
  "('x, 's, 'g) Registrar \<Rightarrow> ('x, 's) StoreServer \<Rightarrow> 'g \<Rightarrow> 'g go" where
  "RegisterStoreServer rg srv g = rg_RegisterService rg Store_ServiceDesc (Some srv) g"


section \<open>What gRPC documents\<close>

text \<open>
  A registry takes every service whose name is new to it. (For a second one of a name the
  process ends.)
\<close>

definition registrar_laws :: "('x, 's, 'g) Registrar \<Rightarrow> bool" where
  "registrar_laws rg \<longleftrightarrow>
     (\<forall>desc srv g. sd_ServiceName desc \<notin> (sd_ServiceName \<circ> fst) ` set (rg_services rg g) \<longrightarrow>
        (\<exists>g'. rg_RegisterService rg desc srv g = Ret g' \<and> rg_services rg g' = rg_services rg g @ [(desc, srv)]))"

text \<open>
  A channel: the context a call arrives with, which calls arrive and come back, and which
  messages arrive as they were sent.
\<close>

record ('x, 's) channel =
  ch_remote :: "'x \<Rightarrow> 'x"
  ch_up :: "'x \<Rightarrow> 's \<Rightarrow> bool"
  ch_carried :: "grpc_msg \<Rightarrow> bool"

fun decodes :: "decoder \<Rightarrow> grpc_msg \<Rightarrow> bool" where
  "decodes dec (GRequest r) \<longleftrightarrow> dec_Request dec = Inr r"
| "decodes dec (GQueryReq q) \<longleftrightarrow> dec_QueryReq dec = Inr q"
| "decodes dec (GExecStringReq e) \<longleftrightarrow> dec_ExecStringReq dec = Inr e"
| "decodes dec (GQueryStringReq q) \<longleftrightarrow> dec_QueryStringReq dec = Inr q"
| "decodes dec _ \<longleftrightarrow> True"

text \<open>An error of another package arrives with the code \<open>Unknown\<close>; no error has the code \<open>OK\<close>.\<close>

fun wire_err :: "rpcerr \<Rightarrow> rpcerr" where
  "wire_err (Status code msg) = Status code msg"
| "wire_err (Plain msg) = Status codes_Unknown msg"

fun real_err :: "rpcerr \<Rightarrow> bool" where
  "real_err (Status code _) \<longleftrightarrow> code \<noteq> 0"
| "real_err (Plain _) \<longleftrightarrow> True"

text \<open>How the result of a handler comes back from \<open>Invoke\<close>.\<close>

definition comes_back ::
  "(grpc_msg \<Rightarrow> bool) \<Rightarrow> ('o option \<Rightarrow> grpc_msg) \<Rightarrow> (grpc_msg, 's) result \<Rightarrow> (('o \<times> rpcerr option) \<times> 's) go \<Rightarrow> bool"
where
  "comes_back carried wrap h back \<longleftrightarrow>
     (\<forall>out s'. h = Ret ((Some (wrap (Some out)), None), s') \<and> carried (wrap (Some out)) \<longrightarrow>
        back = Ret ((out, None), s')) \<and>
     (\<forall>rep err s'. h = Ret ((rep, Some err), s') \<and> real_err err \<longrightarrow>
        (\<exists>out. back = Ret ((out, Some (wire_err err)), s')))"

definition serves ::
  "('x, 's) channel \<Rightarrow> ('x, 's) UnaryServerInterceptor option \<Rightarrow>
     (('x, 's) ServiceDesc \<times> ('x, 's) StoreServer option) list \<Rightarrow> ('x, 's) ClientConn \<Rightarrow> bool" where
  "serves ch ic services cc \<longleftrightarrow>
     (\<forall>(desc, srv) \<in> set services. \<forall>md \<in> set (sd_Methods desc). \<forall>ctx m s.
        ch_up ch ctx s \<and> ch_carried ch m \<longrightarrow>
        (let path = ''/'' @ sd_ServiceName desc @ ''/'' @ md_MethodName md
         in \<exists>dec. decodes dec m \<and>
              (\<forall>out. comes_back (ch_carried ch) GExecResponse (md_Handler md srv (ch_remote ch ctx) dec ic s)
                 (cc_Invoke_exec cc ctx path m out s)) \<and>
              (\<forall>out. comes_back (ch_carried ch) GQueryResponse (md_Handler md srv (ch_remote ch ctx) dec ic s)
                 (cc_Invoke_query cc ctx path m out s))))"

text \<open>An interceptor that lets every call through as it is.\<close>

definition transparent :: "('x, 's) UnaryServerInterceptor option \<Rightarrow> bool" where
  "transparent interceptor \<longleftrightarrow>
     (\<forall>ic. interceptor = Some ic \<longrightarrow> (\<forall>ctx m info h s. ic ctx m info h s = h ctx m s))"

section \<open>A call on the client is a call on the server\<close>

text \<open>
  What a client may see of a method's result: the reply as it is, or nil and the error as a
  status.
\<close>

definition remote_of :: "('o \<Rightarrow> bool) \<Rightarrow> ('o, 's) result \<Rightarrow> ('o, 's) result \<Rightarrow> bool" where
  "remote_of carried here there \<longleftrightarrow>
     (\<forall>out s'. here = Ret ((Some out, None), s') \<and> carried out \<longrightarrow> there = here) \<and>
     (\<forall>rep err s'. here = Ret ((rep, Some err), s') \<and> real_err err \<longrightarrow>
        there = Ret ((None, Some (wire_err err)), s'))"

text \<open>
  The contract of one method: the client's stub invokes it by its name, the handler that the
  table has under this name decodes the request and calls the server's method.
\<close>

locale unary_method =
  fixes name :: string
    and wrap_in :: "'m \<Rightarrow> grpc_msg"
    and wrap_out :: "'o option \<Rightarrow> grpc_msg"
    and zero :: 'o
    and invoke :: "('x, 's) ClientConn \<Rightarrow> 'x \<Rightarrow> string \<Rightarrow> grpc_msg \<Rightarrow> 'o \<Rightarrow> 's \<Rightarrow> (('o \<times> rpcerr option) \<times> 's) go"
    and stub :: "('x, 's) storeClient \<Rightarrow> 'x \<Rightarrow> 'm \<Rightarrow> 's \<Rightarrow> ('o, 's) result"
    and method_of :: "('x, 's) StoreServer \<Rightarrow> 'x \<Rightarrow> 'm \<Rightarrow> 's \<Rightarrow> ('o, 's) result"
    and handler :: "('x, 's) methodHandler"
  assumes stub: "stub (NewStoreClient cc) ctx i s =
      client_result (invoke cc ctx (''/store.Store/'' @ name) (wrap_in i) zero s)"
    and in_table: "\<lparr>md_MethodName = name, md_Handler = handler\<rparr> \<in> set (sd_Methods Store_ServiceDesc)"
    and handler: "decodes dec (wrap_in i) \<Longrightarrow> transparent ic \<Longrightarrow>
      handler (Some srv) ctx dec ic s = reply wrap_out (method_of srv ctx i s)"
    and invoke: "\<forall>out. comes_back P GExecResponse h (cc_Invoke_exec cc ctx path m out s) \<Longrightarrow>
      \<forall>out. comes_back P GQueryResponse h (cc_Invoke_query cc ctx path m out s) \<Longrightarrow>
      comes_back P wrap_out h (invoke cc ctx path m out s)"
begin

lemma call:
  assumes "serves ch ic services cc" and "(Store_ServiceDesc, Some srv) \<in> set services" and "transparent ic"
    and "ch_up ch ctx s" and "ch_carried ch (wrap_in i)"
  shows "remote_of (\<lambda>a. ch_carried ch (wrap_out (Some a)))
    (method_of srv (ch_remote ch ctx) i s) (stub (NewStoreClient cc) ctx i s)"
proof -
  let ?path = "''/store.Store/'' @ name" and ?P = "ch_carried ch" and ?ctx = "ch_remote ch ctx"
  obtain dec where dec: "decodes dec (wrap_in i)"
    and "\<forall>out. comes_back ?P GExecResponse (handler (Some srv) ?ctx dec ic s) (cc_Invoke_exec cc ctx ?path (wrap_in i) out s)"
    and "\<forall>out. comes_back ?P GQueryResponse (handler (Some srv) ?ctx dec ic s) (cc_Invoke_query cc ctx ?path (wrap_in i) out s)"
    using assms in_table unfolding serves_def Let_def by (fastforce simp: Store_ServiceDesc_def)
  then have "comes_back ?P wrap_out (reply wrap_out (method_of srv ?ctx i s)) (invoke cc ctx ?path (wrap_in i) zero s)"
    using invoke handler [OF dec assms(3)] by metis
  then show ?thesis unfolding remote_of_def comes_back_def stub by auto
qed

end

lemma Store_ServiceName [simp]: "sd_ServiceName Store_ServiceDesc = ''store.Store''"
  by (simp add: Store_ServiceDesc_def)

lemma reply_transparent:
  "transparent (Some ic) \<Longrightarrow> ic ctx m info h s = h ctx m s"
  by (simp add: transparent_def)

lemmas handler_defs = Store_Execute_Handler_def Store_Query_Handler_def Store_ExecString_Handler_def
  Store_QueryString_Handler_def as_StoreServer_def

interpretation ex: unary_method "''Execute''" GRequest GExecResponse new_StoreExecResponse cc_Invoke_exec
    storeClient_Execute ss_Execute Store_Execute_Handler
  by unfold_locales
    (auto simp: storeClient_Execute_def NewStoreClient_def Store_ServiceDesc_def handler_defs reply_transparent
      split: option.splits)

interpretation qu: unary_method "''Query''" GQueryReq GQueryResponse new_StoreQueryResponse cc_Invoke_query
    storeClient_Query ss_Query Store_Query_Handler
  by unfold_locales
    (auto simp: storeClient_Query_def NewStoreClient_def Store_ServiceDesc_def handler_defs reply_transparent
      split: option.splits)

interpretation es: unary_method "''ExecString''" GExecStringReq GExecResponse new_StoreExecResponse cc_Invoke_exec
    storeClient_ExecString ss_ExecString Store_ExecString_Handler
  by unfold_locales
    (auto simp: storeClient_ExecString_def NewStoreClient_def Store_ServiceDesc_def handler_defs reply_transparent
      split: option.splits)

interpretation qs: unary_method "''QueryString''" GQueryStringReq GQueryResponse new_StoreQueryResponse cc_Invoke_query
    storeClient_QueryString ss_QueryString Store_QueryString_Handler
  by unfold_locales
    (auto simp: storeClient_QueryString_def NewStoreClient_def Store_ServiceDesc_def handler_defs reply_transparent
      split: option.splits)

text \<open>
  (C23) The stubs connect every method of the client to the same method of the server: over a
  connection to a gRPC server at which a store server was registered, each of the four calls
  runs that server's method, once, on the message that was sent, and returns its reply, or nil
  and its error as a status; the state behind the server is the one the method left. This
  holds with and without an interceptor that lets calls through.
\<close>
theorem remote_calls_reach_the_server:
  assumes "registrar_laws rg" and "''store.Store'' \<notin> (sd_ServiceName \<circ> fst) ` set (rg_services rg g)"
    and "RegisterStoreServer rg srv g = Ret g'"
    and "serves ch ic (rg_services rg g') cc" and "transparent ic" and "ch_up ch ctx s"
  shows "let c = NewStoreClient cc; ctx' = ch_remote ch ctx; carried = ch_carried ch;
      exec = remote_of (\<lambda>a. carried (GExecResponse (Some a)));
      query = remote_of (\<lambda>a. carried (GQueryResponse (Some a)))
    in (\<forall>r. carried (GRequest r) \<longrightarrow> exec (ss_Execute srv ctx' r s) (storeClient_Execute c ctx r s)) \<and>
       (\<forall>q. carried (GQueryReq q) \<longrightarrow> query (ss_Query srv ctx' q s) (storeClient_Query c ctx q s)) \<and>
       (\<forall>r. carried (GExecStringReq r) \<longrightarrow>
          exec (ss_ExecString srv ctx' r s) (storeClient_ExecString c ctx r s)) \<and>
       (\<forall>q. carried (GQueryStringReq q) \<longrightarrow>
          query (ss_QueryString srv ctx' q s) (storeClient_QueryString c ctx q s))"
proof -
  have "\<exists>g1. RegisterStoreServer rg srv g = Ret g1 \<and>
      rg_services rg g1 = rg_services rg g @ [(Store_ServiceDesc, Some srv)]"
    using assms(1) [unfolded registrar_laws_def, THEN spec, of Store_ServiceDesc] assms(2)
    unfolding RegisterStoreServer_def Store_ServiceName by blast
  with assms(3) have "(Store_ServiceDesc, Some srv) \<in> set (rg_services rg g')" by auto
  note call = assms(4) this assms(5,6)
  show ?thesis unfolding Let_def using ex.call [OF call] qu.call [OF call] es.call [OF call] qs.call [OF call] by blast
qed


text \<open>
  An instance: a registry that is the list of its services, a connection within the process,
  and a server that embeds \<open>UnimplementedStoreServer\<close> and implements \<open>ExecString\<close> only.
\<close>

definition list_registrar :: "('x, 's, (('x, 's) ServiceDesc \<times> ('x, 's) StoreServer option) list) Registrar" where
  "list_registrar =
     \<lparr>rg_RegisterService = (\<lambda>desc srv g.
        if sd_ServiceName desc \<in> set (map (sd_ServiceName \<circ> fst) g) then Panic ''duplicate service registration''
        else Ret (g @ [(desc, srv)])),
      rg_services = (\<lambda>g. g)\<rparr>"

definition local_decoder :: "grpc_msg \<Rightarrow> decoder" where
  "local_decoder m =
     \<lparr>dec_Request = (case m of GRequest r \<Rightarrow> Inr r | _ \<Rightarrow> Inl (Plain ''wrong type'')),
      dec_QueryReq = (case m of GQueryReq q \<Rightarrow> Inr q | _ \<Rightarrow> Inl (Plain ''wrong type'')),
      dec_ExecStringReq = (case m of GExecStringReq r \<Rightarrow> Inr r | _ \<Rightarrow> Inl (Plain ''wrong type'')),
      dec_QueryStringReq = (case m of GQueryStringReq q \<Rightarrow> Inr q | _ \<Rightarrow> Inl (Plain ''wrong type''))\<rparr>"

definition local_call ::
  "('x, 's) UnaryServerInterceptor option \<Rightarrow> (('x, 's) ServiceDesc \<times> ('x, 's) StoreServer option) list \<Rightarrow>
     'x \<Rightarrow> string \<Rightarrow> grpc_msg \<Rightarrow> 's \<Rightarrow> (grpc_msg, 's) result" where
  "local_call ic services ctx path m s =
     (case find (\<lambda>(p, _). p = path)
         (concat (map (\<lambda>(desc, srv). map (\<lambda>md.
            (''/'' @ sd_ServiceName desc @ ''/'' @ md_MethodName md, md_Handler md srv)) (sd_Methods desc)) services)) of
        None \<Rightarrow> Ret ((None, Some (Status codes_Unimplemented ''unknown method'')), s)
      | Some (_, h) \<Rightarrow> h ctx (local_decoder m) ic s)"

fun local_back :: "(grpc_msg \<Rightarrow> 'o option) \<Rightarrow> 'o \<Rightarrow> (grpc_msg, 's) result \<Rightarrow> (('o \<times> rpcerr option) \<times> 's) go" where
  "local_back sel out (Panic e) = Panic e"
| "local_back sel out (Ret ((rep, Some err), s)) = Ret ((out, Some (wire_err err)), s)"
| "local_back sel out (Ret ((rep, None), s)) =
     (case Option.bind rep sel of
        None \<Rightarrow> Ret ((out, Some (Status 13 ''grpc: error while marshaling'')), s)
      | Some a \<Rightarrow> Ret ((a, None), s))"

definition local_conn ::
  "('x, 's) UnaryServerInterceptor option \<Rightarrow> (('x, 's) ServiceDesc \<times> ('x, 's) StoreServer option) list \<Rightarrow>
     ('x, 's) ClientConn" where
  "local_conn ic services =
     \<lparr>cc_Invoke_exec = (\<lambda>ctx path m out s.
        local_back (\<lambda>r. case r of GExecResponse a \<Rightarrow> a | _ \<Rightarrow> None) out (local_call ic services ctx path m s)),
      cc_Invoke_query = (\<lambda>ctx path m out s.
        local_back (\<lambda>r. case r of GQueryResponse a \<Rightarrow> a | _ \<Rightarrow> None) out (local_call ic services ctx path m s))\<rparr>"

definition local_channel :: "('x, 's) channel" where
  "local_channel = \<lparr>ch_remote = (\<lambda>ctx. ctx), ch_up = (\<lambda>_ _. True), ch_carried = (\<lambda>_. True)\<rparr>"

lemma list_registrar_laws: "registrar_laws list_registrar"
  by (auto simp: registrar_laws_def list_registrar_def)

lemma local_decoder_decodes: "decodes (local_decoder m) m"
  by (cases m) (simp_all add: local_decoder_def)

lemma local_back_comes_back:
  "(\<And>a. sel (wrap (Some a)) = Some a) \<Longrightarrow> comes_back P wrap h (local_back sel out h)"
  by (auto simp: comes_back_def)

lemma local_call_table:
  assumes "md \<in> set (sd_Methods Store_ServiceDesc)"
  shows "local_call ic [(Store_ServiceDesc, srv)] ctx (''/store.Store/'' @ md_MethodName md) m s =
    md_Handler md srv ctx (local_decoder m) ic s"
  using assms by (auto simp: local_call_def Store_ServiceDesc_def)

lemma local_conn_serves: "serves local_channel ic [(Store_ServiceDesc, srv)] (local_conn ic [(Store_ServiceDesc, srv)])"
proof -
  have path: "''/'' @ ''store.Store'' @ ''/'' @ n = ''/store.Store/'' @ n" for n by simp
  show ?thesis
    unfolding serves_def Let_def
    by (auto simp only: list.set insert_iff empty_iff Store_ServiceName path local_conn_def ClientConn.select_convs
        local_call_table local_channel_def channel.select_convs grpc_msg.case
        intro!: exI [of _ "local_decoder _"] local_decoder_decodes local_back_comes_back)
qed

definition sample_server :: "(unit, string list) StoreServer" where
  "sample_server = UnimplementedStoreServer
     \<lparr>ss_ExecString := (\<lambda>_ r s. Ret ((Some \<lparr>ser_Results = [Some new_ExecRes]\<rparr>, None), s @ [esr_Exec r]))\<rparr>"

theorem remote_calls_reach_the_server_witness:
  "let ic = Some (\<lambda>ctx m info h. h ctx m);
     c = NewStoreClient (local_conn ic [(Store_ServiceDesc, Some sample_server)])
   in RegisterStoreServer list_registrar sample_server [] = Ret [(Store_ServiceDesc, Some sample_server)] \<and>
      storeClient_ExecString c () \<lparr>esr_Exec = ''I1''\<rparr> [''I0''] =
        Ret ((Some \<lparr>ser_Results = [Some new_ExecRes]\<rparr>, None), [''I0'', ''I1'']) \<and>
      storeClient_Execute c () new_Request [''I0''] =
        Ret ((None, Some (Status codes_Unimplemented ''method Execute not implemented'')), [''I0''])"
proof -
  let ?ic = "Some (\<lambda>ctx m info h. h ctx m)" and ?services = "[(Store_ServiceDesc, Some sample_server)]"
  have reg: "RegisterStoreServer list_registrar sample_server [] = Ret ?services"
    by (simp add: RegisterStoreServer_def list_registrar_def)
  have services: "rg_services list_registrar g = g" for g by (simp add: list_registrar_def)
  have "transparent ?ic" by (simp add: transparent_def)
  from remote_calls_reach_the_server [OF list_registrar_laws _ reg _ this, of local_channel "local_conn ?ic ?services" "()"]
  show ?thesis
    by (simp add: reg services local_conn_serves) (simp add: local_channel_def remote_of_def sample_server_def
        UnimplementedStoreServer_def Unimplemented_def codes_Unimplemented_def Let_def)
qed

end
