(* ===== verification/Spec2Isabelle.thy ===== *)
theory Spec2Isabelle
  imports Locks Security Coordinator Progress Mock Wire Grpc
begin

text \<open>
  A verification library of distsql, a distributed SQLite database in Go: SQL statements
  arrive over HTTP, are replicated with raft and run on a local SQLite file on every node.

  \<^bold>\<open>The program and how it is modelled\<close>

  A node is a \<open>coordinator.Coordinator\<close>. It opens one port, and a connection multiplexer
  gives every connection that starts with the byte 1 to raft and every other one to the HTTP
  service. The service (\<^verbatim>\<open>service\<close>) parses a request, calls the store (\<^verbatim>\<open>consensus\<close>) and encodes
  the result (\<^verbatim>\<open>pb/encoding\<close>). The store marshals writes and strong reads into raft's log, and
  raft calls back \<open>Apply\<close> on every node, which runs them on the engine (\<^verbatim>\<open>engine\<close>), the wrapper
  of \<open>database/sql\<close> with the SQLite driver. The manager (\<^verbatim>\<open>manager\<close>) turns serf's membership
  events into \<open>Join\<close> and \<open>Leave\<close> calls; \<^verbatim>\<open>security\<close> is a store of credentials.

  \<^item> \<open>Prelude\<close>: Go's results (\<open>goerr + 'a\<close>, \<open>'a go\<close> with panics as values), machine integers as
    words, byte strings, \<open>strings.HasPrefix\<close> and the like.
  \<^item> \<open>Pb\<close>: the messages of \<^verbatim>\<open>pb/store.pb.go\<close> that the program passes around, as records, and
    the nil-safe getters it calls. \<open>Messages\<close>: the remaining messages, \<open>Reset\<close>, getters and the
    names of the enum.
  \<^item> \<open>Grpc\<close>: \<^verbatim>\<open>pb/store_grpc.pb.go\<close>, client, server interface, handlers and service table; the
    locale \<open>unary_method\<close> is the contract of one method, interpreted on all four. The gRPC
    runtime is a parameter.
  \<^item> \<open>Host\<close>: files, \<open>database/sql\<close> and the SQLite driver as a record of operations over a world
    ('c world: files and connections), and the laws of SQLite the proofs rely on
    (\<open>sqlite_tx_laws\<close>: transactions, \<open>sqlite_read_laws\<close>: read-only statements).
  \<^item> \<open>Engine\<close>: \<^verbatim>\<open>engine/engine.go\<close>, one definition per method, loops as recursive functions; the
    backup loop, which may spin, as a \<open>partial_function (option)\<close>.
  \<^item> \<open>Snapshot\<close>: \<open>Persist\<close> and \<open>snapshotToBytes\<close> of \<^verbatim>\<open>consensus/consensus.go\<close> on bytes.
  \<^item> \<open>Raft\<close>: hashicorp/raft and the protobuf codec as records of operations with their laws
    (\<open>raft_config_laws\<close>, \<open>pb_laws\<close>).
  \<^item> \<open>Consensus\<close>, \<open>Membership\<close>: the rest of \<^verbatim>\<open>consensus/consensus.go\<close>: the record \<open>Consensus\<close>,
    \<open>Apply\<close>, \<open>Exec\<close>, \<open>Query\<close>, \<open>Snapshot\<close>, \<open>Restore\<close>, \<open>NewDB\<close>, \<open>Close\<close>, the waiting loops,
    \<open>Metrics\<close>, \<open>Join\<close> and \<open>Leave\<close>; the node as a step relation.
  \<^item> \<open>Replication\<close>: the abstract effect of a log entry on the content of a database, a locale
    \<open>replicated_fsm\<close> for state machines that implement such an effect, and its
    interpretation on \<open>Apply\<close>.
  \<^item> \<open>Locks\<close>: the mutex \<open>txmu\<close> between snapshots and transactional reads, as an interleaving of
    goroutines.
  \<^item> \<open>Transport\<close>: \<^verbatim>\<open>consensus/transport.go\<close> on connections as byte streams.
  \<^item> \<open>Security\<close>: \<^verbatim>\<open>security/security.go\<close>.
  \<^item> \<open>Manager\<close>: \<^verbatim>\<open>manager/manager.go\<close>; its \<open>Handler\<close> interface is the locale \<open>handler\<close>, interpreted
    on the consensus node.
  \<^item> \<open>Utf8\<close>, \<open>Json\<close>, \<open>Http\<close>: the parts of Go's standard library that decide what a request means:
    UTF-8, a JSON parser and printer over bytes with a proved round trip, query strings and
    their escaping, forms, redirects.
  \<^item> \<open>Encoding\<close>: \<^verbatim>\<open>pb/encoding/json.go\<close>, and a client that reads the results of an execution.
  \<^item> \<open>Client\<close>: a client that reads the results of queries, down to base64.
  \<^item> \<open>Statements\<close>: \<open>parseStatements\<close> and \<open>constructParam\<close> of \<^verbatim>\<open>service/service.go\<close>.
  \<^item> \<open>Store\<close>: the interface \<open>Store\<close> of the service as the locales \<open>store\<close> and \<open>serving_store\<close>,
    interpreted on the consensus node.
  \<^item> \<open>Service\<close>: the rest of \<^verbatim>\<open>service/service.go\<close>, every handler as a function from a request
    and the store's state to a response and the new state.
  \<^item> \<open>Mock\<close>: \<^verbatim>\<open>service/store_mock.go\<close>, the mock of the interface \<open>Store\<close>; gomock's controller is a
    parameter.
  \<^item> \<open>Frontend\<close>: queries from the client's URL or body to the results it reads.
  \<^item> \<open>Cluster\<close>: the locale \<open>logged_store\<close>, by which the front relies on a store whose changes go
    through a log, interpreted on the consensus node; several nodes behind their fronts as a
    step relation, with one committed log, and the invariant of its reachable states.
  \<^item> \<open>Progress\<close>: a cluster from the start of its nodes with \<open>NewDB\<close>, and that it catches up.
  \<^item> \<open>Coordinator\<close>: \<^verbatim>\<open>coordinator/coordinator.go\<close>, with its reachable states.
  \<^item> \<open>Wire\<close>: an instance of the codec parameter, the protobuf wire format with the field numbers
    and kinds of the generated structs, shown to satisfy \<open>pb_laws\<close>.
  \<^item> \<open>Sample_Driver\<close>, \<open>Sample_Node\<close>: concrete instances of the parameters, shown to satisfy the
    laws, on which the witnesses evaluate.

  \<^bold>\<open>What is shown\<close>

  \<^item> Replication: a node that applied a run of log entries holds their abstract effect, and
    replicas that applied the same entries agree.
  \<^item> Engine: atomicity of transactions, one-by-one execution otherwise, reads never write,
    the conversion of rows, the backup loop returns.
  \<^item> Consensus: \<open>Exec\<close> and strong \<open>Query\<close> are the engine's at their place in the log; refusals
    of a node that is not the leader; membership changes; snapshots survive their encoding.
  \<^item> Cluster: however requests, deliveries and elections interleave, every node holds the effect
    of a prefix of one log, and a strong read sees all of it; from its start with \<open>NewDB\<close> on, a
    cluster can always go on to a state in which all nodes hold the effect of the whole log.
  \<^item> The whole system (this theory): a write posted over HTTP and committed by raft is on every
    replica that applied the same entries; the texts posted are the texts read back from the
    log; joining over HTTP and through serf.
  \<^item> gRPC: a call on the client is the call of the same method on the registered server.
  \<^item> HTTP: a write posted to the leader end to end, from the JSON text of the statements to
    the JSON text of the results; a query, strong on the leader and weak on any node, from
    the URL or body to the rows the client reads; a follower is read-only; requests are well
    typed; the mock answers as it was told.
  \<^item> Coordinator: raft and HTTP connections are told apart; addresses; shutting down is safe in
    all reachable states, and final.
  \<^item> Behaviour that differs from what the code is meant to do is stated as it is: restoring a
    snapshot, restarting a node, joins with an address in use, redirected writes, IPv6
    addresses, serf tags, credentials with missing fields.

  \<^bold>\<open>Bounds and fuel\<close>

  The JSON parser recurses on fuel, twice the length of its input plus one, and every call
  consumes input or ends (\<open>parse_shorter\<close>, \<open>parse_fuel\<close>: more fuel changes nothing); its nesting
  bound of 10000 is the decoder's own. The \<open>select\<close> loops run on the list of their wake-ups,
  and the result is an option: \<open>None\<close> while they wait.

  \<^bold>\<open>Not modelled\<close>

  The generated code for protobuf reflection and descriptors. SQLite, raft, serf, the
  multiplexer, gzip, bcrypt, TLS, protobuf encoding, the gRPC runtime and gomock are code
  outside the repository and are parameters with named
  laws; what raft promises a cluster (one order of entries, an answer only after the entries
  before it) is in the premises of the steps of \<open>Cluster\<close>, which has no step for installing a
  snapshot, as \<open>Restore\<close> never succeeds.
  Log output is left out, except for the manager's error lines. Round trips over JSON are
  stated for strings that are valid UTF-8, which is what the encoder keeps as it is.
\<close>

section \<open>Joining a cluster\<close>

text \<open>
  What the HTTP client reports of a POST: the status of the contacted node's answer, or,
  when that is a redirect, of the answer to the request it repeats at the new place.
\<close>

fun answer_status :: "(response \<times> 's) go \<Rightarrow> goerr + nat" where
  "answer_status (Panic _) = Inl (ErrMsg ''EOF'')"
| "answer_status (Ret (resp, _)) = Inr (rs_Status resp)"

definition client_Do :: "(response \<times> 's) go \<Rightarrow> (response \<times> 't) go \<Rightarrow> goerr + nat" where
  "client_Do first redirected =
     (if answer_status first = Inr 301 then answer_status redirected else answer_status first)"

lemma join_posted:
  assumes "rq_Method r = ''POST''" and "rq_Path r = ''/join''" and "rq_Body r = Inr (join_body name addr)"
    and "utf8 name" and "utf8 addr"
  shows "ServeHTTP x sv ops r s =
    (case st_Join ops name addr s of
       (None, s') \<Rightarrow> Ret (WriteHeader None 200, s')
     | (Some err, s') \<Rightarrow>
         if err = ErrNotLeader then Ret (not_leader ops None r s', s') else Ret (http_Error (err_text err) 500, s'))"
proof -
  let ?kvs = "[(''addr'', addr), (''id'', name)]"
  have "enc_map [(''id'', JStr name), (''addr'', JStr addr)] = JObj (map (\<lambda>(k, v). (k, JStr v)) ?kvs)"
    by (simp add: enc_map_def)
  moreover have "\<forall>(k, v) \<in> set ?kvs. utf8 k \<and> utf8 v" "distinct (map fst ?kvs)"
    using assms(4,5) by (auto simp: ascii_def)
  note Unmarshal_map_strings [OF this, of "x_ParseFloat x"]
  ultimately have "Unmarshal_map (x_ParseFloat x) (join_body name addr) =
      Some [(''addr'', GoString addr), (''id'', GoString name)]"
    by (simp only: join_body_def) simp
  with assms(1-3) show ?thesis by (simp add: ServeHTTP_def HasPrefix_def join_handler_def)
qed

text \<open>
  (C14) Joining a cluster over HTTP: when a starting node's \<open>joinToLeader\<close> succeeds, the node it
  contacted was the leader, and the leader's configuration now has the new node under its own
  raft address, with the other members as they were. A redirect never helps: contacting a
  follower, which redirects, makes \<open>joinToLeader\<close> fail.
\<close>
theorem joined_node_is_member:
  assumes "joinToLeader k conf = None" and "cc_LeaderStartAddr conf \<noteq> ''''" and "RaftAddr conf = Inr addr"
    and "utf8 (cc_NodeName conf)" and "utf8 addr"
    and "rq_Method r = ''POST''" and "rq_Path r = ''/join''" and "rq_Body r = Inr (join_body (cc_NodeName conf) addr)"
    and "k_Do k (cc_LeaderStartAddr conf @ ''/join'') (join_body (cc_NodeName conf) addr) =
      client_Do (ServeHTTP x sv (consensus_ops env) r c) (ServeHTTP x2 sv2 ops2 (follow_redirect r) s2)"
    and "raft_config_laws (e_raft env) cfg" and "config_ok (cfg (c_raft c))"
  shows "IsLeader env c \<and>
    (\<exists>resp c'. ServeHTTP x sv (consensus_ops env) r c = Ret (resp, c') \<and>
       set (cfg (c_raft c')) =
         insert \<lparr>rs_ID = cc_NodeName conf, rs_Address = addr\<rparr> (others (cc_NodeName conf) (cfg (c_raft c))))"
proof -
  let ?a = "ServeHTTP x sv (consensus_ops env) r c"
  have "answer_status (ServeHTTP x2 sv2 ops2 (follow_redirect r) s2) = Inr 405"
    using redirected_write [OF assms(6), of x2 sv2 ops2 s2] assms(7)
    by (simp add: HasPrefix_def WriteHeader_def)
  then have "answer_status ?a = Inr 200"
    using assms(1,2,3,9)
    by (auto simp: joinToLeader_def client_Do_def Let_def split: if_splits option.splits sum.splits)
  moreover obtain e c' where j: "Join env (cc_NodeName conf) addr c = (e, c')" by fastforce
  moreover note a = join_posted [OF assms(6-8,4,5), of x sv "consensus_ops env" c]
  ultimately have "e = None" "?a = Ret (WriteHeader None 200, c')"
    by (cases e; simp add: consensus_ops_def not_leader_def http_Redirect_def http_Error_def Let_def
        split: if_splits)+
  with j join_raft_success [OF assms(10,11)] show ?thesis
    by (auto simp: Join_def split: if_splits prod.splits)
qed


theorem joined_node_is_member_witness:
  "let ops = consensus_ops (sample_env [] []); r = post ''/join'' '''' (join_body ''n1'' ''h:7'') in
   \<exists>resp c'. ServeHTTP sample_svc sample_service ops r (sample_node []) = Ret (resp, c') \<and>
     set (sr_servers (c_raft c')) =
       {\<lparr>rs_ID = ''n1'', rs_Address = ''h:7''\<rparr>, \<lparr>rs_ID = ''n0'', rs_Address = ''127.0.0.1:9000''\<rparr>}"
proof -
  let ?env = "sample_env [] []" and ?r = "post ''/join'' '''' (join_body ''n1'' ''h:7'')" and ?c = "sample_node []"
  let ?a = "ServeHTTP sample_svc sample_service (consensus_ops ?env) ?r ?c"
  let ?a2 = "ServeHTTP sample_svc sample_service (consensus_ops ?env) (follow_redirect ?r) ?c"
  let ?k = "sample_coord\<lparr>k_Do := \<lambda>_ _. client_Do ?a ?a2\<rparr>"
  let ?conf = "sample_conf\<lparr>cc_NodeName := ''n1'', cc_LeaderStartAddr := ''http://h:9''\<rparr>"
  have n: "cc_NodeName ?conf = ''n1''" "utf8 (cc_NodeName ?conf)" "utf8 ''h:7''" "cc_LeaderStartAddr ?conf \<noteq> ''''"
    by (simp_all add: ascii_def)
  have addr: "RaftAddr ?conf = Inr ''h:7''" by code_simp
  have r: "rq_Method ?r = ''POST''" "rq_Path ?r = ''/join''" "rq_Body ?r = Inr (join_body (cc_NodeName ?conf) ''h:7'')"
    by (simp_all add: post_def)
  have "fst (Join ?env ''n1'' ''h:7'' ?c) = None" by code_simp
  then obtain c' where "Join ?env ''n1'' ''h:7'' ?c = (None, c')" by (metis prod.collapse)
  then have "?a = Ret (WriteHeader None 200, c')"
    using join_posted [OF r n(2,3), of sample_svc sample_service "consensus_ops ?env" ?c]
    by (simp add: consensus_ops_def)
  then have jl: "joinToLeader ?k ?conf = None"
    using addr n(4) by (simp add: joinToLeader_def client_Do_def WriteHeader_def sample_coord_def Let_def)
  have laws: "raft_config_laws (e_raft ?env) sr_servers" by (simp add: sample_env_def sample_raft_laws)
  have ok: "config_ok (sr_servers (c_raft ?c))" by code_simp
  have do: "k_Do ?k (cc_LeaderStartAddr ?conf @ ''/join'') (join_body (cc_NodeName ?conf) ''h:7'') = client_Do ?a ?a2"
    by simp
  have oth: "others ''n1'' (sr_servers (c_raft ?c)) = {\<lparr>rs_ID = ''n0'', rs_Address = ''127.0.0.1:9000''\<rparr>}"
    by (auto simp: others_def sample_node_def)
  from joined_node_is_member [OF jl n(4) addr n(2,3) r do laws ok] oth show ?thesis
    unfolding n(1) Let_def by auto
qed





section \<open>A write on every replica\<close>

text \<open>The leader's own run of the log when \<open>Exec\<close> commits an entry.\<close>

lemma Exec_committed_log:
  assumes "pb_laws (e_pb env)" and "no_nil_params req" and "IsLeader env c"
    and "pb_Marshal_Request (e_pb env) req = Inr b"
    and "pb_Marshal_Action (e_pb env) \<lparr>act_Type = Action_ACTION_EXECUTE, act_Body = b\<rparr> = Inr d"
    and "rf_Apply (e_raft env) d (c_raft c) = (Inr (earlier, idx), r')"
    and "apply_entries env earlier (c\<lparr>c_raft := r'\<rparr>) = Ret c1"
  shows "\<exists>out c'. Exec env req c = Ret (out, c') \<and>
    apply_entries env (earlier @ [\<lparr>log_Index = idx, log_Data = d\<rparr>]) (c\<lparr>c_raft := r'\<rparr>) = Ret c'"
proof -
  obtain res err w' where run: "Engine_Exec (e_drv env) (c_db c) req (c_world c1) = ((res, err), w')"
    by (metis prod.collapse)
  have c1: "c_db c1 = c_db c"
    "c1\<lparr>c_world := w', c_lastIdx := idx\<rparr> = c\<lparr>c_raft := r', c_lastIdx := idx, c_world := w'\<rparr>"
    using apply_entries_frame [OF assms(7)] by (cases c; cases c1; simp)+
  have "apply_step env \<lparr>log_Index = idx, log_Data = d\<rparr> c1 = Ret (c\<lparr>c_raft := r', c_lastIdx := idx, c_world := w'\<rparr>)"
    using applyAction_execute [OF assms(1,2,4,5), of "c_db c" "c_world c1"] run c1
    by (simp add: apply_step_def Apply_def)
  then show ?thesis
    using Exec_committed [OF assms] run assms(7)
    by (simp add: apply_entries_append apply_step_def split: prod.splits go.splits)
qed


lemma exec_posted:
  assumes "HasPrefix (rq_Path r) ''/execute''" and "rq_Body r = Inr (print_texts sqls)"
    and "sqls \<noteq> []" and "\<forall>s \<in> set sqls. utf8 s"
    and "st_Exec ops \<lparr>req_Transaction = False, req_Statements = map (\<lambda>s. \<lparr>stmt_Sql = s, stmt_Params = []\<rparr>) sqls\<rparr> s =
      Ret (out, s')"
  shows "\<exists>resp. ServeHTTP x sv ops r s = Ret (resp, s')"
proof -
  have "parseStatements (x_ParseFloat x) (x_order x) (print_texts sqls) =
      Inr (map (\<lambda>s. \<lparr>stmt_Sql = s, stmt_Params = []\<rparr>) sqls)"
    using parse_texts [OF assms(4)] assms(3) by (simp add: parseStatements_def)
  with assms(2,5) route_execute [OF assms(1), of x sv ops s] show ?thesis
    by (cases out; cases "snd out") (auto simp: execHandler_def)
qed

text \<open>
  (C1) A write accepted over HTTP is on every replica: when SQL texts are posted to the leader and
  raft commits their entry after some earlier ones, the leader answers with a database in
  which the texts were executed one after the other on the effect of the earlier entries;
  and every other node that started from the same content and has applied the same entries
  from the log, however its own driver and disk look, holds the same content.
\<close>
theorem posted_write_reaches_every_replica:
  assumes "pb_laws (e_pb env)" and "IsLeader env c"
    and "HasPrefix (rq_Path r) ''/execute''" and "rq_Body r = Inr (print_texts sqls)"
    and "sqls \<noteq> []" and "\<forall>s \<in> set sqls. utf8 s \<and> sp_plain sp s"
    and req: "req = \<lparr>req_Transaction = False, req_Statements = map (\<lambda>s. \<lparr>stmt_Sql = s, stmt_Params = []\<rparr>) sqls\<rparr>"
    and "pb_Marshal_Request (e_pb env) req = Inr b"
    and "pb_Marshal_Action (e_pb env) \<lparr>act_Type = Action_ACTION_EXECUTE, act_Body = b\<rparr> = Inr d"
    and "rf_Apply (e_raft env) d (c_raft c) = (Inr (earlier, idx), r')"
    and "apply_entries env earlier (c\<lparr>c_raft := r'\<rparr>) = Ret c1"
    and "\<forall>rec \<in> set earlier. plain_entry (e_pb env) sp rec"
    and "good_replica env sp refuses c" and "good_replica env2 sp2 refuses f"
    and "e_pb env2 = e_pb env" and "sp_sem sp2 = sp_sem sp" and "sp_plain sp2 = sp_plain sp"
    and "node_content sp2 f = node_content sp c"
    and "apply_entries env2 (earlier @ [\<lparr>log_Index = idx, log_Data = d\<rparr>]) f = Ret f'"
  shows "\<exists>resp c'. ServeHTTP x sv (consensus_ops env) r c = Ret (resp, c') \<and>
    node_content sp c' = run_auto refuses (sp_sem sp)
      (fold (entry_effect (e_pb env) refuses (sp_sem sp)) earlier (node_content sp c)) (req_Statements req) \<and>
    node_content sp2 f' = node_content sp c'"
proof -
  let ?e = "\<lparr>log_Index = idx, log_Data = d\<rparr>"
  have nn: "no_nil_params req" by (simp add: req no_nil_params_def)
  obtain out c' where ex: "Exec env req c = Ret (out, c')"
    and run: "apply_entries env (earlier @ [?e]) (c\<lparr>c_raft := r'\<rparr>) = Ret c'"
    using Exec_committed_log [OF assms(1) nn assms(2,8-11)] by blast
  have "pb_Unmarshal_Action (e_pb env) d = Inr \<lparr>act_Type = Action_ACTION_EXECUTE, act_Body = b\<rparr>"
    "pb_Unmarshal_Request (e_pb env) b = Inr req"
    using assms(1,8,9) nn unfolding pb_laws_def by blast+
  then have er: "entry_request (e_pb env) ?e = Some req" by (simp add: entry_request_def)
  then have "plain_entry (e_pb env) sp ?e"
    using assms(6) by (auto simp: plain_entry_def plain_request_def req)
  with assms(12) have adm: "\<forall>rec \<in> set (earlier @ [?e]). plain_entry (e_pb env) sp rec" by simp
  then have adm2: "\<forall>rec \<in> set (earlier @ [?e]). plain_entry (e_pb env2) sp2 rec"
    using assms(15,17) by (simp add: plain_entry_def plain_request_def)
  have good: "good_replica env sp refuses (c\<lparr>c_raft := r'\<rparr>)"
    using assms(13) by (simp add: good_replica_def)
  note fold_content = node.run_content [folded apply_entries_run_log]
  have cont: "node_content sp c' =
      entry_effect (e_pb env) refuses (sp_sem sp) ?e
        (fold (entry_effect (e_pb env) refuses (sp_sem sp)) earlier (node_content sp c))"
    using fold_content [OF good adm run] by (simp add: node_content_def)
  moreover have "node_content sp2 f' = node_content sp c'"
    using fold_content [OF assms(14) adm2 assms(19)] cont assms(15,16,18) by simp
  moreover have "\<exists>resp. ServeHTTP x sv (consensus_ops env) r c = Ret (resp, c')"
    using assms(6) ex by (intro exec_posted [OF assms(3-5)]) (auto simp: consensus_ops_def req)
  ultimately show ?thesis using er by (auto simp: entry_effect_def request_effect_def req)
qed


theorem posted_write_reaches_every_replica_witness:
  "let req = sample_request False [''I1'', ''FAIL'', ''I2'']; env = replica_env [req] []
   in \<exists>resp c' f'. ServeHTTP sample_svc sample_service (consensus_ops env)
          (post ''/execute'' '''' (print_texts [''I1'', ''FAIL'', ''I2''])) (sample_node [''I0'']) = Ret (resp, c') \<and>
        apply_entries env [\<lparr>log_Index = 1, log_Data = [1]\<rparr>] (sample_follower [''I0'']) = Ret f' \<and>
        node_content sample_spec c' = [''I0'', ''I1'', ''I2''] \<and>
        node_content sample_spec f' = [''I0'', ''I1'', ''I2'']"
proof -
  let ?sqls = "[''I1'', ''FAIL'', ''I2'']"
  let ?req = "sample_request False ?sqls"
  let ?env = "replica_env [?req] []" and ?c = "sample_node [''I0'']" and ?f = "sample_follower [''I0'']"
  let ?r' = "(c_raft ?c)\<lparr>sr_next := 2\<rparr>" and ?r = "post ''/execute'' '''' (print_texts ?sqls)"
  let ?e = "\<lparr>log_Index = 1, log_Data = [1]\<rparr>"
  note laws = sample_commit(1) [OF replica_env_parts] and ld = sample_commit(2) [OF replica_env_parts]
    and m = sample_commit_exec [OF replica_env_parts(1)] and ap = sample_commit(3) [OF replica_env_parts]
  have r: "HasPrefix (rq_Path ?r) ''/execute''" "rq_Body ?r = Inr (print_texts ?sqls)"
    by (simp_all add: post_def HasPrefix_def)
  have asc: "\<forall>s \<in> set ?sqls. utf8 s \<and> sp_plain sample_spec s" by (simp add: ascii_def sample_spec_def)
  have req: "?req = \<lparr>req_Transaction = False, req_Statements = map (\<lambda>s. \<lparr>stmt_Sql = s, stmt_Params = []\<rparr>) ?sqls\<rparr>"
    by (simp add: sample_request_def)
  have good: "good_replica ?env sample_spec sample_refuses ?c" "good_replica ?env sample_spec sample_refuses ?f"
    by (rule good_sample_replica; simp add: sample_node_def sample_follower_def sample_world_def)+
  have eq: "node_content sample_spec ?f = node_content sample_spec ?c"
    by (simp add: node_content_def sample_follower_def sample_node_def)
  have "(case apply_entries ?env [?e] ?f of Ret _ \<Rightarrow> True | Panic _ \<Rightarrow> False)" by code_simp
  then obtain f' where f': "apply_entries ?env ([] @ [?e]) ?f = Ret f'" by (auto split: go.splits)
  have v: "run_auto sample_refuses (sp_sem sample_spec) (node_content sample_spec ?c) (req_Statements ?req) =
      [''I0'', ''I1'', ''I2'']"
    by code_simp
  from posted_write_reaches_every_replica [OF laws ld r _ asc req m ap apply_entries.simps(1) _ good refl refl refl eq f'] v f'
  show ?thesis by (force simp: Let_def)
qed

section \<open>From the text to the log and back\<close>

text \<open>
  (C5) The log holds what was posted: when SQL texts in any valid UTF-8 are posted to the
  leader and raft commits the bytes it is handed, the leader answers after running its log
  up to and with the new entry, and whoever reads that entry from the log gets a request
  with exactly those texts, in order, and no parameters. This takes of the protobuf codec
  that it decodes what it encoded; the witness has the bytes of the wire format.
\<close>
theorem posted_texts_in_log:
  assumes laws: "pb_laws (e_pb env)" and "IsLeader env c"
    and "HasPrefix (rq_Path r) ''/execute''" and "rq_Body r = Inr (print_texts sqls)"
    and "sqls \<noteq> []" and "\<forall>s \<in> set sqls. utf8 s"
    and m1: "pb_Marshal_Request (e_pb env) (body_request sqls False) = Inr b"
    and m2: "pb_Marshal_Action (e_pb env) \<lparr>act_Type = Action_ACTION_EXECUTE, act_Body = b\<rparr> = Inr d"
    and "rf_Apply (e_raft env) d (c_raft c) = (Inr (earlier, idx), r')"
    and "apply_entries env earlier (c\<lparr>c_raft := r'\<rparr>) = Ret c1"
  shows "\<exists>resp c'. ServeHTTP x sv (consensus_ops env) r c = Ret (resp, c') \<and>
    apply_entries env (earlier @ [\<lparr>log_Index = idx, log_Data = d\<rparr>]) (c\<lparr>c_raft := r'\<rparr>) = Ret c' \<and>
    entry_request (e_pb env) \<lparr>log_Index = idx, log_Data = d\<rparr> =
      Some \<lparr>req_Transaction = False, req_Statements = map (\<lambda>s. \<lparr>stmt_Sql = s, stmt_Params = []\<rparr>) sqls\<rparr>"
proof -
  let ?req = "body_request sqls False"
  have nn: "no_nil_params ?req" by (auto simp: body_request_def no_nil_params_def)
  obtain out c' where ex: "Exec env ?req c = Ret (out, c')"
    and run: "apply_entries env (earlier @ [\<lparr>log_Index = idx, log_Data = d\<rparr>]) (c\<lparr>c_raft := r'\<rparr>) = Ret c'"
    using Exec_committed_log [OF laws nn assms(2) m1 m2 assms(9,10)] by blast
  have "\<exists>resp. ServeHTTP x sv (consensus_ops env) r c = Ret (resp, c')"
    by (rule exec_posted [OF assms(3-6)]) (use ex in \<open>simp add: consensus_ops_def body_request_def\<close>)
  moreover have "entry_request (e_pb env) \<lparr>log_Index = idx, log_Data = d\<rparr> = Some ?req"
    using laws m1 m2 nn unfolding pb_laws_def entry_request_def by simp
  ultimately show ?thesis using run by (auto simp: body_request_def)
qed

theorem posted_texts_in_log_witness:
  "let env = (sample_env [] [])\<lparr>e_pb := wire_codec\<rparr>; d = [8, 1, 18, 6, 18, 4, 10, 2, 73, 49] in
   \<exists>resp c'. ServeHTTP sample_svc sample_service (consensus_ops env)
       (post ''/execute'' '''' (print_texts [''I1''])) (sample_node [''I0'']) = Ret (resp, c') \<and>
     c_lastIdx c' = 1 \<and> entry_request wire_codec \<lparr>log_Index = 1, log_Data = d\<rparr> =
       Some \<lparr>req_Transaction = False, req_Statements = [\<lparr>stmt_Sql = ''I1'', stmt_Params = []\<rparr>]\<rparr>"
proof -
  let ?env = "(sample_env [] [])\<lparr>e_pb := wire_codec\<rparr>" and ?c = "sample_node [''I0'']"
  let ?r = "post ''/execute'' '''' (print_texts [''I1''])" and ?r' = "(c_raft (sample_node [''I0'']))\<lparr>sr_next := 2\<rparr>"
  let ?b = "[18, 4, 10, 2, 73, 49] :: bytes" and ?d = "[8, 1, 18, 6, 18, 4, 10, 2, 73, 49] :: bytes"
  have "IsLeader (sample_env [] []) ?c" by code_simp
  then have ld: "IsLeader ?env ?c" by (simp add: IsLeader_def)
  have r: "HasPrefix (rq_Path ?r) ''/execute''" "rq_Body ?r = Inr (print_texts [''I1''])"
    by (simp_all add: post_def HasPrefix_def)
  have u: "\<forall>s \<in> set [''I1'']. utf8 s" by (simp add: ascii_def)
  have b: "encode_fields (Request_fields (body_request [''I1''] False)) = ?b" by code_simp
  have d: "encode_fields (Action_fields \<lparr>act_Type = Action_ACTION_EXECUTE, act_Body = ?b\<rparr>) = ?d"
    by code_simp
  have m1: "pb_Marshal_Request (e_pb ?env) (body_request [''I1''] False) = Inr ?b"
    by (simp add: wire_codec_def b) (simp add: body_request_def Request_ok_def Statement_ok_def ascii_def)
  have m2: "pb_Marshal_Action (e_pb ?env) \<lparr>act_Type = Action_ACTION_EXECUTE, act_Body = ?b\<rparr> = Inr ?d"
    by (simp add: wire_codec_def d)
  have ap: "rf_Apply (e_raft ?env) ?d (c_raft ?c) = (Inr ([], 1), ?r')"
    by (simp add: sample_env_def sample_raft_def sample_node_def)
  have e: "apply_entries ?env [] (?c\<lparr>c_raft := ?r'\<rparr>) = Ret (?c\<lparr>c_raft := ?r'\<rparr>)" by simp
  have "\<exists>resp c'. ServeHTTP sample_svc sample_service (consensus_ops ?env) ?r ?c = Ret (resp, c') \<and>
      apply_entries ?env ([] @ [\<lparr>log_Index = 1, log_Data = ?d\<rparr>]) (?c\<lparr>c_raft := ?r'\<rparr>) = Ret c' \<and>
      entry_request (e_pb ?env) \<lparr>log_Index = 1, log_Data = ?d\<rparr> =
        Some \<lparr>req_Transaction = False, req_Statements = map (\<lambda>s. \<lparr>stmt_Sql = s, stmt_Params = []\<rparr>) [''I1'']\<rparr>"
    by (rule posted_texts_in_log [OF _ ld r _ u m1 m2 ap e]) (simp_all add: wire_codec_laws)
  then obtain resp c' where
    c': "ServeHTTP sample_svc sample_service (consensus_ops ?env) ?r ?c = Ret (resp, c')"
      "apply_entries ?env [\<lparr>log_Index = 1, log_Data = ?d\<rparr>] (?c\<lparr>c_raft := ?r'\<rparr>) = Ret c'"
    and "entry_request wire_codec \<lparr>log_Index = 1, log_Data = ?d\<rparr> =
        Some \<lparr>req_Transaction = False, req_Statements = [\<lparr>stmt_Sql = ''I1'', stmt_Params = []\<rparr>]\<rparr>"
    by auto
  moreover have "c_lastIdx c' = 1" using apply_entries_frame [OF c'(2)] by simp
  ultimately show ?thesis unfolding Let_def by blast
qed


end
